theory Spec2Isabelle
  imports
    Main
    "HOL-Library.Word"
    "HOL-Library.FSet"
    "HOL-Library.List_Lexorder"
    "HOL-Library.Char_ord"
begin

section \<open>Data model of package segresults\<close>

text \<open>
  The embedding follows \<^verbatim>\<open>pkg/segment/results/segresults/segresults.go\<close>.
  Every method of \<^verbatim>\<open>SearchResults\<close> takes the state and returns the new one.
  The mutex \<^verbatim>\<open>updateLock\<close> is not a field of the model: each operation is one
  atomic step. A Go runtime panic (nil dereference, index out of range) is the
  result \<open>None\<close>. Go maps are partial functions where only lookups, stores and
  deletes occur, and association lists (in iteration order) where the code ranges
  over them. Pointers stored inside slices and maps are taken to be non-nil unless
  the source itself tests them for nil.
\<close>

type_synonym uint64 = "64 word"
type_synonym uint16 = "16 word"

datatype EarlyExitType = EetContSearch | EetMatchAllAggs | EetEarlyExit

text \<open>\<^verbatim>\<open>structs.QueryType\<close> and \<^verbatim>\<open>structs.SearchNodeType\<close>: the constants the file names,
  and one constructor for the remaining values.\<close>

datatype QueryType = RRCCmd | GroupByCmd | SegmentStatsCmd | InvalidCmd

datatype SearchNodeType = MatchAllQuery | OtherQuery

text \<open>\<^verbatim>\<open>utils.AggregateFunctions\<close>: the nine functions \<^verbatim>\<open>UpdateSegmentStats\<close> switches on
  (\<open>Min\<close>, \<open>Max\<close> and \<open>List\<close> carry a suffix) and \<open>OtherFn\<close> for
  every other value of the enumeration.\<close>

datatype AggregateFunctions =
  Count | Avg | Min_fn | Max_fn | Range | Sum | Cardinality | Values | List_fn | OtherFn nat

text \<open>Go values of type \<^verbatim>\<open>interface{}\<close>, by dynamic type. \<open>'f\<close> stands for \<^verbatim>\<open>float64\<close>.\<close>

datatype 'f GoValue =
  VNil
  | VFloat64 'f
  | VUint64 uint64
  | VInt64 "64 word"
  | VString string
  | VStringSlice "string list"
  | VSlice "'f GoValue list"
  | VOther

datatype SS_DTYPE = SS_DT_FLOAT | SS_DT_SIGNED_NUM | SS_DT_STRING | SS_DT_STRING_SLICE | SS_DT_OTHER

record 'f CValueEnclosure =
  Dtype :: SS_DTYPE
  CVal :: "'f GoValue"

text \<open>Go \<^verbatim>\<open>error\<close> values. The constructors name the sites of this file that build an
  error; \<open>ErrExternal\<close> is an error handed back by a function of another package.\<close>

datatype error =
  ErrStatsAlreadyFinal
  | ErrUnexpectedMeasureResultsLength
  | ErrMeasureFuncNotFound string
  | ErrUnexpectedType
  | ErrStrSetConversion string
  | ErrUpdateSegmentStats error
  | ErrExternal string

text \<open>Types of other packages whose content this file never inspects.\<close>

typedecl ValueExpr
typedecl NumStats
typedecl NumTypeEnclosure
typedecl GroupByBucketsJSON
typedecl TimeBucketsJSON
typedecl OtherEvalStat

record SortRequest =
  Ascending :: bool

record GroupByRequest =
  BucketCount :: int
  gb_AggName :: string
  GroupByColumns :: "string list"

record TimeBucket =
  th_AggName :: string

record MeasureAggregator =
  MeasureFunc :: AggregateFunctions
  MeasureCol :: string
  ValueColRequest :: "ValueExpr option"
  StrEnc :: string

record QueryAggregators =
  aggs_EarlyExit :: bool
  TimeHistogram :: "TimeBucket option"
  Sort :: "SortRequest option"
  GroupByRequest :: "GroupByRequest option"
  MeasureOperations :: "MeasureAggregator list option"

record StringStats =
  StrSet :: "string fset option"

record SegStats =
  NumStats :: "NumStats option"
  StringStats :: "StringStats option"

text \<open>\<^verbatim>\<open>map[string]*structs.SegStats\<close>, in the order a \<^verbatim>\<open>range\<close> visits it; a lookup is
  \<open>map_of\<close>. The pointer may be nil.\<close>

type_synonym sstMap = "(string \<times> SegStats option) list"

text \<open>The values kept in \<^verbatim>\<open>runningEvalStats\<close> (\<^verbatim>\<open>map[string]interface{}\<close>): a string set
  \<^verbatim>\<open>map[string]struct{}\<close>, or a value of another dynamic type.\<close>

datatype EvalStat = StrSetStat "string fset" | OtherStat OtherEvalStat

record TimeRange =
  StartEpochMs :: uint64
  EndEpochMs :: uint64

record 'f RecordResultContainer =
  RecordId :: string
  IsRemote :: bool
  SortColumnValue :: 'f

type_synonym 'f rawLog = "string \<rightharpoonup> 'f GoValue"

record 'f remoteSearchResult =
  remoteLogs :: "string \<rightharpoonup> 'f rawLog"
  remoteColumns :: "string set"

record 'f segStatsResults =
  measureResults :: "string \<rightharpoonup> 'f CValueEnclosure"
  measureFunctions :: "string list"
  groupByCols :: "string list"

record 'f BucketResult =
  BucketKey :: "'f GoValue"
  StatRes :: "(string \<times> 'f CValueEnclosure) list"

record 'f AggregationResult =
  Results :: "'f BucketResult list"

record 'f BucketHolder =
  GroupByValues :: "string list"
  MeasureVal :: "string \<rightharpoonup> 'f GoValue"

record 'f NodeResult =
  nr_ColumnsOrder :: "string \<rightharpoonup> int"
  nr_GroupByCols :: "string list"
  Histogram :: "(string \<times> 'f AggregationResult) list option"
  MeasureResults :: "'f BucketHolder list"
  MeasureFunctions :: "string list"

record ('b, 'f) SearchResults =
  queryType :: QueryType
  qid :: uint64
  sAggs :: "QueryAggregators option"
  sizeLimit :: uint64
  resultCount :: uint64
  EarlyExit :: bool
  BlockResults :: "'b option"
  remoteInfo :: "'f remoteSearchResult option"
  runningSegStat :: "SegStats option list"
  runningEvalStats :: "string \<rightharpoonup> EvalStat"
  segStatsResults :: "'f segStatsResults option"
  convertedBuckets :: "(string \<times> 'f AggregationResult) list option"
  allSSTS :: "uint16 \<rightharpoonup> sstMap"
  AllErrors :: "error list"
  SegKeyToEnc :: "string \<rightharpoonup> uint16"
  SegEncToKey :: "uint16 \<rightharpoonup> string"
  MaxSegKeyEnc :: uint16
  ColumnsOrder :: "string \<rightharpoonup> int"
  statsAreFinal :: bool

section \<open>Functions of other packages, as parameters\<close>

text \<open>
  Package \<^verbatim>\<open>blockresults\<close> is not among the sources. \<open>'b\<close> is its type
  \<^verbatim>\<open>BlockResults\<close>; the record holds the functions of the package that
  \<^verbatim>\<open>segresults.go\<close> calls. A method that changes its receiver returns the new
  receiver. \<open>TimeAggregation_len b\<close> is \<^verbatim>\<open>len(b.TimeAggregation.AllRunningBuckets)\<close>,
  and \<open>None\<close> when \<^verbatim>\<open>b.TimeAggregation\<close> is nil; likewise \<open>GroupByAggregation_len\<close>.
  \<open>float64_of\<close> is the conversion \<^verbatim>\<open>float64(x)\<close> of a \<^verbatim>\<open>uint64\<close>.
\<close>

record ('b, 'f) blockresults =
  InitBlockResults :: "uint64 \<Rightarrow> QueryAggregators option \<Rightarrow> uint64 \<Rightarrow> error + 'b"
  Add :: "'b \<Rightarrow> 'f RecordResultContainer \<Rightarrow> (bool \<times> string) \<times> 'b"
  GetResults :: "'b \<Rightarrow> 'f RecordResultContainer list"
  MatchedCount :: "'b \<Rightarrow> uint64"
  MergeBuckets :: "'b \<Rightarrow> 'b \<Rightarrow> 'b"
  MergeRemoteBuckets ::
    "'b \<Rightarrow> GroupByBucketsJSON option \<Rightarrow> TimeBucketsJSON option \<Rightarrow> error option \<times> 'b"
  WillValueBeAdded :: "'b \<Rightarrow> 'f \<Rightarrow> bool"
  TimeAggregation_len :: "'b \<Rightarrow> nat option"
  GroupByAggregation_len :: "'b \<Rightarrow> nat option"
  float64_of :: "uint64 \<Rightarrow> 'f"

text \<open>
  The functions of packages \<^verbatim>\<open>segread\<close>, \<^verbatim>\<open>aggregations\<close>, \<^verbatim>\<open>structs\<close> and \<^verbatim>\<open>utils\<close> that
  \<^verbatim>\<open>UpdateSegmentStats\<close> and \<^verbatim>\<open>GetEncodedSegStats\<close> call. A \<^verbatim>\<open>segread.GetSeg...\<close>
  function takes the running and the current statistics and returns its two
  results and the content of the running object after the call (it updates the
  object through the pointer). A \<^verbatim>\<open>aggregations.ComputeAggEval...\<close> function returns
  its error and the maps it was given, as it left them. \<open>'j\<close> is \<^verbatim>\<open>structs.SegStatsJSON\<close>;
  \<open>Marshal\<close> is \<^verbatim>\<open>json.Marshal\<close> of the \<^verbatim>\<open>AllSegStatsJSON\<close> built from the entries.
\<close>

type_synonym getSeg =
  "SegStats option \<Rightarrow> SegStats option \<Rightarrow> (NumTypeEnclosure option \<times> error option) \<times> SegStats option"

type_synonym 'f measureMap = "string \<rightharpoonup> 'f CValueEnclosure"

type_synonym evalMap = "string \<rightharpoonup> EvalStat"

record ('f, 'j) statsfuns =
  String_of :: "MeasureAggregator \<Rightarrow> string"
  GetSegMin :: getSeg
  GetSegMax :: getSeg
  GetSegRange :: getSeg
  GetSegCardinality :: getSeg
  GetSegCount :: getSeg
  GetSegSum :: getSeg
  GetSegAvg :: getSeg
  GetSegList :: "SegStats option \<Rightarrow> SegStats option \<Rightarrow> ('f CValueEnclosure option \<times> error option) \<times> SegStats option"
  ToCValueEnclosure :: "NumTypeEnclosure option \<Rightarrow> error + 'f CValueEnclosure"
  ComputeAggEvalForMinOrMax ::
    "MeasureAggregator \<Rightarrow> sstMap \<Rightarrow> 'f measureMap \<Rightarrow> bool \<Rightarrow> error option \<times> 'f measureMap"
  ComputeAggEvalForRange ::
    "MeasureAggregator \<Rightarrow> sstMap \<Rightarrow> 'f measureMap \<Rightarrow> evalMap \<Rightarrow> error option \<times> 'f measureMap \<times> evalMap"
  ComputeAggEvalForCardinality ::
    "MeasureAggregator \<Rightarrow> sstMap \<Rightarrow> 'f measureMap \<Rightarrow> evalMap \<Rightarrow> error option \<times> 'f measureMap \<times> evalMap"
  ComputeAggEvalForCount ::
    "MeasureAggregator \<Rightarrow> sstMap \<Rightarrow> 'f measureMap \<Rightarrow> error option \<times> 'f measureMap"
  ComputeAggEvalForSum ::
    "MeasureAggregator \<Rightarrow> sstMap \<Rightarrow> 'f measureMap \<Rightarrow> error option \<times> 'f measureMap"
  ComputeAggEvalForAvg ::
    "MeasureAggregator \<Rightarrow> sstMap \<Rightarrow> 'f measureMap \<Rightarrow> evalMap \<Rightarrow> error option \<times> 'f measureMap \<times> evalMap"
  ComputeAggEvalForValues ::
    "MeasureAggregator \<Rightarrow> sstMap \<Rightarrow> 'f measureMap \<Rightarrow> string fset
      \<Rightarrow> error option \<times> 'f measureMap \<times> string fset"
  ComputeAggEvalForList ::
    "MeasureAggregator \<Rightarrow> sstMap \<Rightarrow> 'f measureMap \<Rightarrow> evalMap \<Rightarrow> error option \<times> 'f measureMap \<times> evalMap"
  ToJSON :: "SegStats option \<Rightarrow> error + 'j"
  Marshal :: "(string \<times> 'j) list \<Rightarrow> error + string"

section \<open>Construction\<close>

definition InitSearchResults ::
  "('b, 'f) blockresults \<Rightarrow> uint64 \<Rightarrow> QueryAggregators option \<Rightarrow> QueryType \<Rightarrow> uint64
    \<Rightarrow> error + ('b, 'f) SearchResults" where
  "InitSearchResults br sizeLimit' aggs qType qid' =
    (case InitBlockResults br sizeLimit' aggs qid' of
      Inl err \<Rightarrow> Inl err
    | Inr blockResults \<Rightarrow>
        Inr \<lparr> queryType = qType,
              qid = qid',
              sAggs = aggs,
              sizeLimit = sizeLimit',
              resultCount = 0,
              EarlyExit = False,
              BlockResults = Some blockResults,
              remoteInfo = Some \<lparr> remoteLogs = Map.empty, remoteColumns = {} \<rparr>,
              runningSegStat =
                (case aggs of
                  None \<Rightarrow> []
                | Some a \<Rightarrow>
                    (case MeasureOperations a of
                      None \<Rightarrow> []
                    | Some ms \<Rightarrow> replicate (length ms) None)),
              runningEvalStats = Map.empty,
              segStatsResults = None,
              convertedBuckets = None,
              allSSTS = Map.empty,
              AllErrors = [],
              SegKeyToEnc = Map.empty,
              SegEncToKey = Map.empty,
              MaxSegKeyEnc = 1,
              ColumnsOrder = Map.empty,
              statsAreFinal = False \<rparr>)"

definition InitSegmentStatsResults ::
  "('f, 'j) statsfuns \<Rightarrow> ('b, 'f) SearchResults \<Rightarrow> MeasureAggregator list \<Rightarrow> ('b, 'f) SearchResults" where
  "InitSegmentStatsResults st sr mOps =
    sr \<lparr> segStatsResults :=
      Some \<lparr> measureResults = Map.empty,
             measureFunctions = map (String_of st) mOps,
             groupByCols = [] \<rparr> \<rparr>"

definition ShouldContinueRRCSearch :: "('b, 'f) SearchResults \<Rightarrow> bool" where
  "ShouldContinueRRCSearch sr = (resultCount sr \<le> sizeLimit sr)"

section \<open>Raw records: local and remote results\<close>

definition addRawLog ::
  "('b, 'f) SearchResults \<Rightarrow> string \<Rightarrow> 'f rawLog \<Rightarrow> ('b, 'f) SearchResults option" where
  "addRawLog sr id' log =
    (case remoteInfo sr of
      None \<Rightarrow> None
    | Some ri \<Rightarrow> Some (sr \<lparr> remoteInfo := Some (ri \<lparr> remoteLogs := (remoteLogs ri)(id' \<mapsto> log) \<rparr>) \<rparr>))"

definition removeLog :: "('b, 'f) SearchResults \<Rightarrow> string \<Rightarrow> ('b, 'f) SearchResults option" where
  "removeLog sr id' =
    (if id' = [] then Some sr
     else
      (case remoteInfo sr of
        None \<Rightarrow> None
      | Some ri \<Rightarrow> Some (sr \<lparr> remoteInfo := Some (ri \<lparr> remoteLogs := (remoteLogs ri)(id' := None) \<rparr>) \<rparr>)))"

text \<open>The loop of \<^verbatim>\<open>AddBlockResults\<close> over \<^verbatim>\<open>blockRes.GetResults()\<close>.\<close>

fun addBlockRecords ::
  "('b, 'f) blockresults \<Rightarrow> 'f RecordResultContainer list \<Rightarrow> ('b, 'f) SearchResults
    \<Rightarrow> ('b, 'f) SearchResults option" where
  "addBlockRecords br [] sr = Some sr"
| "addBlockRecords br (rec # recs) sr =
    (case BlockResults sr of
      None \<Rightarrow> None
    | Some b \<Rightarrow>
        (case Add br b rec of
          ((added, removedID), b') \<Rightarrow>
            (case removeLog (sr \<lparr> BlockResults := Some b' \<rparr>) removedID of
              None \<Rightarrow> None
            | Some sr' \<Rightarrow> addBlockRecords br recs sr')))"

definition AddBlockResults ::
  "('b, 'f) blockresults \<Rightarrow> ('b, 'f) SearchResults \<Rightarrow> 'b \<Rightarrow> ('b, 'f) SearchResults option" where
  "AddBlockResults br sr blockRes =
    (case addBlockRecords br (GetResults br blockRes) sr of
      None \<Rightarrow> None
    | Some sr1 \<Rightarrow>
        (let sr2 = sr1 \<lparr> resultCount := resultCount sr1 + MatchedCount br blockRes \<rparr> in
          (case BlockResults sr2 of
            None \<Rightarrow> None
          | Some b \<Rightarrow> Some (sr2 \<lparr> BlockResults := Some (MergeBuckets br b blockRes) \<rparr>))))"

text \<open>The first loop of \<^verbatim>\<open>MergeRemoteRRCResults\<close>: the nil map is only dereferenced
  when there is a column to store.\<close>

definition addRemoteColumns ::
  "('b, 'f) SearchResults \<Rightarrow> string set \<Rightarrow> ('b, 'f) SearchResults option" where
  "addRemoteColumns sr allCols =
    (if allCols = {} then Some sr
     else
      (case remoteInfo sr of
        None \<Rightarrow> None
      | Some ri \<Rightarrow> Some (sr \<lparr> remoteInfo := Some (ri \<lparr> remoteColumns := remoteColumns ri \<union> allCols \<rparr>) \<rparr>)))"

text \<open>The second loop, over \<^verbatim>\<open>rrcs\<close> with its index; \<^verbatim>\<open>rawLogs[idx]\<close> is read only for a
  record that was added.\<close>

fun mergeRemoteRecords ::
  "('b, 'f) blockresults \<Rightarrow> nat \<Rightarrow> 'f RecordResultContainer list \<Rightarrow> 'f rawLog list
    \<Rightarrow> ('b, 'f) SearchResults \<Rightarrow> ('b, 'f) SearchResults option" where
  "mergeRemoteRecords br idx [] rawLogs sr = Some sr"
| "mergeRemoteRecords br idx (rrc # rrcs) rawLogs sr =
    (case BlockResults sr of
      None \<Rightarrow> None
    | Some b \<Rightarrow>
        (case Add br b rrc of
          ((addedRRC, removedID), b') \<Rightarrow>
            (case
              (if addedRRC then
                (if idx < length rawLogs
                 then addRawLog (sr \<lparr> BlockResults := Some b' \<rparr>) (RecordId rrc) (rawLogs ! idx)
                 else None)
               else Some (sr \<lparr> BlockResults := Some b' \<rparr>))
             of
              None \<Rightarrow> None
            | Some sr2 \<Rightarrow>
                (case removeLog sr2 removedID of
                  None \<Rightarrow> None
                | Some sr3 \<Rightarrow> mergeRemoteRecords br (Suc idx) rrcs rawLogs sr3))))"

definition MergeRemoteRRCResults ::
  "('b, 'f) blockresults \<Rightarrow> ('b, 'f) SearchResults \<Rightarrow> 'f RecordResultContainer list
    \<Rightarrow> GroupByBucketsJSON option \<Rightarrow> TimeBucketsJSON option \<Rightarrow> string set \<Rightarrow> 'f rawLog list
    \<Rightarrow> uint64 \<Rightarrow> bool \<Rightarrow> (error option \<times> ('b, 'f) SearchResults) option" where
  "MergeRemoteRRCResults br sr rrcs grpByBuckets timeBuckets allCols rawLogs remoteCount earlyExit =
    (case addRemoteColumns sr allCols of
      None \<Rightarrow> None
    | Some sr1 \<Rightarrow>
        (case mergeRemoteRecords br 0 rrcs rawLogs sr1 of
          None \<Rightarrow> None
        | Some sr2 \<Rightarrow>
            (let sr3 = (if earlyExit then sr2 \<lparr> EarlyExit := True \<rparr> else sr2) in
              (case BlockResults sr3 of
                None \<Rightarrow> None
              | Some b \<Rightarrow>
                  (case MergeRemoteBuckets br b grpByBuckets timeBuckets of
                    (Some err, b') \<Rightarrow> Some (Some err, sr3 \<lparr> BlockResults := Some b' \<rparr>)
                  | (None, b') \<Rightarrow>
                      Some (None, sr3 \<lparr> BlockResults := Some b',
                                         resultCount := resultCount sr3 + remoteCount \<rparr>))))))"

definition SetEarlyExit :: "('b, 'f) SearchResults \<Rightarrow> bool \<Rightarrow> ('b, 'f) SearchResults" where
  "SetEarlyExit sr exited = sr \<lparr> EarlyExit := exited \<rparr>"

section \<open>Segment keys and pending segment statistics\<close>

definition GetAddSegEnc :: "('b, 'f) SearchResults \<Rightarrow> string \<Rightarrow> uint16 \<times> ('b, 'f) SearchResults" where
  "GetAddSegEnc sr sk =
    (case SegKeyToEnc sr sk of
      Some retval \<Rightarrow> (retval, sr)
    | None \<Rightarrow>
        (MaxSegKeyEnc sr,
         sr \<lparr> SegEncToKey := (SegEncToKey sr)(MaxSegKeyEnc sr \<mapsto> sk),
              SegKeyToEnc := (SegKeyToEnc sr)(sk \<mapsto> MaxSegKeyEnc sr),
              MaxSegKeyEnc := MaxSegKeyEnc sr + 1 \<rparr>))"

definition AddSSTMap :: "('b, 'f) SearchResults \<Rightarrow> sstMap \<Rightarrow> uint16 \<Rightarrow> ('b, 'f) SearchResults" where
  "AddSSTMap sr sstMap' skEnc = sr \<lparr> allSSTS := (allSSTS sr)(skEnc \<mapsto> sstMap') \<rparr>"

text \<open>\<^verbatim>\<open>GetEncodedSegStats\<close> returns \<^verbatim>\<open>([]byte, error)\<close>: the pair of the payload and the
  error, each \<open>None\<close> for nil, and the state after the delete.\<close>

definition GetEncodedSegStats ::
  "('f, 'j) statsfuns \<Rightarrow> ('b, 'f) SearchResults \<Rightarrow> uint16
    \<Rightarrow> (string option \<times> error option) \<times> ('b, 'f) SearchResults" where
  "GetEncodedSegStats st sr segKeyEnc =
    (let retVal = allSSTS sr segKeyEnc;
         sr' = sr \<lparr> allSSTS := (allSSTS sr)(segKeyEnc := None) \<rparr>
     in
      (case retVal of
        None \<Rightarrow> ((None, None), sr')
      | Some m \<Rightarrow>
          (let allSegStatJson =
                 List.map_filter
                   (\<lambda>(k, v). case ToJSON st v of Inl err \<Rightarrow> None | Inr rawJson \<Rightarrow> Some (k, rawJson)) m
           in
            (case Marshal st allSegStatJson of
              Inl err \<Rightarrow> ((None, Some err), sr')
            | Inr jsonBytes \<Rightarrow> ((Some jsonBytes, None), sr')))))"

definition AddError :: "('b, 'f) SearchResults \<Rightarrow> error \<Rightarrow> ('b, 'f) SearchResults" where
  "AddError sr err = sr \<lparr> AllErrors := AllErrors sr @ [err] \<rparr>"

section \<open>Early exit\<close>

definition GetNumBuckets :: "('b, 'f) blockresults \<Rightarrow> ('b, 'f) SearchResults \<Rightarrow> int" where
  "GetNumBuckets br sr =
    (case BlockResults sr of
      None \<Rightarrow> 0
    | Some b \<Rightarrow>
        (case TimeAggregation_len br b of None \<Rightarrow> 0 | Some n \<Rightarrow> int n)
        + (case GroupByAggregation_len br b of None \<Rightarrow> 0 | Some n \<Rightarrow> int n))"

text \<open>The call \<^verbatim>\<open>sr.BlockResults.WillValueBeAdded(float64(ts))\<close>; the receiver may be nil.\<close>

definition willValBeAdded :: "('b, 'f) blockresults \<Rightarrow> ('b, 'f) SearchResults \<Rightarrow> uint64 \<Rightarrow> bool option" where
  "willValBeAdded br sr ts =
    (case BlockResults sr of
      None \<Rightarrow> None
    | Some b \<Rightarrow> Some (WillValueBeAdded br b (float64_of br ts)))"

definition ShouldSearchSegKey ::
  "('b, 'f) blockresults \<Rightarrow> ('b, 'f) SearchResults \<Rightarrow> TimeRange option \<Rightarrow> SearchNodeType
    \<Rightarrow> bool \<Rightarrow> bool \<Rightarrow> EarlyExitType option" where
  "ShouldSearchSegKey br sr tRange snt otherAggsPresent timeAggs =
    (if ShouldContinueRRCSearch sr then Some EetContSearch
     else if queryType sr = GroupByCmd then
      (case sAggs sr of
        None \<Rightarrow> None
      | Some a \<Rightarrow>
          (case GroupByRequest a of
            None \<Rightarrow> None
          | Some g \<Rightarrow>
              if GetNumBuckets br sr < BucketCount g then Some EetContSearch
              else Some EetEarlyExit))
     else if queryType sr \<noteq> RRCCmd then Some EetContSearch
     else
      (case
        (case sAggs sr of
          None \<Rightarrow> Some False
        | Some a \<Rightarrow>
            (case Sort a of
              None \<Rightarrow> Some False
            | Some so \<Rightarrow>
                (case tRange of
                  None \<Rightarrow> None
                | Some tr \<Rightarrow>
                    willValBeAdded br sr
                      (if Ascending so then StartEpochMs tr else EndEpochMs tr))))
       of
        None \<Rightarrow> None
      | Some True \<Rightarrow> Some EetContSearch
      | Some False \<Rightarrow>
          if snt = MatchAllQuery \<and> timeAggs \<and> \<not> otherAggsPresent then Some EetMatchAllAggs
          else if snt \<noteq> MatchAllQuery \<and> (timeAggs \<or> otherAggsPresent) then Some EetContSearch
          else
            (case sAggs sr of
              None \<Rightarrow> Some EetEarlyExit
            | Some a \<Rightarrow>
                if \<not> aggs_EarlyExit a then Some EetContSearch
                else if TimeHistogram a \<noteq> None then Some EetContSearch
                else if GroupByRequest a \<noteq> None then Some EetContSearch
                else Some EetEarlyExit)))"

definition ShouldSearchRange ::
  "('b, 'f) blockresults \<Rightarrow> ('b, 'f) SearchResults \<Rightarrow> uint64 \<Rightarrow> uint64 \<Rightarrow> bool option" where
  "ShouldSearchRange br sr lowTs highTs =
    (if queryType sr \<noteq> RRCCmd then Some True
     else if ShouldContinueRRCSearch sr then Some True
     else
      (case sAggs sr of
        None \<Rightarrow> Some False
      | Some a \<Rightarrow>
          if \<not> aggs_EarlyExit a then Some True
          else if TimeHistogram a \<noteq> None then Some True
          else
            (case Sort a of
              Some so \<Rightarrow> willValBeAdded br sr (if Ascending so then lowTs else highTs)
            | None \<Rightarrow> Some False)))"

section \<open>Segment statistics\<close>

text \<open>
  One iteration of the loop of \<^verbatim>\<open>UpdateSegmentStats\<close> either goes on to the next
  measure (\<^verbatim>\<open>continue\<close>, or the end of the loop body) or leaves the function with
  the value it returns. The state travels with both: what the iteration wrote
  stays written when the function returns an error.
\<close>

datatype 'a step = Continue 'a | Return "error option" 'a

text \<open>An eval branch whose function takes \<^verbatim>\<open>sr.segStatsResults.measureResults\<close>.\<close>

definition evalResults ::
  "('b, 'f) SearchResults \<Rightarrow> ('f measureMap \<Rightarrow> error option \<times> 'f measureMap)
    \<Rightarrow> ('b, 'f) SearchResults step option" where
  "evalResults sr f =
    (case segStatsResults sr of
      None \<Rightarrow> None
    | Some r \<Rightarrow>
        (case f (measureResults r) of
          (err, mr') \<Rightarrow>
            (let sr' = sr \<lparr> segStatsResults := Some (r \<lparr> measureResults := mr' \<rparr>) \<rparr> in
              (case err of
                Some e \<Rightarrow> Some (Return (Some (ErrUpdateSegmentStats e)) sr')
              | None \<Rightarrow> Some (Continue sr')))))"

text \<open>An eval branch whose function also takes \<^verbatim>\<open>sr.runningEvalStats\<close>.\<close>

definition evalRunning ::
  "('b, 'f) SearchResults \<Rightarrow> ('f measureMap \<Rightarrow> evalMap \<Rightarrow> error option \<times> 'f measureMap \<times> evalMap)
    \<Rightarrow> ('b, 'f) SearchResults step option" where
  "evalRunning sr f =
    (case segStatsResults sr of
      None \<Rightarrow> None
    | Some r \<Rightarrow>
        (case f (measureResults r) (runningEvalStats sr) of
          (err, mr', ev') \<Rightarrow>
            (let sr' = sr \<lparr> segStatsResults := Some (r \<lparr> measureResults := mr' \<rparr>),
                            runningEvalStats := ev' \<rparr> in
              (case err of
                Some e \<Rightarrow> Some (Return (Some (ErrUpdateSegmentStats e)) sr')
              | None \<Rightarrow> Some (Continue sr')))))"

text \<open>The store \<^verbatim>\<open>sr.segStatsResults.measureResults[name] = v\<close>.\<close>

definition setMeasureResult ::
  "('b, 'f) SearchResults \<Rightarrow> string \<Rightarrow> 'f CValueEnclosure \<Rightarrow> ('b, 'f) SearchResults option" where
  "setMeasureResult sr name v =
    (case segStatsResults sr of
      None \<Rightarrow> None
    | Some r \<Rightarrow> Some (sr \<lparr> segStatsResults := Some (r \<lparr> measureResults := (measureResults r)(name \<mapsto> v) \<rparr>) \<rparr>))"

text \<open>
  A plain branch for Min, Max, Range, Cardinality, Count, Sum and Avg, with the code
  after the \<^verbatim>\<open>switch\<close>: the call \<^verbatim>\<open>segread.GetSeg...(sr.runningSegStat[idx], currSst)\<close>,
  the error check, the first-segment initialisation of the running slot, the
  conversion and the store. A nil running pointer stays nil through the call.
\<close>

definition plainStat ::
  "('f, 'j) statsfuns \<Rightarrow> ('b, 'f) SearchResults \<Rightarrow> nat \<Rightarrow> MeasureAggregator \<Rightarrow> SegStats option \<Rightarrow> getSeg
    \<Rightarrow> ('b, 'f) SearchResults step option" where
  "plainStat st sr idx measureAgg currSst getSeg' =
    (if length (runningSegStat sr) \<le> idx then None
     else
      (case getSeg' (runningSegStat sr ! idx) currSst of
        ((sstResult, err), running') \<Rightarrow>
          (let sr1 = sr \<lparr> runningSegStat := (runningSegStat sr)
                        [idx := (case runningSegStat sr ! idx of None \<Rightarrow> None | Some r \<Rightarrow> running')] \<rparr>
           in
            (case err of
              Some e \<Rightarrow> Some (Return (Some e) sr1)
            | None \<Rightarrow>
                (let sr2 =
                      (if runningSegStat sr1 ! idx = None
                       then sr1 \<lparr> runningSegStat := (runningSegStat sr1)[idx := currSst] \<rparr>
                       else sr1)
                 in
                  (case ToCValueEnclosure st sstResult of
                    Inl e \<Rightarrow> Some (Return (Some e) sr2)
                  | Inr enclosure \<Rightarrow>
                      (case setMeasureResult sr2 (String_of st measureAgg) enclosure of
                        None \<Rightarrow> None
                      | Some sr3 \<Rightarrow> Some (Continue sr3))))))))"

text \<open>The plain branch for List.\<close>

definition plainList ::
  "('f, 'j) statsfuns \<Rightarrow> ('b, 'f) SearchResults \<Rightarrow> nat \<Rightarrow> MeasureAggregator \<Rightarrow> SegStats option
    \<Rightarrow> ('b, 'f) SearchResults step option" where
  "plainList st sr idx measureAgg currSst =
    (if length (runningSegStat sr) \<le> idx then None
     else
      (case GetSegList st (runningSegStat sr ! idx) currSst of
        ((res, err), running') \<Rightarrow>
          (let sr1 = sr \<lparr> runningSegStat := (runningSegStat sr)
                        [idx := (case runningSegStat sr ! idx of None \<Rightarrow> None | Some r \<Rightarrow> running')] \<rparr>
           in
            (case err of
              Some e \<Rightarrow> Some (Return (Some e) sr1)
            | None \<Rightarrow>
                (case res of
                  None \<Rightarrow> None
                | Some v \<Rightarrow>
                    (case setMeasureResult sr1 (String_of st measureAgg) v of
                      None \<Rightarrow> None
                    | Some sr2 \<Rightarrow>
                        Some (Continue
                          (if runningSegStat sr2 ! idx = None
                           then sr2 \<lparr> runningSegStat := (runningSegStat sr2)[idx := currSst] \<rparr>
                           else sr2))))))))"

text \<open>The strings a segment's statistics hold: the guard \<^verbatim>\<open>currSst != nil &&
  currSst.StringStats != nil && currSst.StringStats.StrSet != nil\<close> and the set.\<close>

definition currStrSet :: "SegStats option \<Rightarrow> string fset" where
  "currStrSet currSst =
    (case currSst of
      None \<Rightarrow> {||}
    | Some c \<Rightarrow>
        (case StringStats c of
          None \<Rightarrow> {||}
        | Some ss \<Rightarrow> (case StrSet ss of None \<Rightarrow> {||} | Some x \<Rightarrow> x)))"

text \<open>
  The branch for Values. \<open>strSet\<close> is the set found under the measure's name in
  \<^verbatim>\<open>runningEvalStats\<close>, or a new empty one that is stored there first. In the source
  it is one map object, shared with \<^verbatim>\<open>runningEvalStats\<close> and, after the merge, with
  the running slot; here each holder gets the set's value.
\<close>

definition valuesStat ::
  "('f, 'j) statsfuns \<Rightarrow> sstMap \<Rightarrow> ('b, 'f) SearchResults \<Rightarrow> nat \<Rightarrow> MeasureAggregator \<Rightarrow> SegStats option
    \<Rightarrow> ('b, 'f) SearchResults step option" where
  "valuesStat st sstMap' sr idx measureAgg currSst =
    (let name = String_of st measureAgg in
      (case
        (case runningEvalStats sr name of
          None \<Rightarrow> Inr ({||}, sr \<lparr> runningEvalStats := (runningEvalStats sr)(name \<mapsto> StrSetStat {||}) \<rparr>)
        | Some (StrSetStat x) \<Rightarrow> Inr (x, sr)
        | Some (OtherStat y) \<Rightarrow> Inl (ErrStrSetConversion name))
       of
        Inl e \<Rightarrow> Some (Return (Some e) sr)
      | Inr (strSet, sr1) \<Rightarrow>
          (case ValueColRequest measureAgg of
            Some v \<Rightarrow>
              (case segStatsResults sr1 of
                None \<Rightarrow> None
              | Some r \<Rightarrow>
                  (case ComputeAggEvalForValues st measureAgg sstMap' (measureResults r) strSet of
                    (err, mr', strSet') \<Rightarrow>
                      (let sr2 = sr1 \<lparr> segStatsResults := Some (r \<lparr> measureResults := mr' \<rparr>),
                                       runningEvalStats :=
                                         (runningEvalStats sr1)(name \<mapsto> StrSetStat strSet') \<rparr>
                       in
                        (case err of
                          Some e \<Rightarrow> Some (Return (Some (ErrUpdateSegmentStats e)) sr2)
                        | None \<Rightarrow> Some (Continue sr2)))))
          | None \<Rightarrow>
              (let strSet1 = strSet |\<union>| currStrSet currSst in
                (if length (runningSegStat sr1) \<le> idx then None
                 else
                  (case
                    (case runningSegStat sr1 ! idx of
                      None \<Rightarrow> Some (strSet1, sr1)
                    | Some run \<Rightarrow>
                        (case StringStats run of
                          None \<Rightarrow> None
                        | Some rss \<Rightarrow>
                            (let strSet2 = strSet1 |\<union>| (case StrSet rss of None \<Rightarrow> {||} | Some x \<Rightarrow> x)
                             in
                              Some (strSet2,
                                sr1 \<lparr> runningSegStat := (runningSegStat sr1)
                                  [idx := Some (run \<lparr> StringStats := Some (rss \<lparr> StrSet := Some strSet2 \<rparr>) \<rparr>)] \<rparr>))))
                   of
                    None \<Rightarrow> None
                  | Some (strSet3, sr2) \<Rightarrow>
                      (case
                        setMeasureResult
                          (sr2 \<lparr> runningEvalStats := (runningEvalStats sr2)(name \<mapsto> StrSetStat strSet3) \<rparr>)
                          name
                          \<lparr> Dtype = SS_DT_STRING_SLICE,
                            CVal = VStringSlice (sorted_list_of_fset strSet3) \<rparr>
                       of
                        None \<Rightarrow> None
                      | Some sr3 \<Rightarrow> Some (Continue sr3))))))))"

text \<open>
  The loop body. \<^verbatim>\<open>Count\<close> over the column \<^verbatim>\<open>*\<close> takes the first key a \<^verbatim>\<open>range\<close> over
  \<^verbatim>\<open>sstMap\<close> yields. In the \<^verbatim>\<open>default\<close> branch the source returns the variable
  \<^verbatim>\<open>err\<close> declared by \<^verbatim>\<open>var err error\<close> just before the \<^verbatim>\<open>switch\<close>, which nothing has
  assigned: the returned value is nil.
\<close>

definition updateMeasure ::
  "('f, 'j) statsfuns \<Rightarrow> sstMap \<Rightarrow> ('b, 'f) SearchResults \<Rightarrow> nat \<Rightarrow> MeasureAggregator
    \<Rightarrow> ('b, 'f) SearchResults step option" where
  "updateMeasure st sstMap' sr idx measureAgg =
    (if length sstMap' = 0 then Some (Continue sr)
     else
      (let aggOp = MeasureFunc measureAgg;
           aggCol =
            (if aggOp = Count \<and> MeasureCol measureAgg = ''*'' then fst (hd sstMap')
             else MeasureCol measureAgg);
           found = map_of sstMap' aggCol;
           currSst = (case found of None \<Rightarrow> None | Some p \<Rightarrow> p);
           isEval = (ValueColRequest measureAgg \<noteq> None)
       in
        (if found = None \<and> \<not> isEval then Some (Continue sr)
         else
          (case aggOp of
            Min_fn \<Rightarrow>
              if isEval
              then evalResults sr (\<lambda>mr. ComputeAggEvalForMinOrMax st measureAgg sstMap' mr True)
              else plainStat st sr idx measureAgg currSst (GetSegMin st)
          | Max_fn \<Rightarrow>
              if isEval
              then evalResults sr (\<lambda>mr. ComputeAggEvalForMinOrMax st measureAgg sstMap' mr False)
              else plainStat st sr idx measureAgg currSst (GetSegMax st)
          | Range \<Rightarrow>
              if isEval
              then evalRunning sr (ComputeAggEvalForRange st measureAgg sstMap')
              else plainStat st sr idx measureAgg currSst (GetSegRange st)
          | Cardinality \<Rightarrow>
              if isEval
              then evalRunning sr (ComputeAggEvalForCardinality st measureAgg sstMap')
              else plainStat st sr idx measureAgg currSst (GetSegCardinality st)
          | Count \<Rightarrow>
              if isEval
              then evalResults sr (ComputeAggEvalForCount st measureAgg sstMap')
              else plainStat st sr idx measureAgg currSst (GetSegCount st)
          | Sum \<Rightarrow>
              if isEval
              then evalResults sr (ComputeAggEvalForSum st measureAgg sstMap')
              else plainStat st sr idx measureAgg currSst (GetSegSum st)
          | Avg \<Rightarrow>
              if isEval
              then evalRunning sr (ComputeAggEvalForAvg st measureAgg sstMap')
              else plainStat st sr idx measureAgg currSst (GetSegAvg st)
          | Values \<Rightarrow> valuesStat st sstMap' sr idx measureAgg currSst
          | List_fn \<Rightarrow>
              if isEval
              then evalRunning sr (ComputeAggEvalForList st measureAgg sstMap')
              else plainList st sr idx measureAgg currSst
          | OtherFn n \<Rightarrow> Some (Return None sr)))))"

text \<open>The loop \<^verbatim>\<open>for idx, measureAgg := range measureOps\<close> and the final \<^verbatim>\<open>return nil\<close>.\<close>

fun updateMeasures ::
  "('f, 'j) statsfuns \<Rightarrow> sstMap \<Rightarrow> nat \<Rightarrow> MeasureAggregator list \<Rightarrow> ('b, 'f) SearchResults
    \<Rightarrow> (error option \<times> ('b, 'f) SearchResults) option" where
  "updateMeasures st sstMap' idx [] sr = Some (None, sr)"
| "updateMeasures st sstMap' idx (measureAgg # rest) sr =
    (case updateMeasure st sstMap' sr idx measureAgg of
      None \<Rightarrow> None
    | Some (Return err sr') \<Rightarrow> Some (err, sr')
    | Some (Continue sr') \<Rightarrow> updateMeasures st sstMap' (Suc idx) rest sr')"

definition UpdateSegmentStats ::
  "('f, 'j) statsfuns \<Rightarrow> ('b, 'f) SearchResults \<Rightarrow> sstMap \<Rightarrow> MeasureAggregator list
    \<Rightarrow> (error option \<times> ('b, 'f) SearchResults) option" where
  "UpdateSegmentStats st sr sstMap' measureOps = updateMeasures st sstMap' 0 measureOps sr"

text \<open>
  \<^verbatim>\<open>AddSegmentStats\<close>: the statistics a peer sent are converted entry by entry, the
  first error of \<^verbatim>\<open>ToStats\<close> is returned, and the converted map goes to
  \<^verbatim>\<open>UpdateSegmentStats\<close> with the measure operations of the query. \<open>toStats\<close> is
  \<^verbatim>\<open>SegStatsJSON.ToStats\<close>; the argument is the map \<^verbatim>\<open>allJSON.AllSegStats\<close> in the order
  the \<^verbatim>\<open>range\<close> visits it, and the converted map keeps that order.
\<close>

fun toStatsAll :: "('j \<Rightarrow> error + SegStats option) \<Rightarrow> (string \<times> 'j) list \<Rightarrow> error + sstMap" where
  "toStatsAll toStats [] = Inr []"
| "toStatsAll toStats ((k, v) # rest) =
    (case toStats v of
      Inl err \<Rightarrow> Inl err
    | Inr rawStats \<Rightarrow>
        (case toStatsAll toStats rest of
          Inl err \<Rightarrow> Inl err
        | Inr sstMap' \<Rightarrow> Inr ((k, rawStats) # sstMap')))"

definition AddSegmentStats ::
  "('j \<Rightarrow> error + SegStats option) \<Rightarrow> ('f, 'j) statsfuns \<Rightarrow> ('b, 'f) SearchResults
    \<Rightarrow> (string \<times> 'j) list \<Rightarrow> (error option \<times> ('b, 'f) SearchResults) option" where
  "AddSegmentStats toStats st sr allSegStats =
    (case toStatsAll toStats allSegStats of
      Inl err \<Rightarrow> Some (Some err, sr)
    | Inr sstMap' \<Rightarrow>
        (case sAggs sr of
          None \<Rightarrow> None
        | Some a \<Rightarrow>
            UpdateSegmentStats st sr sstMap'
              (case MeasureOperations a of None \<Rightarrow> [] | Some ms \<Rightarrow> ms)))"

section \<open>Final statistics\<close>

text \<open>
  The loop of \<^verbatim>\<open>SetFinalStatsFromNodeResult\<close> over the measure functions. \<open>mv\<close> is
  \<^verbatim>\<open>nodeResult.MeasureResults[0].MeasureVal\<close>; \<open>parseFloat\<close> and \<open>parseInt\<close> are
  \<^verbatim>\<open>strconv.ParseFloat(s, 64)\<close> and \<^verbatim>\<open>strconv.ParseInt(s, 10, 64)\<close>, \<open>None\<close> when they
  return an error. The result is the error, if any, and the map as far as it was
  filled.
\<close>

fun setFinalMeasures ::
  "(string \<Rightarrow> 'f option) \<Rightarrow> (string \<Rightarrow> 64 word option) \<Rightarrow> (string \<rightharpoonup> 'f GoValue) \<Rightarrow> string list
    \<Rightarrow> 'f measureMap \<Rightarrow> error option \<times> 'f measureMap" where
  "setFinalMeasures parseFloat parseInt mv [] mr = (None, mr)"
| "setFinalMeasures parseFloat parseInt mv (measureFunc # rest) mr =
    (case mv measureFunc of
      None \<Rightarrow> (Some (ErrMeasureFuncNotFound measureFunc), mr)
    | Some (VString s) \<Rightarrow>
        (let valueStr = filter (\<lambda>c. c \<noteq> CHR '','') s;
             valueAsEnclosure =
              (case parseFloat valueStr of
                Some valueFloat \<Rightarrow> \<lparr> Dtype = SS_DT_FLOAT, CVal = VFloat64 valueFloat \<rparr>
              | None \<Rightarrow>
                  (case parseInt valueStr of
                    Some valueInt \<Rightarrow> \<lparr> Dtype = SS_DT_SIGNED_NUM, CVal = VInt64 valueInt \<rparr>
                  | None \<Rightarrow> \<lparr> Dtype = SS_DT_STRING, CVal = VString valueStr \<rparr>))
         in setFinalMeasures parseFloat parseInt mv rest (mr(measureFunc \<mapsto> valueAsEnclosure)))
    | Some other \<Rightarrow> (Some ErrUnexpectedType, mr))"

definition SetFinalStatsFromNodeResult ::
  "(string \<Rightarrow> 'f option) \<Rightarrow> (string \<Rightarrow> 64 word option) \<Rightarrow> ('b, 'f) SearchResults \<Rightarrow> 'f NodeResult
    \<Rightarrow> (error option \<times> ('b, 'f) SearchResults) option" where
  "SetFinalStatsFromNodeResult parseFloat parseInt sr nodeResult =
    (if statsAreFinal sr then Some (Some ErrStatsAlreadyFinal, sr)
     else
      (let sr1 = sr \<lparr> ColumnsOrder := nr_ColumnsOrder nodeResult \<rparr> in
        (if length (nr_GroupByCols nodeResult) > 0
         then Some (None, sr1 \<lparr> convertedBuckets := Histogram nodeResult, statsAreFinal := True \<rparr>)
         else if length (MeasureResults nodeResult) \<noteq> 1
         then Some (Some ErrUnexpectedMeasureResultsLength, sr1)
         else
          (case segStatsResults sr1 of
            None \<Rightarrow> None
          | Some r \<Rightarrow>
              (case setFinalMeasures parseFloat parseInt
                      (MeasureVal (MeasureResults nodeResult ! 0))
                      (MeasureFunctions nodeResult) Map.empty of
                (Some err, mr) \<Rightarrow>
                  Some (Some err,
                    sr1 \<lparr> segStatsResults :=
                      Some \<lparr> measureResults = mr,
                             measureFunctions = MeasureFunctions nodeResult,
                             groupByCols = [] \<rparr> \<rparr>)
              | (None, mr) \<Rightarrow>
                  Some (None,
                    sr1 \<lparr> segStatsResults :=
                            Some \<lparr> measureResults = mr,
                                   measureFunctions = MeasureFunctions nodeResult,
                                   groupByCols = [] \<rparr>,
                          statsAreFinal := True \<rparr>))))))"

section \<open>Bucket rows\<close>

text \<open>
  \<^verbatim>\<open>CreateMeasResultsFromAggResults\<close>. \<open>getValue\<close> is \<^verbatim>\<open>CValueEnclosure.GetValue\<close> and
  \<open>sprintf\<close> is \<^verbatim>\<open>fmt.Sprintf("%+v", v)\<close>. The accumulator is the triple of
  \<^verbatim>\<open>bucketHolderArr\<close>, \<^verbatim>\<open>added\<close> and the keys of \<^verbatim>\<open>internalMFuncs\<close> in the order they
  were first stored.
\<close>

definition measureVals ::
  "('f CValueEnclosure \<Rightarrow> error + 'f GoValue) \<Rightarrow> (string \<times> 'f CValueEnclosure) list
    \<Rightarrow> (string \<times> 'f GoValue) list" where
  "measureVals getValue statRes =
    List.map_filter
      (\<lambda>(mName, mVal). case getValue mVal of Inl err \<Rightarrow> None | Inr rawVal \<Rightarrow> Some (mName, rawVal))
      statRes"

text \<open>The type switch on the bucket key: the group-by values of the row and the
  number \<^verbatim>\<open>added\<close> grows by.\<close>

definition groupByValuesOf :: "('f GoValue \<Rightarrow> string) \<Rightarrow> 'f GoValue \<Rightarrow> string list \<times> int" where
  "groupByValuesOf sprintf bKey =
    (case bKey of
      VFloat64 x \<Rightarrow> ([sprintf bKey], 1)
    | VUint64 x \<Rightarrow> ([sprintf bKey], 1)
    | VInt64 x \<Rightarrow> ([sprintf bKey], 1)
    | VStringSlice bks \<Rightarrow> (bks, int (length bks))
    | VString x \<Rightarrow> ([x], 1)
    | VSlice bks \<Rightarrow> (map sprintf bks, int (length bks))
    | VNil \<Rightarrow> ([], 0)
    | VOther \<Rightarrow> ([], 0))"

text \<open>The inner loop \<^verbatim>\<open>for _, aggVal := range agg.Results\<close>; \<^verbatim>\<open>break\<close> ends it.\<close>

fun convertResults ::
  "('f CValueEnclosure \<Rightarrow> error + 'f GoValue) \<Rightarrow> ('f GoValue \<Rightarrow> string) \<Rightarrow> int
    \<Rightarrow> 'f BucketResult list \<Rightarrow> 'f BucketHolder list \<times> int \<times> string list
    \<Rightarrow> 'f BucketHolder list \<times> int \<times> string list" where
  "convertResults getValue sprintf limit [] acc = acc"
| "convertResults getValue sprintf limit (aggVal # rest) (bucketHolderArr, added, internalMFuncs) =
    (let vals = measureVals getValue (StatRes aggVal);
         internalMFuncs' = internalMFuncs @ map fst vals
     in
      (if added \<ge> limit then (bucketHolderArr, added, internalMFuncs')
       else
        (case groupByValuesOf sprintf (BucketKey aggVal) of
          (groupByValues, n) \<Rightarrow>
            convertResults getValue sprintf limit rest
              (bucketHolderArr @ [\<lparr> GroupByValues = groupByValues, MeasureVal = map_of vals \<rparr>],
               added + n,
               internalMFuncs'))))"

text \<open>The outer loop over the map \<^verbatim>\<open>aggRes\<close>, in the order the \<^verbatim>\<open>range\<close> visits it.\<close>

fun convertAggs ::
  "('f CValueEnclosure \<Rightarrow> error + 'f GoValue) \<Rightarrow> ('f GoValue \<Rightarrow> string) \<Rightarrow> int
    \<Rightarrow> (string \<times> 'f AggregationResult) list \<Rightarrow> 'f BucketHolder list \<times> int \<times> string list
    \<Rightarrow> 'f BucketHolder list \<times> int \<times> string list" where
  "convertAggs getValue sprintf limit [] acc = acc"
| "convertAggs getValue sprintf limit ((name, agg) # rest) acc =
    convertAggs getValue sprintf limit rest (convertResults getValue sprintf limit (Results agg) acc)"

definition CreateMeasResultsFromAggResults ::
  "('f CValueEnclosure \<Rightarrow> error + 'f GoValue) \<Rightarrow> ('f GoValue \<Rightarrow> string) \<Rightarrow> int
    \<Rightarrow> (string \<times> 'f AggregationResult) list \<Rightarrow> 'f BucketHolder list \<times> string list \<times> int" where
  "CreateMeasResultsFromAggResults getValue sprintf limit aggRes =
    (case convertAggs getValue sprintf limit aggRes ([], 0, []) of
      (bucketHolderArr, added, internalMFuncs) \<Rightarrow> (bucketHolderArr, remdups internalMFuncs, added))"

section \<open>Handing out the results\<close>

text \<open>
  The functions of other packages that the methods of this section and
  \<^verbatim>\<open>AddSegmentStats\<close> call: \<^verbatim>\<open>SegStatsJSON.ToStats\<close>, the methods \<^verbatim>\<open>GetTimeBuckets\<close> and
  \<^verbatim>\<open>GetGroupByBuckets\<close> of \<^verbatim>\<open>BlockResults\<close>, \<^verbatim>\<open>humanize.CommafWithDigits\<close> and
  \<^verbatim>\<open>humanize.Comma\<close>, \<^verbatim>\<open>CValueEnclosure.GetString\<close> and \<^verbatim>\<open>GetValue\<close>,
  \<^verbatim>\<open>fmt.Sprintf("%+v", v)\<close>, and \<^verbatim>\<open>strconv.ParseFloat(s, 64)\<close> and
  \<^verbatim>\<open>strconv.ParseInt(s, 10, 64)\<close> (\<open>None\<close> when they return an error).
\<close>

record ('b, 'f, 'j) resultfuns =
  ToStats :: "'j \<Rightarrow> error + SegStats option"
  GetTimeBuckets :: "'b \<Rightarrow> 'f AggregationResult"
  GetGroupByBuckets :: "'b \<Rightarrow> 'f AggregationResult"
  CommafWithDigits :: "'f \<Rightarrow> int \<Rightarrow> string"
  Comma :: "64 word \<Rightarrow> string"
  GetString :: "'f CValueEnclosure \<Rightarrow> error + string"
  GetValue :: "'f CValueEnclosure \<Rightarrow> error + 'f GoValue"
  Sprintf :: "'f GoValue \<Rightarrow> string"
  ParseFloat :: "string \<Rightarrow> 'f option"
  ParseInt :: "string \<Rightarrow> 64 word option"

definition EMPTY_GROUPBY_KEY :: string where
  "EMPTY_GROUPBY_KEY = ''*''"

text \<open>
  \<^verbatim>\<open>loadBucketsInternal\<close>: nothing changes once the statistics are final. Otherwise a
  new map takes the time buckets under the name of the time histogram and the
  group-by buckets under the name of the group-by request, the second store
  replacing the first when the names are equal. \<^verbatim>\<open>sr.BlockResults\<close>, \<^verbatim>\<open>sr.sAggs\<close>,
  \<^verbatim>\<open>TimeHistogram\<close> and \<^verbatim>\<open>GroupByRequest\<close> are dereferenced without a test.
\<close>

definition loadBucketsInternal ::
  "('b, 'f, 'j) resultfuns \<Rightarrow> ('b, 'f) blockresults \<Rightarrow> ('b, 'f) SearchResults
    \<Rightarrow> ('b, 'f) SearchResults option" where
  "loadBucketsInternal fs br sr =
    (if statsAreFinal sr then Some sr
     else
      (case BlockResults sr of
        None \<Rightarrow> None
      | Some b \<Rightarrow>
          (case
            (if TimeAggregation_len br b \<noteq> None then
              (case sAggs sr of
                None \<Rightarrow> None
              | Some a \<Rightarrow>
                  (case TimeHistogram a of
                    None \<Rightarrow> None
                  | Some th \<Rightarrow> Some [(th_AggName th, GetTimeBuckets fs b)]))
             else Some [])
           of
            None \<Rightarrow> None
          | Some retVal1 \<Rightarrow>
              (case
                (if GroupByAggregation_len br b \<noteq> None then
                  (case sAggs sr of
                    None \<Rightarrow> None
                  | Some a \<Rightarrow>
                      (case GroupByRequest a of
                        None \<Rightarrow> None
                      | Some g \<Rightarrow>
                          Some (filter (\<lambda>(name, res). name \<noteq> gb_AggName g) retVal1
                                @ [(gb_AggName g, GetGroupByBuckets fs b)])))
                 else Some retVal1)
               of
                None \<Rightarrow> None
              | Some retVal \<Rightarrow> Some (sr \<lparr> convertedBuckets := Some retVal \<rparr>)))))"

definition GetBucketResults ::
  "('b, 'f, 'j) resultfuns \<Rightarrow> ('b, 'f) blockresults \<Rightarrow> ('b, 'f) SearchResults
    \<Rightarrow> ((string \<times> 'f AggregationResult) list option \<times> ('b, 'f) SearchResults) option" where
  "GetBucketResults fs br sr =
    (case (if \<not> statsAreFinal sr then loadBucketsInternal fs br sr else Some sr) of
      None \<Rightarrow> None
    | Some sr' \<Rightarrow> Some (convertedBuckets sr', sr'))"

text \<open>
  \<^verbatim>\<open>GetGroupyByBuckets\<close> returns the rows, the names of the measure functions, the
  group-by columns, the column order and the counter \<^verbatim>\<open>added\<close>; a nil slice is the
  empty list. A \<^verbatim>\<open>range\<close> over the nil map \<^verbatim>\<open>convertedBuckets\<close> visits nothing.
\<close>

definition GetGroupyByBuckets ::
  "('b, 'f, 'j) resultfuns \<Rightarrow> ('b, 'f) blockresults \<Rightarrow> ('b, 'f) SearchResults \<Rightarrow> int
    \<Rightarrow> (('f BucketHolder list \<times> string list \<times> string list \<times> (string \<rightharpoonup> int) \<times> int)
        \<times> ('b, 'f) SearchResults) option" where
  "GetGroupyByBuckets fs br sr limit =
    (case
      (if convertedBuckets sr \<noteq> None \<and> \<not> statsAreFinal sr then loadBucketsInternal fs br sr
       else Some sr)
     of
      None \<Rightarrow> None
    | Some sr' \<Rightarrow>
        (case CreateMeasResultsFromAggResults (GetValue fs) (Sprintf fs) limit
                (case convertedBuckets sr' of None \<Rightarrow> [] | Some aggRes \<Rightarrow> aggRes) of
          (bucketHolderArr, retMFuns, added) \<Rightarrow>
            (case sAggs sr' of
              None \<Rightarrow> Some ((bucketHolderArr, retMFuns, [], Map.empty, added), sr')
            | Some a \<Rightarrow>
                (case GroupByRequest a of
                  None \<Rightarrow> Some ((bucketHolderArr, retMFuns, [], Map.empty, added), sr')
                | Some g \<Rightarrow>
                    Some ((bucketHolderArr, retMFuns, GroupByColumns g, ColumnsOrder sr', added),
                          sr')))))"

text \<open>
  The \<^verbatim>\<open>switch aggVal.Dtype\<close> of \<^verbatim>\<open>GetSegmentStatsResults\<close> for one entry of
  \<^verbatim>\<open>measureResults\<close>: the value stored in the row, \<open>Some None\<close> when the type has no
  case, and \<open>None\<close> when the type assertion \<^verbatim>\<open>aggVal.CVal.(float64)\<close> or
  \<^verbatim>\<open>aggVal.CVal.(int64)\<close> panics.
\<close>

definition statMeasureVal ::
  "('b, 'f, 'j) resultfuns \<Rightarrow> 'f CValueEnclosure \<Rightarrow> 'f GoValue option option" where
  "statMeasureVal fs aggVal =
    (case Dtype aggVal of
      SS_DT_FLOAT \<Rightarrow>
        (case CVal aggVal of
          VFloat64 x \<Rightarrow> Some (Some (VString (CommafWithDigits fs x 3)))
        | other \<Rightarrow> None)
    | SS_DT_SIGNED_NUM \<Rightarrow>
        (case CVal aggVal of
          VInt64 x \<Rightarrow> Some (Some (VString (Comma fs x)))
        | other \<Rightarrow> None)
    | SS_DT_STRING \<Rightarrow> Some (Some (CVal aggVal))
    | SS_DT_STRING_SLICE \<Rightarrow>
        (case GetString fs aggVal of
          Inl err \<Rightarrow> Some (Some (VString []))
        | Inr strVal \<Rightarrow> Some (Some (VString strVal)))
    | SS_DT_OTHER \<Rightarrow> Some None)"

text \<open>
  \<^verbatim>\<open>GetSegmentStatsResults\<close> returns the one row, the names of the measure functions,
  the group-by columns, nil, and the number of entries of \<^verbatim>\<open>measureResults\<close>. It
  deletes the pending statistics of the segment encoding unless \<^verbatim>\<open>segStatsResults\<close> is
  nil.
\<close>

definition GetSegmentStatsResults ::
  "('b, 'f, 'j) resultfuns \<Rightarrow> ('b, 'f) SearchResults \<Rightarrow> uint16
    \<Rightarrow> (('f BucketHolder list \<times> string list \<times> string list \<times> string list \<times> int)
        \<times> ('b, 'f) SearchResults) option" where
  "GetSegmentStatsResults fs sr skEnc =
    (case segStatsResults sr of
      None \<Rightarrow> Some (([], [], [], [], 0), sr)
    | Some r \<Rightarrow>
        (if \<exists>mfName aggVal. measureResults r mfName = Some aggVal \<and> statMeasureVal fs aggVal = None
         then None
         else
          Some (([\<lparr> GroupByValues = [EMPTY_GROUPBY_KEY],
                     MeasureVal =
                       (\<lambda>mfName.
                         (case measureResults r mfName of
                           None \<Rightarrow> None
                         | Some aggVal \<Rightarrow>
                             (case statMeasureVal fs aggVal of None \<Rightarrow> None | Some v \<Rightarrow> v))) \<rparr>],
                 measureFunctions r, groupByCols r, [],
                 int (card (dom (measureResults r)))),
                sr \<lparr> allSSTS := (allSSTS sr)(skEnc := None) \<rparr>)))"

section \<open>Sequences of calls\<close>

text \<open>
  The calls that change the raw-record part of the state, and their effect one after
  the other. The error \<^verbatim>\<open>MergeRemoteRRCResults\<close> may return goes to its caller; the
  state it leaves is the state the next call finds.
\<close>

datatype ('b, 'f) call =
  CallSetEarlyExit bool
  | CallAddBlockResults 'b
  | CallMergeRemoteRRCResults
      "'f RecordResultContainer list" "GroupByBucketsJSON option" "TimeBucketsJSON option"
      "string set" "'f rawLog list" uint64 bool

fun applyCall ::
  "('b, 'f) blockresults \<Rightarrow> ('b, 'f) SearchResults \<Rightarrow> ('b, 'f) call \<Rightarrow> ('b, 'f) SearchResults option" where
  "applyCall br sr (CallSetEarlyExit exited) = Some (SetEarlyExit sr exited)"
| "applyCall br sr (CallAddBlockResults blockRes) = AddBlockResults br sr blockRes"
| "applyCall br sr (CallMergeRemoteRRCResults rrcs g t allCols rawLogs remoteCount earlyExit) =
    map_option snd (MergeRemoteRRCResults br sr rrcs g t allCols rawLogs remoteCount earlyExit)"

fun applyCalls ::
  "('b, 'f) blockresults \<Rightarrow> ('b, 'f) SearchResults \<Rightarrow> ('b, 'f) call list \<Rightarrow> ('b, 'f) SearchResults option" where
  "applyCalls br sr [] = Some sr"
| "applyCalls br sr (c # cs) =
    (case applyCall br sr c of
      None \<Rightarrow> None
    | Some sr' \<Rightarrow> applyCalls br sr' cs)"

text \<open>
  The methods of \<^verbatim>\<open>SearchResults\<close> that assign to a field of the state or to an object
  the state holds, as operations, and the state they leave; what they return goes
  to the caller. The remaining methods (\<^verbatim>\<open>ShouldContinueRRCSearch\<close>, \<^verbatim>\<open>GetRunningBuckets\<close>,
  \<^verbatim>\<open>GetQueryCount\<close>, \<^verbatim>\<open>GetTotalCount\<close>, \<^verbatim>\<open>GetAggs\<close>, \<^verbatim>\<open>GetRemoteInfo\<close>,
  \<^verbatim>\<open>GetSegmentStatsMeasureResults\<close>, \<^verbatim>\<open>GetSegmentRunningStats\<close>, \<^verbatim>\<open>IsOnlyStatisticGroupBy\<close>,
  \<^verbatim>\<open>GetStatisticGroupByCols\<close>, \<^verbatim>\<open>GetResults\<close>, \<^verbatim>\<open>GetResultsCopy\<close>, \<^verbatim>\<open>GetNumBuckets\<close>,
  \<^verbatim>\<open>GetAllErrors\<close>, \<^verbatim>\<open>ShouldSearchSegKey\<close>, \<^verbatim>\<open>ShouldSearchRange\<close>) contain no assignment
  to a field of \<^verbatim>\<open>sr\<close>.
\<close>

datatype ('b, 'f, 'j) operation =
  OpSetEarlyExit bool
  | OpAddBlockResults 'b
  | OpMergeRemoteRRCResults
      "'f RecordResultContainer list" "GroupByBucketsJSON option" "TimeBucketsJSON option"
      "string set" "'f rawLog list" uint64 bool
  | OpInitSegmentStatsResults "MeasureAggregator list"
  | OpAddSSTMap sstMap uint16
  | OpGetEncodedSegStats uint16
  | OpAddError error
  | OpUpdateSegmentStats sstMap "MeasureAggregator list"
  | OpAddSegmentStats "(string \<times> 'j) list"
  | OpGetSegmentStatsResults uint16
  | OpGetGroupyByBuckets int
  | OpGetBucketResults
  | OpSetFinalStatsFromNodeResult "'f NodeResult"
  | OpGetAddSegEnc string

fun applyOperation ::
  "('b, 'f, 'j) resultfuns \<Rightarrow> ('b, 'f) blockresults \<Rightarrow> ('f, 'j) statsfuns \<Rightarrow> ('b, 'f) SearchResults
    \<Rightarrow> ('b, 'f, 'j) operation \<Rightarrow> ('b, 'f) SearchResults option" where
  "applyOperation fs br st sr (OpSetEarlyExit exited) = Some (SetEarlyExit sr exited)"
| "applyOperation fs br st sr (OpAddBlockResults blockRes) = AddBlockResults br sr blockRes"
| "applyOperation fs br st sr
      (OpMergeRemoteRRCResults rrcs g t allCols rawLogs remoteCount earlyExit) =
    map_option snd (MergeRemoteRRCResults br sr rrcs g t allCols rawLogs remoteCount earlyExit)"
| "applyOperation fs br st sr (OpInitSegmentStatsResults mOps) =
    Some (InitSegmentStatsResults st sr mOps)"
| "applyOperation fs br st sr (OpAddSSTMap sstMap' skEnc) = Some (AddSSTMap sr sstMap' skEnc)"
| "applyOperation fs br st sr (OpGetEncodedSegStats skEnc) =
    Some (snd (GetEncodedSegStats st sr skEnc))"
| "applyOperation fs br st sr (OpAddError err) = Some (AddError sr err)"
| "applyOperation fs br st sr (OpUpdateSegmentStats sstMap' measureOps) =
    map_option snd (UpdateSegmentStats st sr sstMap' measureOps)"
| "applyOperation fs br st sr (OpAddSegmentStats allSegStats) =
    map_option snd (AddSegmentStats (ToStats fs) st sr allSegStats)"
| "applyOperation fs br st sr (OpGetSegmentStatsResults skEnc) =
    map_option snd (GetSegmentStatsResults fs sr skEnc)"
| "applyOperation fs br st sr (OpGetGroupyByBuckets limit) =
    map_option snd (GetGroupyByBuckets fs br sr limit)"
| "applyOperation fs br st sr OpGetBucketResults = map_option snd (GetBucketResults fs br sr)"
| "applyOperation fs br st sr (OpSetFinalStatsFromNodeResult nodeResult) =
    map_option snd (SetFinalStatsFromNodeResult (ParseFloat fs) (ParseInt fs) sr nodeResult)"
| "applyOperation fs br st sr (OpGetAddSegEnc sk) = Some (snd (GetAddSegEnc sr sk))"

fun applyOperations ::
  "('b, 'f, 'j) resultfuns \<Rightarrow> ('b, 'f) blockresults \<Rightarrow> ('f, 'j) statsfuns \<Rightarrow> ('b, 'f) SearchResults
    \<Rightarrow> ('b, 'f, 'j) operation list \<Rightarrow> ('b, 'f) SearchResults option" where
  "applyOperations fs br st sr [] = Some sr"
| "applyOperations fs br st sr (op # ops) =
    (case applyOperation fs br st sr op of
      None \<Rightarrow> None
    | Some sr' \<Rightarrow> applyOperations fs br st sr' ops)"

text \<open>The operations that ask for the early-exit flag to be set: \<^verbatim>\<open>SetEarlyExit(true)\<close>
  and a \<^verbatim>\<open>MergeRemoteRRCResults\<close> whose peer reports early exit. The operations that
  ask for it to be reset: \<^verbatim>\<open>SetEarlyExit(false)\<close>.\<close>

definition setsEarlyExit :: "('b, 'f, 'j) operation \<Rightarrow> bool" where
  "setsEarlyExit op =
    (case op of
      OpSetEarlyExit exited \<Rightarrow> exited
    | OpMergeRemoteRRCResults rrcs g t allCols rawLogs remoteCount earlyExit \<Rightarrow> earlyExit
    | other \<Rightarrow> False)"

definition resetsEarlyExit :: "('b, 'f, 'j) operation \<Rightarrow> bool" where
  "resetsEarlyExit op = (case op of OpSetEarlyExit exited \<Rightarrow> \<not> exited | other \<Rightarrow> False)"

text \<open>The flag after an operation that returns, from the flag before it.\<close>

definition flagAfter :: "bool \<Rightarrow> ('b, 'f, 'j) operation \<Rightarrow> bool" where
  "flagAfter flag op = (setsEarlyExit op \<or> (flag \<and> \<not> resetsEarlyExit op))"

text \<open>Registering segment keys one after the other.\<close>

fun addSegKeys :: "('b, 'f) SearchResults \<Rightarrow> string list \<Rightarrow> ('b, 'f) SearchResults" where
  "addSegKeys sr [] = sr"
| "addSegKeys sr (sk # sks) = addSegKeys (snd (GetAddSegEnc sr sk)) sks"

text \<open>Merging the statistics of one segment after the other with the same measure
  operations: the values the calls returned, and the final state. A panic ends the
  sequence, an error return does not.\<close>

fun updateSegments ::
  "('f, 'j) statsfuns \<Rightarrow> MeasureAggregator list \<Rightarrow> ('b, 'f) SearchResults \<Rightarrow> sstMap list
    \<Rightarrow> (error option list \<times> ('b, 'f) SearchResults) option" where
  "updateSegments st measureOps sr [] = Some ([], sr)"
| "updateSegments st measureOps sr (sstMap' # rest) =
    (case UpdateSegmentStats st sr sstMap' measureOps of
      None \<Rightarrow> None
    | Some (err, sr') \<Rightarrow>
        (case updateSegments st measureOps sr' rest of
          None \<Rightarrow> None
        | Some (errs, sr'') \<Rightarrow> Some (err # errs, sr'')))"

section \<open>The union of the strings of a column\<close>

text \<open>
  The words of the spec for a Values measure: the strings a segment contributes for
  a column (none when the segment has no statistics for it), their union over the
  segments, and the union as a sorted sequence of unique strings.
\<close>

definition segmentValues :: "sstMap \<Rightarrow> string \<Rightarrow> string fset" where
  "segmentValues sstMap' col =
    (case map_of sstMap' col of
      None \<Rightarrow> {||}
    | Some None \<Rightarrow> {||}
    | Some (Some c) \<Rightarrow>
        (case StringStats c of
          None \<Rightarrow> {||}
        | Some ss \<Rightarrow> (case StrSet ss of None \<Rightarrow> {||} | Some x \<Rightarrow> x)))"

fun allValues :: "sstMap list \<Rightarrow> string \<Rightarrow> string fset" where
  "allValues [] col = {||}"
| "allValues (sstMap' # rest) col = segmentValues sstMap' col |\<union>| allValues rest col"

definition valuesEnclosure :: "string fset \<Rightarrow> 'f CValueEnclosure" where
  "valuesEnclosure x = \<lparr> Dtype = SS_DT_STRING_SLICE, CVal = VStringSlice (sorted_list_of_fset x) \<rparr>"

text \<open>The string set kept under a name in \<^verbatim>\<open>runningEvalStats\<close>, empty when there is none.\<close>

definition runningValues :: "evalMap \<Rightarrow> string \<Rightarrow> string fset" where
  "runningValues ev name = (case ev name of Some (StrSetStat x) \<Rightarrow> x | other \<Rightarrow> {||})"

section \<open>The bounded top-K container\<close>

text \<open>
  Modelled from the spec: package \<^verbatim>\<open>blockresults\<close> (the type \<^verbatim>\<open>BlockResults\<close> with
  \<^verbatim>\<open>Add\<close>, \<^verbatim>\<open>GetResults\<close>, \<^verbatim>\<open>WillValueBeAdded\<close>, \<^verbatim>\<open>MergeBuckets\<close> and \<^verbatim>\<open>MergeRemoteBuckets\<close>)
  is missing from the sources. The spec describes it as a bounded top-K ordered
  container that ranks records by sort key and evicts the worst entry on overflow,
  exposing insert, report of the evicted id, and the current contents; the
  reported id is empty when nothing was evicted or the evicted record was local.
  Buckets are identified by their key, so the model keeps the keys. How a peer's
  encoded buckets decode, and when that fails, the spec leaves open: \<open>decode\<close> is a
  parameter, as is the conversion \<open>toFloat\<close>.
\<close>

record 'f TopK =
  tk_sizeLimit :: uint64
  tk_ascending :: bool
  tk_results :: "'f RecordResultContainer list"
  tk_MatchedCount :: uint64
  tk_timeBuckets :: "string list option"
  tk_groupByBuckets :: "string list option"

text \<open>Modelled from the spec: the ranking by sort key. With \<open>ranksBefore asc x y\<close> a
  record with sort value \<open>x\<close> ranks strictly before one with sort value \<open>y\<close>.\<close>

definition ranksBefore :: "bool \<Rightarrow> 'f::linorder \<Rightarrow> 'f \<Rightarrow> bool" where
  "ranksBefore asc x y = (if asc then x < y else y < x)"

text \<open>Modelled from the spec: the worst entry of the container, the one an insertion
  evicts on overflow; among entries of equal sort value the latest.\<close>

fun worst :: "bool \<Rightarrow> ('f::linorder) RecordResultContainer list \<Rightarrow> 'f RecordResultContainer option" where
  "worst asc [] = None"
| "worst asc (x # xs) =
    (case worst asc xs of
      None \<Rightarrow> Some x
    | Some w \<Rightarrow> if ranksBefore asc (SortColumnValue w) (SortColumnValue x) then Some x else Some w)"

text \<open>Modelled from the spec: insert. A container that is not full accepts the
  record. A full one accepts it only if it ranks strictly before the worst entry,
  which is then evicted; the reported id is the id of the evicted record when that
  record carries the remote tag, and empty otherwise.\<close>

definition topk_Add ::
  "('f::linorder) TopK \<Rightarrow> 'f RecordResultContainer \<Rightarrow> (bool \<times> string) \<times> 'f TopK" where
  "topk_Add b r =
    (if length (tk_results b) < unat (tk_sizeLimit b)
     then ((True, []), b \<lparr> tk_results := tk_results b @ [r] \<rparr>)
     else
      (case worst (tk_ascending b) (tk_results b) of
        None \<Rightarrow> ((False, []), b)
      | Some w \<Rightarrow>
          if ranksBefore (tk_ascending b) (SortColumnValue r) (SortColumnValue w)
          then ((True, if IsRemote w then RecordId w else []),
                b \<lparr> tk_results := remove1 w (tk_results b) @ [r] \<rparr>)
          else ((False, []), b)))"

text \<open>Modelled from the spec: would a record with this sort value still be admitted?\<close>

definition topk_WillValueBeAdded :: "('f::linorder) TopK \<Rightarrow> 'f \<Rightarrow> bool" where
  "topk_WillValueBeAdded b v =
    (length (tk_results b) < unat (tk_sizeLimit b)
     \<or> (case worst (tk_ascending b) (tk_results b) of
          None \<Rightarrow> False
        | Some w \<Rightarrow> ranksBefore (tk_ascending b) v (SortColumnValue w)))"

text \<open>Modelled from the spec: merging bucket contributions, where the identity of a
  bucket is its key. An aggregation that was not requested stays nil.\<close>

definition mergeKeys :: "string list option \<Rightarrow> string list option \<Rightarrow> string list option" where
  "mergeKeys running new =
    (case running of
      None \<Rightarrow> None
    | Some ks \<Rightarrow>
        (case new of
          None \<Rightarrow> Some ks
        | Some ns \<Rightarrow> Some (ks @ filter (\<lambda>k. k \<notin> set ks) (remdups ns))))"

text \<open>Modelled from the spec: the empty container of a query, with a bucket state for
  each aggregation the query requests.\<close>

definition topk_InitBlockResults ::
  "uint64 \<Rightarrow> QueryAggregators option \<Rightarrow> uint64 \<Rightarrow> error + 'f TopK" where
  "topk_InitBlockResults sizeLimit' aggs qid' =
    Inr \<lparr> tk_sizeLimit = sizeLimit',
          tk_ascending =
            (case aggs of
              None \<Rightarrow> False
            | Some a \<Rightarrow> (case Sort a of None \<Rightarrow> False | Some so \<Rightarrow> Ascending so)),
          tk_results = [],
          tk_MatchedCount = 0,
          tk_timeBuckets =
            (case aggs of
              None \<Rightarrow> None
            | Some a \<Rightarrow> (case TimeHistogram a of None \<Rightarrow> None | Some h \<Rightarrow> Some [])),
          tk_groupByBuckets =
            (case aggs of
              None \<Rightarrow> None
            | Some a \<Rightarrow> (case GroupByRequest a of None \<Rightarrow> None | Some g \<Rightarrow> Some [])) \<rparr>"

text \<open>Modelled from the spec: the container as the functions of the package.\<close>

definition topk_blockresults ::
  "(uint64 \<Rightarrow> 'f)
    \<Rightarrow> (GroupByBucketsJSON option \<Rightarrow> TimeBucketsJSON option
          \<Rightarrow> error + string list option \<times> string list option)
    \<Rightarrow> (('f::linorder) TopK, 'f) blockresults" where
  "topk_blockresults toFloat decode =
    \<lparr> InitBlockResults = topk_InitBlockResults,
      Add = topk_Add,
      GetResults = tk_results,
      MatchedCount = tk_MatchedCount,
      MergeBuckets =
        (\<lambda>b blockRes.
          b \<lparr> tk_timeBuckets := mergeKeys (tk_timeBuckets b) (tk_timeBuckets blockRes),
              tk_groupByBuckets := mergeKeys (tk_groupByBuckets b) (tk_groupByBuckets blockRes) \<rparr>),
      MergeRemoteBuckets =
        (\<lambda>b g t.
          (case decode g t of
            Inl err \<Rightarrow> (Some err, b)
          | Inr (tks, gks) \<Rightarrow>
              (None,
               b \<lparr> tk_timeBuckets := mergeKeys (tk_timeBuckets b) tks,
                   tk_groupByBuckets := mergeKeys (tk_groupByBuckets b) gks \<rparr>))),
      WillValueBeAdded = topk_WillValueBeAdded,
      TimeAggregation_len = (\<lambda>b. map_option length (tk_timeBuckets b)),
      GroupByAggregation_len = (\<lambda>b. map_option length (tk_groupByBuckets b)),
      float64_of = toFloat \<rparr>"

text \<open>Modelled from the spec: the ids of the records in the container that carry the
  remote tag.\<close>

definition remoteIds :: "'f TopK \<Rightarrow> string set" where
  "remoteIds b = RecordId ` {r \<in> set (tk_results b). IsRemote r}"

section \<open>Concrete instances\<close>

text \<open>
  Instances on which the statements below are evaluated: the top-K container over
  integer sort values with a peer that sends no buckets, statistics functions that
  leave the running state as it is, a raw-record query without aggregations
  (\<open>sizeLimit = 2\<close>), and a group-by query asking for three buckets. The conversion
  \<open>float64_of\<close> of the instance is the number itself, which is what \<^verbatim>\<open>float64(x)\<close> gives
  for \<open>x\<close> up to \<open>2^53\<close>; above that Go rounds, and the instance is not meant for such
  timestamps.
\<close>

definition exampleBlockresults :: "(int TopK, int) blockresults" where
  "exampleBlockresults = topk_blockresults uint (\<lambda>g t. Inr (None, None))"

definition exampleStatsfuns :: "(int, SegStats option) statsfuns" where
  "exampleStatsfuns =
    \<lparr> String_of = StrEnc,
      GetSegMin = (\<lambda>running curr. ((None, None), running)),
      GetSegMax = (\<lambda>running curr. ((None, None), running)),
      GetSegRange = (\<lambda>running curr. ((None, None), running)),
      GetSegCardinality = (\<lambda>running curr. ((None, None), running)),
      GetSegCount = (\<lambda>running curr. ((None, None), running)),
      GetSegSum = (\<lambda>running curr. ((None, None), running)),
      GetSegAvg = (\<lambda>running curr. ((None, None), running)),
      GetSegList = (\<lambda>running curr. ((None, Some (ErrExternal ''no list'')), running)),
      ToCValueEnclosure = (\<lambda>n. Inl (ErrExternal ''nil enclosure'')),
      ComputeAggEvalForMinOrMax = (\<lambda>m sst mr isMin. (None, mr)),
      ComputeAggEvalForRange = (\<lambda>m sst mr ev. (None, mr, ev)),
      ComputeAggEvalForCardinality = (\<lambda>m sst mr ev. (None, mr, ev)),
      ComputeAggEvalForCount = (\<lambda>m sst mr. (None, mr)),
      ComputeAggEvalForSum = (\<lambda>m sst mr. (None, mr)),
      ComputeAggEvalForAvg = (\<lambda>m sst mr ev. (None, mr, ev)),
      ComputeAggEvalForValues = (\<lambda>m sst mr strSet. (None, mr, strSet)),
      ComputeAggEvalForList = (\<lambda>m sst mr ev. (None, mr, ev)),
      ToJSON = Inr,
      Marshal = (\<lambda>entries. Inr (concat (map fst entries))) \<rparr>"

definition exampleResultfuns :: "(int TopK, int, SegStats option) resultfuns" where
  "exampleResultfuns =
    \<lparr> ToStats = Inr,
      GetTimeBuckets = (\<lambda>b. \<lparr> Results = [] \<rparr>),
      GetGroupByBuckets = (\<lambda>b. \<lparr> Results = [] \<rparr>),
      CommafWithDigits = (\<lambda>x digits. ''float''),
      Comma = (\<lambda>x. ''int''),
      GetString = (\<lambda>v. Inl ErrUnexpectedType),
      GetValue = (\<lambda>v. Inr (CVal v)),
      Sprintf = (\<lambda>v. ''value''),
      ParseFloat = (\<lambda>s. None),
      ParseInt = (\<lambda>s. None) \<rparr>"

definition exampleInit :: "(int TopK, int) SearchResults" where
  "exampleInit = projr (InitSearchResults exampleBlockresults 2 None RRCCmd 0)"

definition exampleGroupByAggs :: QueryAggregators where
  "exampleGroupByAggs =
    \<lparr> aggs_EarlyExit = True,
      TimeHistogram = None,
      Sort = None,
      GroupByRequest = Some \<lparr> BucketCount = 3, gb_AggName = ''by_host'', GroupByColumns = [''host''] \<rparr>,
      MeasureOperations = None \<rparr>"

definition exampleGroupByInit :: "(int TopK, int) SearchResults" where
  "exampleGroupByInit =
    projr (InitSearchResults exampleBlockresults 0 (Some exampleGroupByAggs) GroupByCmd 0)"

text \<open>A segment's partial result without records: its matched count and the keys of
  its group-by buckets.\<close>

definition exampleBlock :: "uint64 \<Rightarrow> string list \<Rightarrow> int TopK" where
  "exampleBlock matched keys =
    \<lparr> tk_sizeLimit = 0,
      tk_ascending = False,
      tk_results = [],
      tk_MatchedCount = matched,
      tk_timeBuckets = None,
      tk_groupByBuckets = Some keys \<rparr>"

text \<open>A record with its id, its remote tag and its sort value.\<close>

definition exampleRecord :: "string \<Rightarrow> bool \<Rightarrow> int \<Rightarrow> int RecordResultContainer" where
  "exampleRecord id' remote v = \<lparr> RecordId = id', IsRemote = remote, SortColumnValue = v \<rparr>"

text \<open>A coordinator's result for a statistics query with one measure, and a state
  that expects it.\<close>

definition exampleNodeResult :: "int NodeResult" where
  "exampleNodeResult =
    \<lparr> nr_ColumnsOrder = Map.empty,
      nr_GroupByCols = [],
      Histogram = None,
      MeasureResults =
        [\<lparr> GroupByValues = [''*''], MeasureVal = [''count(*)'' \<mapsto> VString ''1,234''] \<rparr>],
      MeasureFunctions = [''count(*)''] \<rparr>"

definition exampleStatsInit :: "(int TopK, int) SearchResults" where
  "exampleStatsInit = InitSegmentStatsResults exampleStatsfuns exampleInit []"

text \<open>A rendering of values and a \<^verbatim>\<open>GetValue\<close> that hands out the enclosed value.\<close>

definition exampleSprintf :: "int GoValue \<Rightarrow> string" where
  "exampleSprintf v = (case v of VString s \<Rightarrow> s | VFloat64 x \<Rightarrow> ''float'' | other \<Rightarrow> ''value'')"

definition exampleGetValue :: "int CValueEnclosure \<Rightarrow> error + int GoValue" where
  "exampleGetValue v = Inr (CVal v)"

definition exampleBucket :: "int GoValue \<Rightarrow> int BucketResult" where
  "exampleBucket key =
    \<lparr> BucketKey = key, StatRes = [(''count(*)'', \<lparr> Dtype = SS_DT_SIGNED_NUM, CVal = VInt64 1 \<rparr>)] \<rparr>"

section \<open>Auxiliary notions for the bucket rows\<close>

text \<open>The bucket keys for which \<^verbatim>\<open>CreateMeasResultsFromAggResults\<close> increments \<^verbatim>\<open>added\<close>:
  a number, a string, or a sequence that is not empty.\<close>

fun countedKey :: "'f GoValue \<Rightarrow> bool" where
  "countedKey (VFloat64 x) = True"
| "countedKey (VUint64 x) = True"
| "countedKey (VInt64 x) = True"
| "countedKey (VString x) = True"
| "countedKey (VStringSlice bks) = (bks \<noteq> [])"
| "countedKey (VSlice bks) = (bks \<noteq> [])"
| "countedKey VNil = False"
| "countedKey VOther = False"

text \<open>The rows of a result that carry at least one group-by value.\<close>

definition keyedRows :: "'f BucketHolder list \<Rightarrow> 'f BucketHolder list" where
  "keyedRows rows = filter (\<lambda>h. GroupByValues h \<noteq> []) rows"

text \<open>A statistics query with two plain Values measures, over the columns \<open>status\<close>
  and \<open>host\<close>, and the statistics of three segments, the first without the column
  \<open>status\<close> and the second without the column \<open>host\<close>.\<close>

definition exampleStatus :: MeasureAggregator where
  "exampleStatus =
    \<lparr> MeasureFunc = Values, MeasureCol = ''status'', ValueColRequest = None,
      StrEnc = ''values(status)'' \<rparr>"

definition exampleValues :: MeasureAggregator where
  "exampleValues =
    \<lparr> MeasureFunc = Values, MeasureCol = ''host'', ValueColRequest = None,
      StrEnc = ''values(host)'' \<rparr>"

definition exampleValuesAggs :: QueryAggregators where
  "exampleValuesAggs =
    \<lparr> aggs_EarlyExit = False,
      TimeHistogram = None,
      Sort = None,
      GroupByRequest = None,
      MeasureOperations = Some [exampleStatus, exampleValues] \<rparr>"

definition exampleValuesInit :: "(int TopK, int) SearchResults" where
  "exampleValuesInit =
    InitSegmentStatsResults exampleStatsfuns
      (projr (InitSearchResults exampleBlockresults 0 (Some exampleValuesAggs) SegmentStatsCmd 0))
      [exampleStatus, exampleValues]"

definition exampleStrings :: "string list \<Rightarrow> SegStats option" where
  "exampleStrings xs =
    Some \<lparr> NumStats = None, StringStats = Some \<lparr> StrSet = Some (fset_of_list xs) \<rparr> \<rparr>"

definition exampleSegments :: "sstMap list" where
  "exampleSegments =
    [[(''host'', exampleStrings [''web-2'', ''web-1''])],
     [(''status'', exampleStrings [''200''])],
     [(''host'', exampleStrings [''web-1'', ''db-1'']), (''status'', exampleStrings [''500''])]]"

text \<open>Two statistics queries in which another measure operation over the column
  \<open>latency\<close> comes before the Values measure: one whose function is outside the nine
  supported ones, and a plain Count; and the statistics of a segment that has both
  columns. The states are those \<^verbatim>\<open>InitSearchResults\<close> and \<^verbatim>\<open>InitSegmentStatsResults\<close>
  build for the query.\<close>

definition exampleQuantile :: MeasureAggregator where
  "exampleQuantile =
    \<lparr> MeasureFunc = OtherFn 0, MeasureCol = ''latency'', ValueColRequest = None,
      StrEnc = ''quantile(latency)'' \<rparr>"

definition exampleCount :: MeasureAggregator where
  "exampleCount =
    \<lparr> MeasureFunc = Count, MeasureCol = ''latency'', ValueColRequest = None,
      StrEnc = ''count(latency)'' \<rparr>"

definition exampleStatsQuery :: "MeasureAggregator list \<Rightarrow> (int TopK, int) SearchResults" where
  "exampleStatsQuery ms =
    InitSegmentStatsResults exampleStatsfuns
      (projr (InitSearchResults exampleBlockresults 0
        (Some \<lparr> aggs_EarlyExit = False, TimeHistogram = None, Sort = None,
                 GroupByRequest = None, MeasureOperations = Some ms \<rparr>)
        SegmentStatsCmd 0))
      ms"

definition exampleLatencySegment :: sstMap where
  "exampleLatencySegment =
    [(''latency'', exampleStrings [''12'']), (''host'', exampleStrings [''web-1''])]"

text \<open>A segment's partial result that holds the given records.\<close>

definition exampleRecordsBlock :: "int RecordResultContainer list \<Rightarrow> int TopK" where
  "exampleRecordsBlock recs =
    \<lparr> tk_sizeLimit = of_nat (length recs),
      tk_ascending = False,
      tk_results = recs,
      tk_MatchedCount = of_nat (length recs),
      tk_timeBuckets = None,
      tk_groupByBuckets = None \<rparr>"

section \<open>Auxiliary notions for the raw-log cache\<close>

text \<open>The keys of the remote raw-log cache, and the ids of the records of the
  container that carry the remote tag.\<close>

definition cacheKeys :: "('b, 'f) SearchResults \<Rightarrow> string set" where
  "cacheKeys sr = (case remoteInfo sr of None \<Rightarrow> {} | Some ri \<Rightarrow> dom (remoteLogs ri))"

definition cachedLog :: "('b, 'f) SearchResults \<Rightarrow> string \<Rightarrow> 'f rawLog option" where
  "cachedLog sr id' = (case remoteInfo sr of None \<Rightarrow> None | Some ri \<Rightarrow> remoteLogs ri id')"

definition heldRemoteIds :: "('f TopK, 'f) SearchResults \<Rightarrow> string set" where
  "heldRemoteIds sr = (case BlockResults sr of None \<Rightarrow> {} | Some b \<Rightarrow> remoteIds b)"

text \<open>The records a call hands over: those of a local block, and those of a peer with
  the raw logs at the same positions.\<close>

fun localRecords :: "('f TopK, 'f) call \<Rightarrow> 'f RecordResultContainer list" where
  "localRecords (CallAddBlockResults blockRes) = tk_results blockRes"
| "localRecords (CallSetEarlyExit exited) = []"
| "localRecords (CallMergeRemoteRRCResults rrcs g t allCols rawLogs remoteCount earlyExit) = []"

fun remoteRecords :: "('b, 'f) call \<Rightarrow> 'f RecordResultContainer list" where
  "remoteRecords (CallMergeRemoteRRCResults rrcs g t allCols rawLogs remoteCount earlyExit) = rrcs"
| "remoteRecords (CallSetEarlyExit exited) = []"
| "remoteRecords (CallAddBlockResults blockRes) = []"

fun remoteRawLogs :: "('b, 'f) call \<Rightarrow> 'f rawLog list" where
  "remoteRawLogs (CallMergeRemoteRRCResults rrcs g t allCols rawLogs remoteCount earlyExit) = rawLogs"
| "remoteRawLogs (CallSetEarlyExit exited) = []"
| "remoteRawLogs (CallAddBlockResults blockRes) = []"

text \<open>The raw log a peer sent along with the record of an id.\<close>

definition suppliedLogs :: "('b, 'f) call list \<Rightarrow> string \<rightharpoonup> 'f rawLog" where
  "suppliedLogs cs =
    map_of (concat (map (\<lambda>c. zip (map RecordId (remoteRecords c)) (remoteRawLogs c)) cs))"

text \<open>
  What the callers have to see to: a record that comes from a peer carries the
  remote tag and an id that is not empty; no two records from peers share an id;
  a peer sends a raw log for each of its records; a record of a local block does
  not carry the remote tag.
\<close>

definition wellTagged :: "('f TopK, 'f) call list \<Rightarrow> bool" where
  "wellTagged cs \<longleftrightarrow>
    (\<forall>c \<in> set cs.
        (\<forall>r \<in> set (localRecords c). \<not> IsRemote r)
        \<and> (\<forall>r \<in> set (remoteRecords c). IsRemote r \<and> RecordId r \<noteq> [])
        \<and> length (remoteRecords c) \<le> length (remoteRawLogs c))
    \<and> distinct (map RecordId (concat (map remoteRecords cs)))"

text \<open>
  What holds between two calls, for the raw logs \<open>logs\<close> the peers supply: the cache
  is \<open>logs\<close> restricted to the ids of the tagged records of the container, these
  ids are not empty, and no two tagged records of the container share an id.
\<close>

definition cacheInv :: "(string \<rightharpoonup> 'f rawLog) \<Rightarrow> ('f TopK, 'f) SearchResults \<Rightarrow> bool" where
  "cacheInv logs sr \<longleftrightarrow>
    (\<exists>b ri. BlockResults sr = Some b \<and> remoteInfo sr = Some ri
      \<and> remoteLogs ri = logs |` remoteIds b
      \<and> remoteIds b \<subseteq> dom logs
      \<and> [] \<notin> remoteIds b
      \<and> distinct (map RecordId (filter IsRemote (tk_results b))))"

section \<open>Auxiliary notions for the Values merge\<close>

text \<open>
  What holds between two calls of \<^verbatim>\<open>UpdateSegmentStats\<close> for the name \<open>name\<close> of a plain
  Values measure of the list \<open>ms\<close>: \<open>seen\<close> tells whether a segment had the measure's
  column so far, and \<open>vals\<close> is the set merged so far. The entry of the results and
  the running set are absent before the first such segment and hold \<open>vals\<close> after
  it; the running slot of every Values measure is nil.
\<close>

definition valuesInv ::
  "MeasureAggregator list \<Rightarrow> string \<Rightarrow> ('b, 'f) SearchResults \<Rightarrow> string fset \<Rightarrow> bool \<Rightarrow> bool" where
  "valuesInv ms name sr vals seen \<longleftrightarrow>
    (\<exists>r. segStatsResults sr = Some r
          \<and> measureResults r name = (if seen then Some (valuesEnclosure vals) else None))
    \<and> runningEvalStats sr name = (if seen then Some (StrSetStat vals) else None)
    \<and> (\<not> seen \<longrightarrow> vals = {||})
    \<and> (\<forall>i < length ms. MeasureFunc (ms ! i) = Values \<longrightarrow>
          i < length (runningSegStat sr) \<and> runningSegStat sr ! i = None)"

text \<open>
  The assumption on the expression functions of package \<^verbatim>\<open>aggregations\<close>: called for a
  measure of another name, they leave the entries under \<open>name\<close> in the maps they are
  given as they are.
\<close>

definition leavesEntry :: "('f, 'j) statsfuns \<Rightarrow> string \<Rightarrow> bool" where
  "leavesEntry st name \<longleftrightarrow>
    (\<forall>m s mr ev x isMin. String_of st m \<noteq> name \<longrightarrow>
        snd (ComputeAggEvalForMinOrMax st m s mr isMin) name = mr name
      \<and> snd (ComputeAggEvalForCount st m s mr) name = mr name
      \<and> snd (ComputeAggEvalForSum st m s mr) name = mr name
      \<and> fst (snd (ComputeAggEvalForRange st m s mr ev)) name = mr name
      \<and> snd (snd (ComputeAggEvalForRange st m s mr ev)) name = ev name
      \<and> fst (snd (ComputeAggEvalForCardinality st m s mr ev)) name = mr name
      \<and> snd (snd (ComputeAggEvalForCardinality st m s mr ev)) name = ev name
      \<and> fst (snd (ComputeAggEvalForAvg st m s mr ev)) name = mr name
      \<and> snd (snd (ComputeAggEvalForAvg st m s mr ev)) name = ev name
      \<and> fst (snd (ComputeAggEvalForList st m s mr ev)) name = mr name
      \<and> snd (snd (ComputeAggEvalForList st m s mr ev)) name = ev name
      \<and> fst (snd (ComputeAggEvalForValues st m s mr x)) name = mr name)"

text \<open>
  What one iteration for a measure of another name does to the entries under
  \<open>name\<close>, by its outcome: when it goes on to the next measure, the entries under
  \<open>name\<close> and the running slots other than its own are as before (all slots, for a
  Values measure); when it leaves the function, it returns an error.
\<close>

definition keepsEntry ::
  "string \<Rightarrow> nat \<Rightarrow> bool \<Rightarrow> ('b, 'f) SearchResults \<Rightarrow> ('b, 'f) SearchResults step option \<Rightarrow> bool" where
  "keepsEntry name idx isValues sr outcome \<longleftrightarrow>
    (case outcome of
      None \<Rightarrow> True
    | Some (Return e sr') \<Rightarrow> e \<noteq> None
    | Some (Continue sr') \<Rightarrow>
        runningEvalStats sr' name = runningEvalStats sr name
        \<and> length (runningSegStat sr') = length (runningSegStat sr)
        \<and> (\<forall>i. i \<noteq> idx \<or> isValues \<longrightarrow> runningSegStat sr' ! i = runningSegStat sr ! i)
        \<and> (\<forall>r. segStatsResults sr = Some r \<longrightarrow>
              (\<exists>r'. segStatsResults sr' = Some r'
                \<and> measureResults r' name = measureResults r name)))"

text \<open>No name of the list holds a value of another type than a string set.\<close>

definition stringSetsOnly :: "('f, 'j) statsfuns \<Rightarrow> MeasureAggregator list \<Rightarrow> ('b, 'f) SearchResults \<Rightarrow> bool" where
  "stringSetsOnly st ms sr \<longleftrightarrow>
    (\<forall>m \<in> set ms. \<forall>y. runningEvalStats sr (String_of st m) \<noteq> Some (OtherStat y))"

section \<open>Auxiliary notions for the segment-key table\<close>

text \<open>Segment keys that differ pairwise: \<open>s\<close>, \<open>ss\<close>, \<open>sss\<close> and so on.\<close>

definition segKey :: "nat \<Rightarrow> string" where
  "segKey i = replicate (Suc i) (CHR ''s'')"

text \<open>
  The state of the table after \<open>n\<close> distinct keys, as long as the counter has not
  wrapped: the counter is \<open>n + 1\<close>, the two maps are inverse to each other, and the
  encodings in use are \<open>1, ..., n\<close>.
\<close>

definition segEncInv :: "('b, 'f) SearchResults \<Rightarrow> nat \<Rightarrow> bool" where
  "segEncInv sr n \<longleftrightarrow>
    finite (dom (SegKeyToEnc sr))
    \<and> card (dom (SegKeyToEnc sr)) = n
    \<and> MaxSegKeyEnc sr = of_nat (Suc n)
    \<and> (\<forall>sk e. SegKeyToEnc sr sk = Some e \<longleftrightarrow> SegEncToKey sr e = Some sk)
    \<and> (\<forall>sk e. SegKeyToEnc sr sk = Some e \<longrightarrow> 0 < unat e \<and> unat e \<le> n)"

section \<open>Evaluating the instances\<close>

lemmas example_defs =
  exampleInit_def InitSearchResults_def exampleBlockresults_def topk_blockresults_def
  topk_InitBlockResults_def exampleBlock_def exampleRecord_def

lemmas call_defs =
  AddBlockResults_def MergeRemoteRRCResults_def SetEarlyExit_def addRemoteColumns_def
  addRawLog_def removeLog_def topk_Add_def mergeKeys_def ranksBefore_def

lemma exampleInit_eq: "InitSearchResults exampleBlockresults 2 None RRCCmd 0 = Inr exampleInit"
  by (simp add: example_defs)

section \<open>The early-exit flag\<close>

lemma removeLog_EarlyExit: "removeLog sr i = Some sr' \<Longrightarrow> EarlyExit sr' = EarlyExit sr"
  by (auto simp: removeLog_def split: if_splits option.splits)

lemma addRawLog_EarlyExit: "addRawLog sr i l = Some sr' \<Longrightarrow> EarlyExit sr' = EarlyExit sr"
  by (auto simp: addRawLog_def split: option.splits)

lemma addRemoteColumns_EarlyExit:
  "addRemoteColumns sr cols = Some sr' \<Longrightarrow> EarlyExit sr' = EarlyExit sr"
  by (auto simp: addRemoteColumns_def split: if_splits option.splits)

lemma addBlockRecords_EarlyExit:
  "addBlockRecords br recs sr = Some sr' \<Longrightarrow> EarlyExit sr' = EarlyExit sr"
proof (induction recs arbitrary: sr)
  case Nil
  then show ?case by simp
next
  case (Cons r recs)
  then show ?case
    by (auto split: option.splits prod.splits dest!: removeLog_EarlyExit)
qed

lemma mergeRemoteRecords_EarlyExit:
  "mergeRemoteRecords br idx rrcs rawLogs sr = Some sr' \<Longrightarrow> EarlyExit sr' = EarlyExit sr"
proof (induction rrcs arbitrary: sr idx)
  case Nil
  then show ?case by simp
next
  case (Cons r rrcs)
  then show ?case
    by (auto split: option.splits prod.splits if_splits
        dest!: removeLog_EarlyExit addRawLog_EarlyExit)
qed

text \<open>No method but \<^verbatim>\<open>SetEarlyExit\<close> and \<^verbatim>\<open>MergeRemoteRRCResults\<close> writes the flag.\<close>

lemma evalResults_EarlyExit:
  "evalResults sr f = Some out \<Longrightarrow>
    EarlyExit (case out of Continue sr' \<Rightarrow> sr' | Return e sr' \<Rightarrow> sr') = EarlyExit sr"
  by (auto simp: evalResults_def Let_def split: option.splits prod.splits)

lemma evalRunning_EarlyExit:
  "evalRunning sr f = Some out \<Longrightarrow>
    EarlyExit (case out of Continue sr' \<Rightarrow> sr' | Return e sr' \<Rightarrow> sr') = EarlyExit sr"
  by (auto simp: evalRunning_def Let_def split: option.splits prod.splits)

lemma plainStat_EarlyExit:
  "plainStat st sr idx m currSst g = Some out \<Longrightarrow>
    EarlyExit (case out of Continue sr' \<Rightarrow> sr' | Return e sr' \<Rightarrow> sr') = EarlyExit sr"
  by (auto simp: plainStat_def Let_def setMeasureResult_def
      split: if_splits option.splits prod.splits sum.splits)

lemma plainList_EarlyExit:
  "plainList st sr idx m currSst = Some out \<Longrightarrow>
    EarlyExit (case out of Continue sr' \<Rightarrow> sr' | Return e sr' \<Rightarrow> sr') = EarlyExit sr"
  by (auto simp: plainList_def Let_def setMeasureResult_def
      split: if_splits option.splits prod.splits sum.splits)

lemma valuesStat_EarlyExit:
  "valuesStat st s sr idx m currSst = Some out \<Longrightarrow>
    EarlyExit (case out of Continue sr' \<Rightarrow> sr' | Return e sr' \<Rightarrow> sr') = EarlyExit sr"
  by (auto simp: valuesStat_def Let_def setMeasureResult_def
      split: if_splits option.splits prod.splits sum.splits EvalStat.splits)

lemma updateMeasure_EarlyExit:
  "updateMeasure st s sr idx m = Some out \<Longrightarrow>
    EarlyExit (case out of Continue sr' \<Rightarrow> sr' | Return e sr' \<Rightarrow> sr') = EarlyExit sr"
  by (cases "MeasureFunc m")
    (auto simp: updateMeasure_def Let_def split: if_splits
      dest: evalResults_EarlyExit evalRunning_EarlyExit plainStat_EarlyExit plainList_EarlyExit
        valuesStat_EarlyExit)

lemma updateMeasures_EarlyExit:
  "updateMeasures st s idx ms sr = Some (err, sr') \<Longrightarrow> EarlyExit sr' = EarlyExit sr"
proof (induction ms arbitrary: idx sr)
  case Nil
  then show ?case by simp
next
  case (Cons m ms)
  show ?case
  proof (cases "updateMeasure st s sr idx m")
    case None
    with Cons.prems show ?thesis by simp
  next
    case (Some out)
    from updateMeasure_EarlyExit [OF Some] Some Cons show ?thesis
      by (cases out) auto
  qed
qed

lemma UpdateSegmentStats_EarlyExit:
  "UpdateSegmentStats st sr s ms = Some (err, sr') \<Longrightarrow> EarlyExit sr' = EarlyExit sr"
  by (simp add: UpdateSegmentStats_def updateMeasures_EarlyExit)

lemma AddSegmentStats_EarlyExit:
  "AddSegmentStats toStats st sr allSegStats = Some (err, sr') \<Longrightarrow> EarlyExit sr' = EarlyExit sr"
  by (auto simp: AddSegmentStats_def split: sum.splits option.splits
      dest: UpdateSegmentStats_EarlyExit)

lemma loadBucketsInternal_EarlyExit:
  "loadBucketsInternal fs br sr = Some sr' \<Longrightarrow> EarlyExit sr' = EarlyExit sr"
  by (auto simp: loadBucketsInternal_def split: if_splits option.splits)

lemma GetBucketResults_EarlyExit:
  "GetBucketResults fs br sr = Some (res, sr') \<Longrightarrow> EarlyExit sr' = EarlyExit sr"
  by (auto simp: GetBucketResults_def split: if_splits option.splits
      dest: loadBucketsInternal_EarlyExit)

lemma GetGroupyByBuckets_EarlyExit:
  "GetGroupyByBuckets fs br sr limit = Some (res, sr') \<Longrightarrow> EarlyExit sr' = EarlyExit sr"
  by (auto simp: GetGroupyByBuckets_def split: if_splits option.splits prod.splits
      dest: loadBucketsInternal_EarlyExit)

lemma GetSegmentStatsResults_EarlyExit:
  "GetSegmentStatsResults fs sr skEnc = Some (res, sr') \<Longrightarrow> EarlyExit sr' = EarlyExit sr"
  by (auto simp: GetSegmentStatsResults_def split: if_splits option.splits)

lemma SetFinalStatsFromNodeResult_EarlyExit:
  "SetFinalStatsFromNodeResult pf pi sr nodeResult = Some (err, sr') \<Longrightarrow> EarlyExit sr' = EarlyExit sr"
  by (auto simp: SetFinalStatsFromNodeResult_def Let_def
      split: if_splits option.splits prod.splits)

lemma GetEncodedSegStats_EarlyExit:
  "EarlyExit (snd (GetEncodedSegStats st sr skEnc)) = EarlyExit sr"
  by (auto simp: GetEncodedSegStats_def Let_def split: option.splits sum.splits)

lemma GetAddSegEnc_EarlyExit: "EarlyExit (snd (GetAddSegEnc sr sk)) = EarlyExit sr"
  by (auto simp: GetAddSegEnc_def split: option.splits)

lemma AddBlockResults_EarlyExit:
  "AddBlockResults br sr blockRes = Some sr' \<Longrightarrow> EarlyExit sr' = EarlyExit sr"
  by (auto simp: AddBlockResults_def Let_def split: option.splits
      dest!: addBlockRecords_EarlyExit)

lemma MergeRemoteRRCResults_EarlyExit:
  "MergeRemoteRRCResults br sr rrcs g t cols logs cnt ee = Some (err, sr')
    \<Longrightarrow> EarlyExit sr' = (ee \<or> EarlyExit sr)"
  by (auto simp: MergeRemoteRRCResults_def Let_def split: option.splits prod.splits if_splits
      dest!: mergeRemoteRecords_EarlyExit addRemoteColumns_EarlyExit)

lemma applyOperation_EarlyExit:
  assumes "applyOperation fs br st sr op = Some sr'"
  shows "EarlyExit sr' = flagAfter (EarlyExit sr) op"
proof (cases op)
  case (OpSetEarlyExit exited)
  with assms show ?thesis
    by (auto simp: flagAfter_def setsEarlyExit_def resetsEarlyExit_def SetEarlyExit_def)
next
  case (OpAddBlockResults blockRes)
  with assms show ?thesis
    by (auto simp: flagAfter_def setsEarlyExit_def resetsEarlyExit_def
        dest: AddBlockResults_EarlyExit)
next
  case (OpMergeRemoteRRCResults rrcs g t cols logs cnt ee)
  with assms show ?thesis
    by (auto simp: flagAfter_def setsEarlyExit_def resetsEarlyExit_def
        dest: MergeRemoteRRCResults_EarlyExit)
next
  case (OpInitSegmentStatsResults mOps)
  with assms show ?thesis
    by (auto simp: flagAfter_def setsEarlyExit_def resetsEarlyExit_def InitSegmentStatsResults_def)
next
  case (OpAddSSTMap m skEnc)
  with assms show ?thesis
    by (auto simp: flagAfter_def setsEarlyExit_def resetsEarlyExit_def AddSSTMap_def)
next
  case (OpGetEncodedSegStats skEnc)
  with assms show ?thesis
    by (auto simp: flagAfter_def setsEarlyExit_def resetsEarlyExit_def GetEncodedSegStats_EarlyExit)
next
  case (OpAddError err)
  with assms show ?thesis
    by (auto simp: flagAfter_def setsEarlyExit_def resetsEarlyExit_def AddError_def)
next
  case (OpUpdateSegmentStats m ms)
  with assms show ?thesis
    by (auto simp: flagAfter_def setsEarlyExit_def resetsEarlyExit_def
        dest: UpdateSegmentStats_EarlyExit)
next
  case (OpAddSegmentStats allSegStats)
  with assms show ?thesis
    by (auto simp: flagAfter_def setsEarlyExit_def resetsEarlyExit_def
        dest: AddSegmentStats_EarlyExit)
next
  case (OpGetSegmentStatsResults skEnc)
  with assms show ?thesis
    by (auto simp: flagAfter_def setsEarlyExit_def resetsEarlyExit_def
        dest: GetSegmentStatsResults_EarlyExit)
next
  case (OpGetGroupyByBuckets limit)
  with assms show ?thesis
    by (auto simp: flagAfter_def setsEarlyExit_def resetsEarlyExit_def
        dest: GetGroupyByBuckets_EarlyExit)
next
  case OpGetBucketResults
  with assms show ?thesis
    by (auto simp: flagAfter_def setsEarlyExit_def resetsEarlyExit_def
        dest: GetBucketResults_EarlyExit)
next
  case (OpSetFinalStatsFromNodeResult nodeResult)
  with assms show ?thesis
    by (auto simp: flagAfter_def setsEarlyExit_def resetsEarlyExit_def
        dest: SetFinalStatsFromNodeResult_EarlyExit)
next
  case (OpGetAddSegEnc sk)
  with assms show ?thesis
    by (auto simp: flagAfter_def setsEarlyExit_def resetsEarlyExit_def GetAddSegEnc_EarlyExit)
qed

lemma applyOperations_EarlyExit:
  "applyOperations fs br st sr ops = Some sr' \<Longrightarrow> EarlyExit sr' = foldl flagAfter (EarlyExit sr) ops"
proof (induction ops arbitrary: sr)
  case Nil
  then show ?case by simp
next
  case (Cons op ops)
  then show ?case
    by (auto split: option.splits dest: applyOperation_EarlyExit)
qed

lemma flagAfter_stays:
  "\<not> list_ex resetsEarlyExit ops \<Longrightarrow> foldl flagAfter True ops"
  by (induction ops) (auto simp: flagAfter_def)

lemma flagAfter_unset:
  "\<not> list_ex setsEarlyExit ops \<Longrightarrow> \<not> foldl flagAfter False ops"
  by (induction ops) (auto simp: flagAfter_def)

text \<open>
  C1 (as stated): for every sequence of operations, \<^verbatim>\<open>SetEarlyExit\<close> included, the
  flag never goes from true back to false. \<^verbatim>\<open>SetEarlyExit(false)\<close> after
  \<^verbatim>\<open>SetEarlyExit(true)\<close> leaves the flag false.
\<close>

theorem SetEarlyExit_resets_flag:
  "map_option EarlyExit (applyCalls exampleBlockresults exampleInit [CallSetEarlyExit True])
     = Some True
   \<and> map_option EarlyExit
       (applyCalls exampleBlockresults exampleInit [CallSetEarlyExit True, CallSetEarlyExit False])
     = Some False"
  by (simp add: SetEarlyExit_def)

text \<open>
  C1 (amended): the flag is written by two methods only. \<^verbatim>\<open>SetEarlyExit\<close> stores its
  argument, and \<^verbatim>\<open>MergeRemoteRRCResults\<close> sets the flag when the peer reports early exit
  and leaves it as it is otherwise; every other operation leaves it as it is. So
  after every sequence of operations that returns, the flag is the one these stores
  give in their order: once true it is still true unless \<^verbatim>\<open>SetEarlyExit\<close> was called
  with false, and once false it is still false unless \<^verbatim>\<open>SetEarlyExit\<close> was called with
  true or a peer reported early exit.
\<close>

theorem EarlyExit_stays_set:
  assumes "applyOperations fs br st sr ops = Some sr'"
  shows "EarlyExit sr' = foldl flagAfter (EarlyExit sr) ops
    \<and> (EarlyExit sr \<and> \<not> list_ex resetsEarlyExit ops \<longrightarrow> EarlyExit sr')
    \<and> (\<not> EarlyExit sr \<and> \<not> list_ex setsEarlyExit ops \<longrightarrow> \<not> EarlyExit sr')"
  using applyOperations_EarlyExit [OF assms] flagAfter_stays [of ops] flagAfter_unset [of ops]
  by auto

theorem EarlyExit_stays_set_witness:
  "map_option EarlyExit
      (applyOperations exampleResultfuns exampleBlockresults exampleStatsfuns exampleInit
        [OpMergeRemoteRRCResults [exampleRecord ''r1'' True 5] None None {''host''}
           [Map.empty] 1 True])
     = Some True
   \<and> \<not> list_ex resetsEarlyExit
        [OpAddBlockResults (exampleBlock 1 []),
         OpGetAddSegEnc ''seg'',
         OpAddSSTMap [] 1,
         OpGetEncodedSegStats 1,
         OpAddError ErrUnexpectedType,
         OpInitSegmentStatsResults [],
         OpUpdateSegmentStats [] [],
         OpGetSegmentStatsResults 1,
         OpMergeRemoteRRCResults [exampleRecord ''r2'' True 7] None None {''host''}
           [Map.empty] 1 False
         :: (int TopK, int, SegStats option) operation]
   \<and> map_option EarlyExit
      (applyOperations exampleResultfuns exampleBlockresults exampleStatsfuns exampleInit
        [OpMergeRemoteRRCResults [exampleRecord ''r1'' True 5] None None {''host''}
           [Map.empty] 1 True,
         OpAddBlockResults (exampleBlock 1 []),
         OpGetAddSegEnc ''seg'',
         OpAddSSTMap [] 1,
         OpGetEncodedSegStats 1,
         OpAddError ErrUnexpectedType,
         OpInitSegmentStatsResults [],
         OpUpdateSegmentStats [] [],
         OpGetSegmentStatsResults 1,
         OpMergeRemoteRRCResults [exampleRecord ''r2'' True 7] None None {''host''}
           [Map.empty] 1 False])
     = Some True
   \<and> \<not> list_ex setsEarlyExit
        [OpAddBlockResults (exampleBlock 1 []),
         OpGetAddSegEnc ''seg'',
         OpMergeRemoteRRCResults [exampleRecord ''r2'' True 7] None None {''host''}
           [Map.empty] 1 False
         :: (int TopK, int, SegStats option) operation]
   \<and> map_option EarlyExit
      (applyOperations exampleResultfuns exampleBlockresults exampleStatsfuns exampleInit
        [OpAddBlockResults (exampleBlock 1 []),
         OpGetAddSegEnc ''seg'',
         OpMergeRemoteRRCResults [exampleRecord ''r2'' True 7] None None {''host''}
           [Map.empty] 1 False])
     = Some False"
proof -
  let ?run = "applyOperations exampleResultfuns exampleBlockresults exampleStatsfuns"
  let ?first = "OpMergeRemoteRRCResults [exampleRecord ''r1'' True 5] None None {''host''}
      [Map.empty] 1 True :: (int TopK, int, SegStats option) operation"
  let ?last = "OpMergeRemoteRRCResults [exampleRecord ''r2'' True 7] None None {''host''}
      [Map.empty] 1 False :: (int TopK, int, SegStats option) operation"
  let ?rest = "[OpAddBlockResults (exampleBlock 1 []), OpGetAddSegEnc ''seg'', OpAddSSTMap [] 1,
      OpGetEncodedSegStats 1, OpAddError ErrUnexpectedType, OpInitSegmentStatsResults [],
      OpUpdateSegmentStats [] [], OpGetSegmentStatsResults 1, ?last]"
  let ?quiet = "[OpAddBlockResults (exampleBlock 1 []), OpGetAddSegEnc ''seg'', ?last]"
  note defs = example_defs call_defs GetAddSegEnc_def AddSSTMap_def GetEncodedSegStats_def
    AddError_def InitSegmentStatsResults_def UpdateSegmentStats_def GetSegmentStatsResults_def
    exampleStatsfuns_def Let_def
  have "\<exists>sr1. applyOperation exampleResultfuns exampleBlockresults exampleStatsfuns exampleInit ?first
      = Some sr1"
    by (simp add: defs)
  then obtain sr1 where first:
    "applyOperation exampleResultfuns exampleBlockresults exampleStatsfuns exampleInit ?first = Some sr1"
    by blast
  have run1: "?run exampleInit [?first] = Some sr1"
    by (simp only: applyOperations.simps first option.case)
  have init: "\<not> EarlyExit exampleInit" by (simp add: example_defs)
  from EarlyExit_stays_set [OF run1] init have set1: "EarlyExit sr1"
    by (simp add: flagAfter_def setsEarlyExit_def)
  have "\<exists>sr2. ?run exampleInit (?first # ?rest) = Some sr2"
    by (simp add: defs)
  then obtain sr2 where whole: "?run exampleInit (?first # ?rest) = Some sr2"
    by blast
  have "?run exampleInit (?first # ?rest) = ?run sr1 ?rest"
    by (simp only: applyOperations.simps(2) [of _ _ _ exampleInit] first option.case)
  with whole have run2: "?run sr1 ?rest = Some sr2" by (simp only:)
  have calm: "\<not> list_ex resetsEarlyExit ?rest"
    by (simp add: resetsEarlyExit_def)
  from EarlyExit_stays_set [OF run2] set1 calm have set2: "EarlyExit sr2" by blast
  have "\<exists>sr3. ?run exampleInit ?quiet = Some sr3"
    by (simp add: defs)
  then obtain sr3 where run3: "?run exampleInit ?quiet = Some sr3"
    by blast
  have quiet: "\<not> list_ex setsEarlyExit ?quiet"
    by (simp add: setsEarlyExit_def)
  from EarlyExit_stays_set [OF run3] init quiet have unset3: "\<not> EarlyExit sr3" by blast
  from run1 set1 whole set2 calm run3 unset3 quiet show ?thesis
    by simp
qed

section \<open>The time-range check\<close>

text \<open>
  C2 (as stated): \<^verbatim>\<open>ShouldSearchRange\<close> returns true whenever early exit is structurally
  disabled, also when the query has no aggregation spec; in particular for a
  raw-record query with \<^verbatim>\<open>resultCount > sizeLimit\<close> and a nil aggregation spec. On
  that input the function returns false.
\<close>

theorem ShouldSearchRange_nil_aggs_false:
  "queryType (exampleInit \<lparr> resultCount := 3 \<rparr>) = RRCCmd
   \<and> sizeLimit (exampleInit \<lparr> resultCount := 3 \<rparr>) < resultCount (exampleInit \<lparr> resultCount := 3 \<rparr>)
   \<and> sAggs (exampleInit \<lparr> resultCount := 3 \<rparr>) = None
   \<and> ShouldSearchRange exampleBlockresults (exampleInit \<lparr> resultCount := 3 \<rparr>) 10 20 = Some False"
  by (simp add: ShouldSearchRange_def ShouldContinueRRCSearch_def example_defs)

text \<open>
  C2 (amended): \<^verbatim>\<open>ShouldSearchRange\<close> returns true when the query is not a raw-record
  query, when \<^verbatim>\<open>resultCount <= sizeLimit\<close>, when the aggregation spec is present with
  its early-exit flag off, and when it is present with a time histogram. For a
  raw-record query with \<^verbatim>\<open>resultCount > sizeLimit\<close> and no aggregation spec it
  returns false.
\<close>

theorem ShouldSearchRange_always_search:
  "((queryType sr \<noteq> RRCCmd \<or> resultCount sr \<le> sizeLimit sr
      \<or> (\<exists>a. sAggs sr = Some a \<and> (\<not> aggs_EarlyExit a \<or> TimeHistogram a \<noteq> None)))
     \<longrightarrow> ShouldSearchRange br sr lowTs highTs = Some True)
   \<and> (queryType sr = RRCCmd \<and> sizeLimit sr < resultCount sr \<and> sAggs sr = None
     \<longrightarrow> ShouldSearchRange br sr lowTs highTs = Some False)"
  by (auto simp: ShouldSearchRange_def ShouldContinueRRCSearch_def split: option.splits)

theorem ShouldSearchRange_always_search_witness:
  "sAggs (exampleInit \<lparr> resultCount := 3, sAggs := Some (exampleGroupByAggs \<lparr> aggs_EarlyExit := False \<rparr>) \<rparr>)
     = Some (exampleGroupByAggs \<lparr> aggs_EarlyExit := False \<rparr>)
   \<and> \<not> aggs_EarlyExit (exampleGroupByAggs \<lparr> aggs_EarlyExit := False \<rparr>)
   \<and> ShouldSearchRange exampleBlockresults
        (exampleInit \<lparr> resultCount := 3, sAggs := Some (exampleGroupByAggs \<lparr> aggs_EarlyExit := False \<rparr>) \<rparr>)
        10 20 = Some True
   \<and> queryType (exampleInit \<lparr> resultCount := 3 \<rparr>) = RRCCmd
   \<and> sizeLimit (exampleInit \<lparr> resultCount := 3 \<rparr>) < resultCount (exampleInit \<lparr> resultCount := 3 \<rparr>)
   \<and> sAggs (exampleInit \<lparr> resultCount := 3 \<rparr>) = None
   \<and> ShouldSearchRange exampleBlockresults (exampleInit \<lparr> resultCount := 3 \<rparr>) 10 20 = Some False"
proof -
  let ?off = "exampleInit \<lparr> resultCount := 3,
    sAggs := Some (exampleGroupByAggs \<lparr> aggs_EarlyExit := False \<rparr>) \<rparr>"
  let ?nil = "exampleInit \<lparr> resultCount := 3 \<rparr>"
  have off: "sAggs ?off = Some (exampleGroupByAggs \<lparr> aggs_EarlyExit := False \<rparr>)"
    "\<not> aggs_EarlyExit (exampleGroupByAggs \<lparr> aggs_EarlyExit := False \<rparr>)"
    by simp_all
  have nil: "queryType ?nil = RRCCmd" "sizeLimit ?nil < resultCount ?nil" "sAggs ?nil = None"
    by (simp_all add: example_defs)
  from off ShouldSearchRange_always_search [of ?off exampleBlockresults 10 20]
  have "ShouldSearchRange exampleBlockresults ?off 10 20 = Some True"
    by blast
  moreover from nil ShouldSearchRange_always_search [of ?nil exampleBlockresults 10 20]
  have "ShouldSearchRange exampleBlockresults ?nil 10 20 = Some False"
    by blast
  ultimately show ?thesis using off nil by simp
qed

section \<open>The segment check of a group-by query\<close>

text \<open>
  C4: for a group-by query whose \<^verbatim>\<open>resultCount\<close> exceeds \<^verbatim>\<open>sizeLimit\<close>,
  \<^verbatim>\<open>ShouldSearchSegKey\<close> returns \<^verbatim>\<open>EetContSearch\<close> exactly when the number of buckets
  seen so far (\<^verbatim>\<open>GetNumBuckets\<close>) is less than the requested \<^verbatim>\<open>BucketCount\<close>, and
  \<^verbatim>\<open>EetEarlyExit\<close> otherwise.
\<close>

theorem ShouldSearchSegKey_group_by:
  assumes "queryType sr = GroupByCmd" and "sizeLimit sr < resultCount sr"
    and "sAggs sr = Some a" and "GroupByRequest a = Some g"
  shows "ShouldSearchSegKey br sr tRange snt otherAggsPresent timeAggs
    = Some (if GetNumBuckets br sr < BucketCount g then EetContSearch else EetEarlyExit)"
proof -
  have "\<not> resultCount sr \<le> sizeLimit sr"
    using assms(2) by (metis leD)
  then show ?thesis
    using assms by (simp add: ShouldSearchSegKey_def ShouldContinueRRCSearch_def)
qed

text \<open>With a target of three buckets: after two distinct buckets the scan continues,
  after three it stops.\<close>

theorem ShouldSearchSegKey_group_by_witness:
  "map_option (\<lambda>sr. (queryType sr, sizeLimit sr < resultCount sr, sAggs sr,
        GetNumBuckets exampleBlockresults sr,
        ShouldSearchSegKey exampleBlockresults sr None OtherQuery False False))
      (applyCalls exampleBlockresults exampleGroupByInit
        [CallAddBlockResults (exampleBlock 1 [''a'', ''b''])])
     = Some (GroupByCmd, True, Some exampleGroupByAggs, 2, Some EetContSearch)
   \<and> map_option (\<lambda>sr. (queryType sr, sizeLimit sr < resultCount sr, sAggs sr,
        GetNumBuckets exampleBlockresults sr,
        ShouldSearchSegKey exampleBlockresults sr None OtherQuery False False))
      (applyCalls exampleBlockresults exampleGroupByInit
        [CallAddBlockResults (exampleBlock 1 [''a'', ''b'']),
         CallAddBlockResults (exampleBlock 1 [''b'', ''c''])])
     = Some (GroupByCmd, True, Some exampleGroupByAggs, 3, Some EetEarlyExit)
   \<and> GroupByRequest exampleGroupByAggs
     = Some \<lparr> BucketCount = 3, gb_AggName = ''by_host'', GroupByColumns = [''host''] \<rparr>"
proof -
  let ?g = "\<lparr> BucketCount = 3, gb_AggName = ''by_host'', GroupByColumns = [''host''] \<rparr>"
  have g: "GroupByRequest exampleGroupByAggs = Some ?g"
    by (simp add: exampleGroupByAggs_def)
  have "\<exists>sr. applyCalls exampleBlockresults exampleGroupByInit
      [CallAddBlockResults (exampleBlock 1 [''a'', ''b''])] = Some sr
    \<and> queryType sr = GroupByCmd \<and> sizeLimit sr < resultCount sr
    \<and> sAggs sr = Some exampleGroupByAggs \<and> GetNumBuckets exampleBlockresults sr = 2"
    by (simp add: example_defs exampleGroupByInit_def exampleGroupByAggs_def call_defs
        GetNumBuckets_def)
  then obtain sr2 where two:
    "applyCalls exampleBlockresults exampleGroupByInit
      [CallAddBlockResults (exampleBlock 1 [''a'', ''b''])] = Some sr2"
    "queryType sr2 = GroupByCmd" "sizeLimit sr2 < resultCount sr2"
    "sAggs sr2 = Some exampleGroupByAggs" "GetNumBuckets exampleBlockresults sr2 = 2"
    by blast
  have "\<exists>sr. applyCalls exampleBlockresults exampleGroupByInit
      [CallAddBlockResults (exampleBlock 1 [''a'', ''b'']),
       CallAddBlockResults (exampleBlock 1 [''b'', ''c''])] = Some sr
    \<and> queryType sr = GroupByCmd \<and> sizeLimit sr < resultCount sr
    \<and> sAggs sr = Some exampleGroupByAggs \<and> GetNumBuckets exampleBlockresults sr = 3"
    by (simp add: example_defs exampleGroupByInit_def exampleGroupByAggs_def call_defs
        GetNumBuckets_def)
  then obtain sr3 where three:
    "applyCalls exampleBlockresults exampleGroupByInit
      [CallAddBlockResults (exampleBlock 1 [''a'', ''b'']),
       CallAddBlockResults (exampleBlock 1 [''b'', ''c''])] = Some sr3"
    "queryType sr3 = GroupByCmd" "sizeLimit sr3 < resultCount sr3"
    "sAggs sr3 = Some exampleGroupByAggs" "GetNumBuckets exampleBlockresults sr3 = 3"
    by blast
  have "ShouldSearchSegKey exampleBlockresults sr2 None OtherQuery False False = Some EetContSearch"
    using ShouldSearchSegKey_group_by [OF two(2) two(3) two(4) g, of exampleBlockresults]
    by (simp add: two(5))
  moreover have
    "ShouldSearchSegKey exampleBlockresults sr3 None OtherQuery False False = Some EetEarlyExit"
    using ShouldSearchSegKey_group_by [OF three(2) three(3) three(4) g, of exampleBlockresults]
    by (simp add: three(5))
  ultimately show ?thesis
    using two three g by simp
qed

section \<open>Unsupported measure functions\<close>

text \<open>
  C3 (as stated): a measure operation whose function is not one of the nine
  supported ones makes \<^verbatim>\<open>UpdateSegmentStats\<close> return a non-nil error. The \<^verbatim>\<open>default\<close>
  branch logs the error and returns the variable \<^verbatim>\<open>err\<close>, which is nil there: for
  a segment that has the measure's column the call returns nil, with the state as
  it was and the remaining measure operations not visited.
\<close>

theorem UpdateSegmentStats_unsupported_returns_nil:
  "UpdateSegmentStats st sr ((col, s) # others)
     (\<lparr> MeasureFunc = OtherFn n, MeasureCol = col, ValueColRequest = v, StrEnc = e \<rparr> # rest)
   = Some (None, sr)"
  by (simp add: UpdateSegmentStats_def updateMeasure_def)

section \<open>Finalizing\<close>

text \<open>
  C6: when \<^verbatim>\<open>statsAreFinal\<close> is already true, \<^verbatim>\<open>SetFinalStatsFromNodeResult\<close> returns an
  error and leaves the whole state as it was; a call that returns nil has set
  \<^verbatim>\<open>statsAreFinal\<close>, so every later call fails in that way.
\<close>

theorem SetFinalStatsFromNodeResult_once:
  "(statsAreFinal sr \<longrightarrow>
      SetFinalStatsFromNodeResult parseFloat parseInt sr nodeResult
        = Some (Some ErrStatsAlreadyFinal, sr))
   \<and> (SetFinalStatsFromNodeResult parseFloat parseInt sr nodeResult = Some (None, sr') \<longrightarrow>
        statsAreFinal sr'
        \<and> (\<forall>nodeResult'. SetFinalStatsFromNodeResult parseFloat parseInt sr' nodeResult'
              = Some (Some ErrStatsAlreadyFinal, sr')))"
  by (auto simp: SetFinalStatsFromNodeResult_def Let_def
      split: if_splits option.splits prod.splits)

theorem SetFinalStatsFromNodeResult_once_witness:
  "map_option fst
      (SetFinalStatsFromNodeResult (\<lambda>s. None) (\<lambda>s. None) exampleStatsInit exampleNodeResult)
     = Some None
   \<and> map_option (statsAreFinal \<circ> snd)
      (SetFinalStatsFromNodeResult (\<lambda>s. None) (\<lambda>s. None) exampleStatsInit exampleNodeResult)
     = Some True
   \<and> Option.bind
      (SetFinalStatsFromNodeResult (\<lambda>s. None) (\<lambda>s. None) exampleStatsInit exampleNodeResult)
      (\<lambda>(err, sr'). map_option (\<lambda>(err', sr''). (err', sr'' = sr'))
        (SetFinalStatsFromNodeResult (\<lambda>s. None) (\<lambda>s. None) sr' exampleNodeResult))
     = Some (Some ErrStatsAlreadyFinal, True)"
proof -
  have "\<exists>sr'. SetFinalStatsFromNodeResult (\<lambda>s. None) (\<lambda>s. None) exampleStatsInit exampleNodeResult
      = Some (None, sr')"
    by (simp add: SetFinalStatsFromNodeResult_def example_defs exampleNodeResult_def
        exampleStatsInit_def InitSegmentStatsResults_def exampleStatsfuns_def)
  then obtain sr' where first:
    "SetFinalStatsFromNodeResult (\<lambda>s. None) (\<lambda>s. None) exampleStatsInit exampleNodeResult
      = Some (None, sr')"
    by blast
  from first SetFinalStatsFromNodeResult_once
    [of exampleStatsInit "\<lambda>s. None" "\<lambda>s. None" exampleNodeResult sr']
  have final: "statsAreFinal sr'"
    and again: "SetFinalStatsFromNodeResult (\<lambda>s. None) (\<lambda>s. None) sr' exampleNodeResult
      = Some (Some ErrStatsAlreadyFinal, sr')"
    by blast+
  from final SetFinalStatsFromNodeResult_once
    [of sr' "\<lambda>s. None" "\<lambda>s. None" exampleNodeResult sr']
  have "SetFinalStatsFromNodeResult (\<lambda>s. None) (\<lambda>s. None) sr' exampleNodeResult
      = Some (Some ErrStatsAlreadyFinal, sr')"
    by blast
  with first final show ?thesis by simp
qed

section \<open>Pending segment statistics\<close>

text \<open>
  C10: \<^verbatim>\<open>GetEncodedSegStats\<close> removes the entry of the segment encoding as part of the
  call; when there is no entry it returns \<^verbatim>\<open>(nil, nil)\<close> and changes nothing; a
  second fetch of the same encoding therefore returns \<^verbatim>\<open>(nil, nil)\<close>, whatever the
  first one returned.
\<close>

theorem GetEncodedSegStats_at_most_once:
  "allSSTS (snd (GetEncodedSegStats st sr segKeyEnc)) = (allSSTS sr)(segKeyEnc := None)
   \<and> (allSSTS sr segKeyEnc = None \<longrightarrow> GetEncodedSegStats st sr segKeyEnc = ((None, None), sr))
   \<and> GetEncodedSegStats st (snd (GetEncodedSegStats st sr segKeyEnc)) segKeyEnc
       = ((None, None), snd (GetEncodedSegStats st sr segKeyEnc))"
proof -
  have deleted: "allSSTS (snd (GetEncodedSegStats st x segKeyEnc)) = (allSSTS x)(segKeyEnc := None)"
    for x :: "('a, 'b) SearchResults"
    by (simp add: GetEncodedSegStats_def Let_def split: option.splits sum.splits)
  have missing: "GetEncodedSegStats st x segKeyEnc = ((None, None), x)"
    if "allSSTS x segKeyEnc = None" for x :: "('a, 'b) SearchResults"
  proof -
    have "(allSSTS x)(segKeyEnc := None) = allSSTS x"
      using that by (simp add: fun_upd_idem)
    then show ?thesis
      using that by (simp add: GetEncodedSegStats_def)
  qed
  have "allSSTS (snd (GetEncodedSegStats st sr segKeyEnc)) segKeyEnc = None"
    by (simp add: deleted)
  then show ?thesis
    using deleted missing by blast
qed

text \<open>A fetch before anything was stored, and two fetches after \<^verbatim>\<open>AddSSTMap\<close>.\<close>

theorem GetEncodedSegStats_at_most_once_witness:
  "allSSTS exampleInit 5 = None
   \<and> GetEncodedSegStats exampleStatsfuns exampleInit 5 = ((None, None), exampleInit)
   \<and> fst (GetEncodedSegStats exampleStatsfuns (AddSSTMap exampleInit [(''latency'', None)] 5) 5)
     = (Some ''latency'', None)
   \<and> fst (GetEncodedSegStats exampleStatsfuns
        (snd (GetEncodedSegStats exampleStatsfuns (AddSSTMap exampleInit [(''latency'', None)] 5) 5)) 5)
     = (None, None)"
proof -
  let ?stored = "AddSSTMap exampleInit [(''latency'', None)] 5"
  have none: "allSSTS exampleInit 5 = None"
    by (simp add: example_defs)
  from none GetEncodedSegStats_at_most_once [of exampleStatsfuns exampleInit 5]
  have "GetEncodedSegStats exampleStatsfuns exampleInit 5 = ((None, None), exampleInit)"
    by blast
  moreover have "fst (GetEncodedSegStats exampleStatsfuns ?stored 5) = (Some ''latency'', None)"
    by (simp add: GetEncodedSegStats_def AddSSTMap_def exampleStatsfuns_def)
  moreover from GetEncodedSegStats_at_most_once [of exampleStatsfuns ?stored 5]
  have "fst (GetEncodedSegStats exampleStatsfuns
      (snd (GetEncodedSegStats exampleStatsfuns ?stored 5)) 5) = (None, None)"
    by simp
  ultimately show ?thesis using none by simp
qed

section \<open>The segment-key table\<close>

lemma GetAddSegEnc_seen: "SegKeyToEnc sr sk = Some e \<Longrightarrow> GetAddSegEnc sr sk = (e, sr)"
  by (simp add: GetAddSegEnc_def)

lemma GetAddSegEnc_unseen:
  "SegKeyToEnc sr sk = None \<Longrightarrow>
    GetAddSegEnc sr sk =
      (MaxSegKeyEnc sr,
       sr \<lparr> SegEncToKey := (SegEncToKey sr)(MaxSegKeyEnc sr \<mapsto> sk),
            SegKeyToEnc := (SegKeyToEnc sr)(sk \<mapsto> MaxSegKeyEnc sr),
            MaxSegKeyEnc := MaxSegKeyEnc sr + 1 \<rparr>)"
  by (simp add: GetAddSegEnc_def)

lemma unat_enc: "n < 65535 \<Longrightarrow> unat (of_nat (Suc n) :: uint16) = Suc n"
  by (rule of_nat_inverse [OF refl]) simp

lemma segEncInv_step:
  assumes inv: "segEncInv sr n" and new: "SegKeyToEnc sr sk = None" and room: "n < 65535"
  shows "segEncInv (snd (GetAddSegEnc sr sk)) (Suc n)"
proof -
  let ?e = "MaxSegKeyEnc sr"
  let ?K = "SegKeyToEnc sr" and ?E = "SegEncToKey sr"
  from inv have fin: "finite (dom ?K)" and card: "card (dom ?K) = n"
    and max: "?e = of_nat (Suc n)"
    and inverse: "\<And>k e. ?K k = Some e \<longleftrightarrow> ?E e = Some k"
    and used: "\<And>k e. ?K k = Some e \<Longrightarrow> 0 < unat e \<and> unat e \<le> n"
    by (auto simp: segEncInv_def)
  have ue: "unat ?e = Suc n"
    unfolding max by (rule unat_enc [OF room])
  have fresh: "?K k \<noteq> Some ?e" for k
    using used [of k ?e] ue by auto
  have freshE: "?E ?e = None"
  proof (cases "?E ?e")
    case None then show ?thesis .
  next
    case (Some k)
    then have "?K k = Some ?e" using inverse by simp
    with fresh show ?thesis by simp
  qed
  have notin: "sk \<notin> dom ?K" using new by auto
  let ?sr' = "snd (GetAddSegEnc sr sk)"
  have K': "SegKeyToEnc ?sr' = ?K(sk \<mapsto> ?e)" and E': "SegEncToKey ?sr' = ?E(?e \<mapsto> sk)"
    and M': "MaxSegKeyEnc ?sr' = ?e + 1"
    using new by (simp_all add: GetAddSegEnc_unseen)
  have 1: "finite (dom (SegKeyToEnc ?sr'))" using fin by (simp add: K')
  have 2: "card (dom (SegKeyToEnc ?sr')) = Suc n"
    using fin card notin by (simp add: K')
  have 3: "MaxSegKeyEnc ?sr' = of_nat (Suc (Suc n))"
    by (simp add: M' max)
  have 4: "SegKeyToEnc ?sr' k = Some e \<longleftrightarrow> SegEncToKey ?sr' e = Some k" for k e
  proof (cases "k = sk")
    case True
    show ?thesis
    proof (cases "e = ?e")
      case True
      with \<open>k = sk\<close> show ?thesis by (simp add: K' E')
    next
      case False
      have "?E e \<noteq> Some sk" using inverse [of sk e] new by simp
      with False \<open>k = sk\<close> show ?thesis by (auto simp: K' E')
    qed
  next
    case False
    show ?thesis
    proof (cases "e = ?e")
      case True
      with False fresh [of k] show ?thesis by (auto simp: K' E')
    next
      case e: False
      with False inverse [of k e] show ?thesis by (simp add: K' E')
    qed
  qed
  have 5: "0 < unat e \<and> unat e \<le> Suc n" if "SegKeyToEnc ?sr' k = Some e" for k e
  proof (cases "k = sk")
    case True
    with that have "e = ?e" by (simp add: K')
    with ue show ?thesis by simp
  next
    case False
    with that have "?K k = Some e" by (simp add: K')
    from used [OF this] show ?thesis by simp
  qed
  from 1 2 3 4 5 show ?thesis
    unfolding segEncInv_def by blast
qed

lemma addSegKeys_invariant:
  assumes "segEncInv sr n" and "card (dom (SegKeyToEnc sr) \<union> set sks) \<le> 65535"
  shows "segEncInv (addSegKeys sr sks) (card (dom (SegKeyToEnc sr) \<union> set sks))
    \<and> dom (SegKeyToEnc (addSegKeys sr sks)) = dom (SegKeyToEnc sr) \<union> set sks"
  using assms
proof (induction sks arbitrary: sr n)
  case Nil
  then show ?case by (simp add: segEncInv_def)
next
  case (Cons sk sks)
  let ?sr' = "snd (GetAddSegEnc sr sk)"
  from Cons.prems(1) have fin: "finite (dom (SegKeyToEnc sr))" and n: "card (dom (SegKeyToEnc sr)) = n"
    by (auto simp: segEncInv_def)
  have dom': "dom (SegKeyToEnc ?sr') = insert sk (dom (SegKeyToEnc sr))"
    by (cases "SegKeyToEnc sr sk") (auto simp: GetAddSegEnc_unseen GetAddSegEnc_seen)
  have un: "dom (SegKeyToEnc ?sr') \<union> set sks = dom (SegKeyToEnc sr) \<union> set (sk # sks)"
    by (simp add: dom')
  have "\<exists>m. segEncInv ?sr' m"
  proof (cases "SegKeyToEnc sr sk")
    case None
    have "insert sk (dom (SegKeyToEnc sr)) \<subseteq> dom (SegKeyToEnc sr) \<union> set (sk # sks)" by auto
    then have "card (insert sk (dom (SegKeyToEnc sr))) \<le> card (dom (SegKeyToEnc sr) \<union> set (sk # sks))"
      using fin by (intro card_mono) auto
    moreover have "card (insert sk (dom (SegKeyToEnc sr))) = Suc n"
      using None fin n by (simp add: domIff)
    ultimately have "n < 65535" using Cons.prems(2) by simp
    from segEncInv_step [OF Cons.prems(1) None this] show ?thesis by blast
  next
    case (Some e)
    then show ?thesis using Cons.prems(1) by (auto simp: GetAddSegEnc_seen)
  qed
  then obtain m where m: "segEncInv ?sr' m" by blast
  from Cons.IH [OF m] Cons.prems(2) un show ?case by simp
qed

lemma inj_segKey: "inj segKey"
  by (rule injI) (metis segKey_def length_replicate nat.inject)

lemma card_segKeys: "card (set (map segKey [0..<n])) = n"
proof -
  have "distinct (map segKey [0..<n])"
    by (simp add: distinct_map inj_segKey [THEN inj_on_subset])
  then show ?thesis
    by (metis distinct_card length_map length_upt diff_zero)
qed

lemma segEncInv_init:
  "InitSearchResults br lim aggs qt q = Inr sr0 \<Longrightarrow> segEncInv sr0 0"
  by (auto simp: InitSearchResults_def segEncInv_def split: sum.splits)

text \<open>
  C8 (as stated): encoding 0 is never assigned and the two maps always remain
  mutually inverse. \<^verbatim>\<open>MaxSegKeyEnc\<close> is a \<^verbatim>\<open>uint16\<close>: after 65535 distinct keys it has
  wrapped to 0, and the next unseen key gets the encoding 0.
\<close>

theorem GetAddSegEnc_assigns_zero:
  "SegKeyToEnc (addSegKeys exampleInit (map segKey [0..<65535])) (segKey 65535) = None
   \<and> fst (GetAddSegEnc (addSegKeys exampleInit (map segKey [0..<65535])) (segKey 65535)) = 0"
proof -
  let ?sks = "map segKey [0..<65535]"
  let ?sr = "addSegKeys exampleInit ?sks"
  have init: "segEncInv exampleInit 0"
    by (rule segEncInv_init [OF exampleInit_eq])
  have empty: "dom (SegKeyToEnc exampleInit) = {}"
    by (simp add: example_defs)
  have "card (dom (SegKeyToEnc exampleInit) \<union> set ?sks) \<le> 65535"
    unfolding empty using card_segKeys [of 65535] by simp
  from addSegKeys_invariant [OF init this]
  have inv: "segEncInv ?sr 65535" and dom: "dom (SegKeyToEnc ?sr) = set ?sks"
    unfolding empty using card_segKeys [of 65535] by simp_all
  have "segKey 65535 \<notin> set ?sks"
    by (auto dest: injD [OF inj_segKey])
  with dom have unseen: "SegKeyToEnc ?sr (segKey 65535) = None"
    by blast
  from inv have "MaxSegKeyEnc ?sr = 0"
    by (simp add: segEncInv_def)
  with unseen show ?thesis
    by (simp add: GetAddSegEnc_unseen)
qed

text \<open>
  C8 (amended): \<^verbatim>\<open>GetAddSegEnc\<close> returns the stored encoding of a key already seen and
  changes nothing; for an unseen key it returns \<^verbatim>\<open>MaxSegKeyEnc\<close>, stores the pair in
  both maps and increments the counter. \<^verbatim>\<open>MaxSegKeyEnc\<close> starts at 1. As long as at
  most 65535 distinct keys have been registered, no key has the encoding 0 and
  \<^verbatim>\<open>SegKeyToEnc\<close> and \<^verbatim>\<open>SegEncToKey\<close> are inverse to each other.
\<close>

theorem GetAddSegEnc_table:
  assumes init: "InitSearchResults br sizeLimit' aggs qType qid' = Inr sr0"
    and few: "card (set sks) \<le> 65535"
    and sr: "sr = addSegKeys sr0 sks"
  shows "(\<forall>sk e. SegKeyToEnc sr sk = Some e \<longrightarrow> GetAddSegEnc sr sk = (e, sr))
    \<and> (\<forall>sk. SegKeyToEnc sr sk = None \<longrightarrow>
          fst (GetAddSegEnc sr sk) = MaxSegKeyEnc sr
          \<and> MaxSegKeyEnc (snd (GetAddSegEnc sr sk)) = MaxSegKeyEnc sr + 1
          \<and> SegKeyToEnc (snd (GetAddSegEnc sr sk)) sk = Some (MaxSegKeyEnc sr)
          \<and> SegEncToKey (snd (GetAddSegEnc sr sk)) (MaxSegKeyEnc sr) = Some sk)
    \<and> MaxSegKeyEnc sr0 = 1
    \<and> dom (SegKeyToEnc sr) = set sks
    \<and> (\<forall>sk. SegKeyToEnc sr sk \<noteq> Some 0)
    \<and> (\<forall>sk e. SegKeyToEnc sr sk = Some e \<longleftrightarrow> SegEncToKey sr e = Some sk)"
proof -
  have inv0: "segEncInv sr0 0"
    by (rule segEncInv_init [OF init])
  have empty: "dom (SegKeyToEnc sr0) = {}"
    using init by (auto simp: InitSearchResults_def split: sum.splits)
  have start: "MaxSegKeyEnc sr0 = 1"
    using inv0 by (simp add: segEncInv_def)
  have "card (dom (SegKeyToEnc sr0) \<union> set sks) \<le> 65535"
    using few by (simp add: empty)
  from addSegKeys_invariant [OF inv0 this]
  have inv: "segEncInv sr (card (set sks))" and dom: "dom (SegKeyToEnc sr) = set sks"
    by (simp_all add: empty sr)
  have pos: "0 < unat e" if "SegKeyToEnc sr sk = Some e" for sk e
    using inv that unfolding segEncInv_def by blast
  have nonzero: "SegKeyToEnc sr sk \<noteq> Some 0" for sk
    using pos [of sk 0] by auto
  from inv have inverse: "SegKeyToEnc sr sk = Some e \<longleftrightarrow> SegEncToKey sr e = Some sk" for sk e
    by (simp add: segEncInv_def)
  have seen: "GetAddSegEnc sr sk = (e, sr)" if "SegKeyToEnc sr sk = Some e" for sk e
    using that by (rule GetAddSegEnc_seen)
  have unseen: "fst (GetAddSegEnc sr sk) = MaxSegKeyEnc sr
      \<and> MaxSegKeyEnc (snd (GetAddSegEnc sr sk)) = MaxSegKeyEnc sr + 1
      \<and> SegKeyToEnc (snd (GetAddSegEnc sr sk)) sk = Some (MaxSegKeyEnc sr)
      \<and> SegEncToKey (snd (GetAddSegEnc sr sk)) (MaxSegKeyEnc sr) = Some sk"
    if "SegKeyToEnc sr sk = None" for sk
    using that by (simp add: GetAddSegEnc_unseen)
  from seen unseen start dom nonzero inverse show ?thesis
    by blast
qed

theorem GetAddSegEnc_table_witness:
  "InitSearchResults exampleBlockresults 2 None RRCCmd 0 = Inr exampleInit
   \<and> card (set [''seg-a'', ''seg-b'', ''seg-a'']) \<le> 65535
   \<and> SegKeyToEnc (addSegKeys exampleInit [''seg-a'', ''seg-b'', ''seg-a'']) ''seg-b'' = Some 2
   \<and> GetAddSegEnc (addSegKeys exampleInit [''seg-a'', ''seg-b'', ''seg-a'']) ''seg-b''
     = (2, addSegKeys exampleInit [''seg-a'', ''seg-b'', ''seg-a''])
   \<and> SegEncToKey (addSegKeys exampleInit [''seg-a'', ''seg-b'', ''seg-a'']) 2 = Some ''seg-b''
   \<and> dom (SegKeyToEnc (addSegKeys exampleInit [''seg-a'', ''seg-b'', ''seg-a'']))
     = {''seg-a'', ''seg-b''}"
proof -
  let ?sks = "[''seg-a'', ''seg-b'', ''seg-a'']"
  let ?sr = "addSegKeys exampleInit ?sks"
  have few: "card (set ?sks) \<le> 65535"
    by (rule order_trans [OF card_length]) simp
  have b: "SegKeyToEnc ?sr ''seg-b'' = Some 2"
    by (simp add: GetAddSegEnc_def example_defs)
  from GetAddSegEnc_table [OF exampleInit_eq few refl] b
  have "GetAddSegEnc ?sr ''seg-b'' = (2, ?sr)"
    and "SegEncToKey ?sr 2 = Some ''seg-b''"
    and "dom (SegKeyToEnc ?sr) = set ?sks"
    by blast+
  with exampleInit_eq few b show ?thesis
    by auto
qed

section \<open>The row limit of the bucket rows\<close>

lemma groupByValuesOf_length:
  "groupByValuesOf sprintf bKey = (vals, n) \<Longrightarrow> n = int (length vals)"
  by (cases bKey) (auto simp: groupByValuesOf_def)

lemma groupByValuesOf_counted:
  "groupByValuesOf sprintf bKey = (vals, n) \<Longrightarrow> countedKey bKey \<Longrightarrow> vals \<noteq> []"
  by (cases bKey) (auto simp: groupByValuesOf_def)

lemma convertResults_keyed:
  assumes "int (length (keyedRows arr)) \<le> added" and "length (keyedRows arr) \<le> nat limit"
    and "convertResults getValue sprintf limit rs (arr, added, mf) = (arr', added', mf')"
  shows "int (length (keyedRows arr')) \<le> added' \<and> length (keyedRows arr') \<le> nat limit"
  using assms
proof (induction rs arbitrary: arr added mf)
  case Nil
  then show ?case by simp
next
  case (Cons r rs)
  show ?case
  proof (cases "added \<ge> limit")
    case True
    with Cons.prems show ?thesis by (simp add: Let_def)
  next
    case False
    obtain vals n where g: "groupByValuesOf sprintf (BucketKey r) = (vals, n)"
      by (cases "groupByValuesOf sprintf (BucketKey r)")
    then have n: "n = int (length vals)" by (rule groupByValuesOf_length)
    let ?row = "\<lparr> GroupByValues = vals, MeasureVal = map_of (measureVals getValue (StatRes r)) \<rparr>"
    from Cons.prems(3) False g
    have rec: "convertResults getValue sprintf limit rs
        (arr @ [?row], added + n, mf @ map fst (measureVals getValue (StatRes r)))
      = (arr', added', mf')"
      by (simp add: Let_def)
    have pos: "1 \<le> int (length vals)" if "vals \<noteq> []"
      using that by (cases vals) simp_all
    have 1: "int (length (keyedRows (arr @ [?row]))) \<le> added + n"
      using Cons.prems(1) n pos by (auto simp: keyedRows_def)
    have 2: "length (keyedRows (arr @ [?row])) \<le> nat limit"
      using Cons.prems(1,2) False by (auto simp: keyedRows_def)
    from Cons.IH [OF 1 2 rec] show ?thesis .
  qed
qed

lemma convertAggs_keyed:
  assumes "int (length (keyedRows arr)) \<le> added" and "length (keyedRows arr) \<le> nat limit"
    and "convertAggs getValue sprintf limit aggRes (arr, added, mf) = (arr', added', mf')"
  shows "int (length (keyedRows arr')) \<le> added' \<and> length (keyedRows arr') \<le> nat limit"
  using assms
proof (induction aggRes arbitrary: arr added mf)
  case Nil
  then show ?case by simp
next
  case (Cons a aggRes)
  obtain name agg where a: "a = (name, agg)" by (cases a)
  obtain arr1 added1 mf1 where
    inner: "convertResults getValue sprintf limit (Results agg) (arr, added, mf) = (arr1, added1, mf1)"
    by (cases "convertResults getValue sprintf limit (Results agg) (arr, added, mf)")
  from convertResults_keyed [OF Cons.prems(1,2) inner]
  have 1: "int (length (keyedRows arr1)) \<le> added1" and 2: "length (keyedRows arr1) \<le> nat limit"
    by simp_all
  from Cons.prems(3) have "convertAggs getValue sprintf limit aggRes (arr1, added1, mf1) = (arr', added', mf')"
    by (simp add: a inner)
  from Cons.IH [OF 1 2 this] show ?case .
qed

lemma convertResults_all_keyed:
  assumes "keyedRows arr = arr" and "\<forall>r \<in> set rs. countedKey (BucketKey r)"
    and "convertResults getValue sprintf limit rs (arr, added, mf) = (arr', added', mf')"
  shows "keyedRows arr' = arr'"
  using assms
proof (induction rs arbitrary: arr added mf)
  case Nil
  then show ?case by simp
next
  case (Cons r rs)
  show ?case
  proof (cases "added \<ge> limit")
    case True
    with Cons.prems show ?thesis by (simp add: Let_def)
  next
    case False
    obtain vals n where g: "groupByValuesOf sprintf (BucketKey r) = (vals, n)"
      by (cases "groupByValuesOf sprintf (BucketKey r)")
    with Cons.prems(2) have ne: "vals \<noteq> []"
      by (auto dest: groupByValuesOf_counted)
    let ?row = "\<lparr> GroupByValues = vals, MeasureVal = map_of (measureVals getValue (StatRes r)) \<rparr>"
    from Cons.prems(3) False g
    have rec: "convertResults getValue sprintf limit rs
        (arr @ [?row], added + n, mf @ map fst (measureVals getValue (StatRes r)))
      = (arr', added', mf')"
      by (simp add: Let_def)
    have 1: "keyedRows (arr @ [?row]) = arr @ [?row]"
      using Cons.prems(1) ne by (simp add: keyedRows_def)
    from Cons.prems(2) have 2: "\<forall>r \<in> set rs. countedKey (BucketKey r)" by simp
    from Cons.IH [OF 1 2 rec] show ?thesis .
  qed
qed

lemma convertAggs_all_keyed:
  assumes "keyedRows arr = arr"
    and "\<forall>agg \<in> snd ` set aggRes. \<forall>r \<in> set (Results agg). countedKey (BucketKey r)"
    and "convertAggs getValue sprintf limit aggRes (arr, added, mf) = (arr', added', mf')"
  shows "keyedRows arr' = arr'"
  using assms
proof (induction aggRes arbitrary: arr added mf)
  case Nil
  then show ?case by simp
next
  case (Cons a aggRes)
  obtain name agg where a: "a = (name, agg)" by (cases a)
  obtain arr1 added1 mf1 where
    inner: "convertResults getValue sprintf limit (Results agg) (arr, added, mf) = (arr1, added1, mf1)"
    by (cases "convertResults getValue sprintf limit (Results agg) (arr, added, mf)")
  from Cons.prems(2) a have "\<forall>r \<in> set (Results agg). countedKey (BucketKey r)" by simp
  from convertResults_all_keyed [OF Cons.prems(1) this inner]
  have 1: "keyedRows arr1 = arr1" .
  from Cons.prems(2) have 2: "\<forall>agg \<in> snd ` set aggRes. \<forall>r \<in> set (Results agg). countedKey (BucketKey r)"
    by simp
  from Cons.prems(3) have "convertAggs getValue sprintf limit aggRes (arr1, added1, mf1) = (arr', added', mf')"
    by (simp add: a inner)
  from Cons.IH [OF 1 2 this] show ?case .
qed

text \<open>
  C7 (as stated): for every limit and every bucket map the function emits at most
  \<^verbatim>\<open>limit\<close> rows. The counter compared with \<^verbatim>\<open>limit\<close> counts group-by values, not
  rows: a bucket whose key is an empty sequence or of a type outside the type
  switch adds a row and leaves the counter as it is.
\<close>

theorem CreateMeasResultsFromAggResults_exceeds_limit:
  "length (fst (CreateMeasResultsFromAggResults exampleGetValue exampleSprintf 1
      [(''by_host'',
        \<lparr> Results = [exampleBucket VOther, exampleBucket (VStringSlice []),
                      exampleBucket (VString ''web-1''), exampleBucket (VString ''web-2'')] \<rparr>)]))
   = 3"
  by (simp add: CreateMeasResultsFromAggResults_def exampleBucket_def groupByValuesOf_def
      measureVals_def exampleGetValue_def)

text \<open>
  C7 (amended): when every bucket key is a number, a string or a non-empty sequence,
  the function emits at most \<^verbatim>\<open>limit\<close> rows (none when \<^verbatim>\<open>limit\<close> is not positive), for
  every limit and every bucket map, composite keys and several aggregation names
  included. In general the rows that carry at least one group-by value are at most
  \<^verbatim>\<open>limit\<close>.
\<close>

theorem CreateMeasResultsFromAggResults_limit:
  "length (keyedRows (fst (CreateMeasResultsFromAggResults getValue sprintf limit aggRes)))
     \<le> nat limit
   \<and> ((\<forall>agg \<in> snd ` set aggRes. \<forall>r \<in> set (Results agg). countedKey (BucketKey r))
      \<longrightarrow> length (fst (CreateMeasResultsFromAggResults getValue sprintf limit aggRes)) \<le> nat limit)"
proof -
  obtain arr added mf where
    run: "convertAggs getValue sprintf limit aggRes ([], 0, []) = (arr, added, mf)"
    by (cases "convertAggs getValue sprintf limit aggRes ([], 0, [])")
  then have rows: "fst (CreateMeasResultsFromAggResults getValue sprintf limit aggRes) = arr"
    by (simp add: CreateMeasResultsFromAggResults_def)
  have "int (length (keyedRows ([] :: 'a BucketHolder list))) \<le> 0"
    and "length (keyedRows ([] :: 'a BucketHolder list)) \<le> nat limit"
    by (simp_all add: keyedRows_def)
  from convertAggs_keyed [OF this run] have keyed: "length (keyedRows arr) \<le> nat limit"
    by simp
  have "length arr \<le> nat limit"
    if "\<forall>agg \<in> snd ` set aggRes. \<forall>r \<in> set (Results agg). countedKey (BucketKey r)"
  proof -
    have "keyedRows ([] :: 'a BucketHolder list) = []" by (simp add: keyedRows_def)
    from convertAggs_all_keyed [OF this that run] keyed show ?thesis by simp
  qed
  with keyed rows show ?thesis by simp
qed

theorem CreateMeasResultsFromAggResults_limit_witness:
  "list_all (\<lambda>agg. list_all (\<lambda>r. countedKey (BucketKey r)) (Results agg))
      (map snd
        [(''by_host'', \<lparr> Results = [exampleBucket (VStringSlice [''web-1'', ''eu'']),
                                    exampleBucket (VStringSlice [''web-2'', ''us''])] \<rparr>),
         (''by_time'', \<lparr> Results = [exampleBucket (VUint64 1000)] \<rparr>)])
   \<and> length (fst (CreateMeasResultsFromAggResults exampleGetValue exampleSprintf 3
        [(''by_host'', \<lparr> Results = [exampleBucket (VStringSlice [''web-1'', ''eu'']),
                                    exampleBucket (VStringSlice [''web-2'', ''us''])] \<rparr>),
         (''by_time'', \<lparr> Results = [exampleBucket (VUint64 1000)] \<rparr>)]))
     = 2
   \<and> (2::nat) \<le> nat 3"
proof -
  let ?aggRes = "[(''by_host'', \<lparr> Results = [exampleBucket (VStringSlice [''web-1'', ''eu'']),
                                    exampleBucket (VStringSlice [''web-2'', ''us''])] \<rparr>),
         (''by_time'', \<lparr> Results = [exampleBucket (VUint64 1000)] \<rparr>)]"
  have keys: "\<forall>agg \<in> snd ` set ?aggRes. \<forall>r \<in> set (Results agg). countedKey (BucketKey r)"
    by (simp add: exampleBucket_def)
  with CreateMeasResultsFromAggResults_limit [of exampleGetValue exampleSprintf 3 ?aggRes]
  have "length (fst (CreateMeasResultsFromAggResults exampleGetValue exampleSprintf 3 ?aggRes))
    \<le> nat 3"
    by blast
  moreover have
    "length (fst (CreateMeasResultsFromAggResults exampleGetValue exampleSprintf 3 ?aggRes)) = 2"
    by (simp add: CreateMeasResultsFromAggResults_def exampleBucket_def groupByValuesOf_def
      measureVals_def exampleGetValue_def)
  ultimately show ?thesis
    by (simp add: exampleBucket_def)
qed

section \<open>Merging the values of a column\<close>

lemma segmentValues_currStrSet:
  "segmentValues s col = currStrSet (case map_of s col of None \<Rightarrow> None | Some p \<Rightarrow> p)"
  by (simp add: segmentValues_def currStrSet_def split: option.splits)

lemma segmentValues_missing: "map_of s col = None \<Longrightarrow> segmentValues s col = {||}"
  by (simp add: segmentValues_def)

text \<open>One iteration for a plain Values measure whose running slot is nil.\<close>

lemma valuesStat_plain:
  assumes plain: "ValueColRequest m' = None"
    and slot: "idx < length (runningSegStat sr)" "runningSegStat sr ! idx = None"
    and res: "segStatsResults sr = Some r"
    and ev: "\<forall>y. runningEvalStats sr (String_of st m') \<noteq> Some (OtherStat y)"
  shows "\<exists>sr'. valuesStat st s sr idx m' currSst = Some (Continue sr')
    \<and> runningSegStat sr' = runningSegStat sr
    \<and> runningEvalStats sr' = (runningEvalStats sr)(String_of st m' \<mapsto>
          StrSetStat (runningValues (runningEvalStats sr) (String_of st m') |\<union>| currStrSet currSst))
    \<and> segStatsResults sr' = Some (r \<lparr> measureResults := (measureResults r)(String_of st m' \<mapsto>
          valuesEnclosure (runningValues (runningEvalStats sr) (String_of st m') |\<union>| currStrSet currSst)) \<rparr>)"
proof (cases "runningEvalStats sr (String_of st m')")
  case None
  with plain slot res show ?thesis
    by (simp add: valuesStat_def Let_def setMeasureResult_def runningValues_def valuesEnclosure_def)
next
  case (Some v)
  with ev obtain x where "v = StrSetStat x" by (cases v) auto
  with Some plain slot res show ?thesis
    by (simp add: valuesStat_def Let_def setMeasureResult_def runningValues_def valuesEnclosure_def)
qed


text \<open>What one iteration for a measure of another name leaves as it is.\<close>

lemma keepsEntry_skip: "keepsEntry n idx b sr (Some (Continue sr))"
  by (simp add: keepsEntry_def)

lemma evalResults_keeps:
  assumes "\<And>mr. snd (f mr) n = mr n"
  shows "keepsEntry n idx b sr (evalResults sr f)"
proof (cases "segStatsResults sr")
  case None
  then show ?thesis by (simp add: evalResults_def keepsEntry_def)
next
  case (Some r)
  obtain err mr' where f: "f (measureResults r) = (err, mr')" by (metis prod.exhaust)
  with assms [of "measureResults r"] have "mr' n = measureResults r n" by simp
  with Some f show ?thesis
    by (cases err) (simp_all add: evalResults_def keepsEntry_def Let_def)
qed

lemma evalRunning_keeps:
  assumes "\<And>mr ev. fst (snd (f mr ev)) n = mr n" and "\<And>mr ev. snd (snd (f mr ev)) n = ev n"
  shows "keepsEntry n idx b sr (evalRunning sr f)"
proof (cases "segStatsResults sr")
  case None
  then show ?thesis by (simp add: evalRunning_def keepsEntry_def)
next
  case (Some r)
  obtain err mr' ev' where f: "f (measureResults r) (runningEvalStats sr) = (err, mr', ev')"
    by (metis prod.exhaust)
  with assms(1) [of "measureResults r" "runningEvalStats sr"]
    assms(2) [of "measureResults r" "runningEvalStats sr"]
  have "mr' n = measureResults r n" "ev' n = runningEvalStats sr n" by simp_all
  with Some f show ?thesis
    by (cases err) (simp_all add: evalRunning_def keepsEntry_def Let_def)
qed

lemma plainStat_keeps:
  assumes "String_of st m' \<noteq> n"
  shows "keepsEntry n idx False sr (plainStat st sr idx m' currSst g)"
  using assms
  by (auto simp: keepsEntry_def plainStat_def Let_def setMeasureResult_def
      split: if_splits prod.splits option.splits sum.splits step.splits)

lemma plainList_keeps:
  assumes "String_of st m' \<noteq> n"
  shows "keepsEntry n idx False sr (plainList st sr idx m' currSst)"
  using assms
  by (auto simp: keepsEntry_def plainList_def Let_def setMeasureResult_def
      split: if_splits prod.splits option.splits sum.splits step.splits)

lemma valuesStat_keeps:
  assumes other: "String_of st m' \<noteq> n"
    and frame: "\<And>mr x. fst (snd (ComputeAggEvalForValues st m' s mr x)) n = mr n"
    and slot: "idx < length (runningSegStat sr) \<longrightarrow> runningSegStat sr ! idx = None"
  shows "keepsEntry n idx True sr (valuesStat st s sr idx m' currSst)"
proof (cases "ValueColRequest m'")
  case None
  show ?thesis
  proof (cases "\<exists>y. runningEvalStats sr (String_of st m') = Some (OtherStat y)")
    case True
    then show ?thesis using None
      by (auto simp: keepsEntry_def valuesStat_def Let_def)
  next
    case False
    then have ev: "\<forall>y. runningEvalStats sr (String_of st m') \<noteq> Some (OtherStat y)" by simp
    show ?thesis
    proof (cases "idx < length (runningSegStat sr) \<and> segStatsResults sr \<noteq> None")
      case True
      with slot obtain r where r: "segStatsResults sr = Some r"
        and s1: "idx < length (runningSegStat sr)" and s2: "runningSegStat sr ! idx = None"
        by auto
      from valuesStat_plain [OF None s1 s2 r ev, of s currSst] other r
      show ?thesis by (auto simp: keepsEntry_def)
    next
      case False
      then have "valuesStat st s sr idx m' currSst = None"
        using None ev
        by (cases "runningEvalStats sr (String_of st m')")
          (auto simp: valuesStat_def Let_def setMeasureResult_def
            split: option.splits EvalStat.splits)
      then show ?thesis by (simp add: keepsEntry_def)
    qed
  qed
next
  case (Some v)
  show ?thesis
  proof (cases "segStatsResults sr")
    case None
    with Some show ?thesis
      by (auto simp: keepsEntry_def valuesStat_def Let_def split: option.splits EvalStat.splits)
  next
    case r: (Some r)
    have fr: "\<And>x e mr' x'. ComputeAggEvalForValues st m' s (measureResults r) x = (e, mr', x')
      \<Longrightarrow> mr' n = measureResults r n"
      using frame [of "measureResults r"] by (metis fst_conv snd_conv)
    from Some r other show ?thesis
      by (auto simp: keepsEntry_def valuesStat_def Let_def dest!: fr
          split: option.splits EvalStat.splits prod.splits)
  qed
qed

lemma updateMeasure_values:
  assumes fn: "MeasureFunc m' = Values" and plain: "ValueColRequest m' = None"
    and slot: "idx < length (runningSegStat sr)" "runningSegStat sr ! idx = None"
    and res: "segStatsResults sr = Some r"
    and ev: "\<forall>y. runningEvalStats sr (String_of st m') \<noteq> Some (OtherStat y)"
  shows "\<exists>sr'. updateMeasure st s sr idx m' = Some (Continue sr')
    \<and> runningSegStat sr' = runningSegStat sr
    \<and> (if map_of s (MeasureCol m') = None then sr' = sr
        else runningEvalStats sr' = (runningEvalStats sr)(String_of st m' \<mapsto>
               StrSetStat (runningValues (runningEvalStats sr) (String_of st m')
                 |\<union>| segmentValues s (MeasureCol m')))
          \<and> segStatsResults sr' = Some (r \<lparr> measureResults := (measureResults r)(String_of st m' \<mapsto>
               valuesEnclosure (runningValues (runningEvalStats sr) (String_of st m')
                 |\<union>| segmentValues s (MeasureCol m'))) \<rparr>))"
proof (cases "map_of s (MeasureCol m')")
  case None
  with fn plain show ?thesis
    by (simp add: updateMeasure_def Let_def)
next
  case (Some p)
  then have ne: "length s \<noteq> 0" by auto
  from valuesStat_plain [OF plain slot res ev, of s p]
  obtain sr' where
    "valuesStat st s sr idx m' p = Some (Continue sr')"
    "runningSegStat sr' = runningSegStat sr"
    "runningEvalStats sr' = (runningEvalStats sr)(String_of st m' \<mapsto>
          StrSetStat (runningValues (runningEvalStats sr) (String_of st m') |\<union>| currStrSet p))"
    "segStatsResults sr' = Some (r \<lparr> measureResults := (measureResults r)(String_of st m' \<mapsto>
          valuesEnclosure (runningValues (runningEvalStats sr) (String_of st m') |\<union>| currStrSet p)) \<rparr>)"
    by blast
  moreover have "segmentValues s (MeasureCol m') = currStrSet p"
    by (simp add: segmentValues_currStrSet Some)
  moreover have "updateMeasure st s sr idx m' = valuesStat st s sr idx m' p"
    using fn ne Some by (simp add: updateMeasure_def Let_def)
  ultimately show ?thesis using Some by simp
qed


lemma updateMeasure_keeps:
  assumes other: "String_of st m' \<noteq> n"
    and frame: "leavesEntry st n"
    and supported: "\<forall>k. MeasureFunc m' \<noteq> OtherFn k"
    and slot: "MeasureFunc m' = Values \<longrightarrow> idx < length (runningSegStat sr)
      \<longrightarrow> runningSegStat sr ! idx = None"
  shows "keepsEntry n idx (MeasureFunc m' = Values) sr (updateMeasure st s sr idx m')"
proof -
  let ?col = "if MeasureFunc m' = Count \<and> MeasureCol m' = ''*'' then fst (hd s) else MeasureCol m'"
  let ?c = "case map_of s ?col of None \<Rightarrow> None | Some p \<Rightarrow> p"
  note fr = frame [unfolded leavesEntry_def, rule_format, OF other]
  show ?thesis
  proof (cases "length s = 0 \<or> (map_of s ?col = None \<and> ValueColRequest m' = None)")
    case True
    then have "updateMeasure st s sr idx m' = Some (Continue sr)"
      by (auto simp: updateMeasure_def Let_def)
    then show ?thesis by (simp add: keepsEntry_skip)
  next
    case False
    then have go: "length s \<noteq> 0" "\<not> (map_of s ?col = None \<and> ValueColRequest m' = None)"
      by auto
    show ?thesis
    proof (cases "MeasureFunc m'")
      case Min_fn
      with go show ?thesis
        by (auto simp: updateMeasure_def Let_def
            intro!: evalResults_keeps plainStat_keeps [OF other] simp: fr)
    next
      case Max_fn
      with go show ?thesis
        by (auto simp: updateMeasure_def Let_def
            intro!: evalResults_keeps plainStat_keeps [OF other] simp: fr)
    next
      case Range
      with go show ?thesis
        by (auto simp: updateMeasure_def Let_def
            intro!: evalRunning_keeps plainStat_keeps [OF other] simp: fr)
    next
      case Cardinality
      with go show ?thesis
        by (auto simp: updateMeasure_def Let_def
            intro!: evalRunning_keeps plainStat_keeps [OF other] simp: fr)
    next
      case Count
      with go show ?thesis
        by (auto simp: updateMeasure_def Let_def
            intro!: evalResults_keeps plainStat_keeps [OF other] simp: fr)
    next
      case Sum
      with go show ?thesis
        by (auto simp: updateMeasure_def Let_def
            intro!: evalResults_keeps plainStat_keeps [OF other] simp: fr)
    next
      case Avg
      with go show ?thesis
        by (auto simp: updateMeasure_def Let_def
            intro!: evalRunning_keeps plainStat_keeps [OF other] simp: fr)
    next
      case Values
      have "keepsEntry n idx True sr (valuesStat st s sr idx m' ?c)"
        using slot Values by (intro valuesStat_keeps [OF other]) (simp_all add: fr)
      with go Values show ?thesis
        by (simp add: updateMeasure_def Let_def keepsEntry_skip)
    next
      case List_fn
      with go show ?thesis
        by (auto simp: updateMeasure_def Let_def
            intro!: evalRunning_keeps plainList_keeps [OF other] simp: fr)
    next
      case (OtherFn k)
      with supported show ?thesis by simp
    qed
  qed
qed

lemma updateMeasure_skip:
  "ValueColRequest m' = None \<Longrightarrow> MeasureFunc m' = Values \<Longrightarrow> map_of s (MeasureCol m') = None
    \<Longrightarrow> updateMeasure st s sr idx m' = Some (Continue sr)"
  by (simp add: updateMeasure_def Let_def)

lemma valuesInv_frame:
  assumes inv: "valuesInv ms n sr V b"
    and ev: "runningEvalStats sr1 n = runningEvalStats sr n"
    and res: "\<forall>r. segStatsResults sr = Some r \<longrightarrow>
      (\<exists>r'. segStatsResults sr1 = Some r' \<and> measureResults r' n = measureResults r n)"
    and len: "length (runningSegStat sr1) = length (runningSegStat sr)"
    and slots: "\<forall>i < length ms. MeasureFunc (ms ! i) = Values \<longrightarrow>
      runningSegStat sr1 ! i = runningSegStat sr ! i"
  shows "valuesInv ms n sr1 V b"
  using assms unfolding valuesInv_def by (auto; metis)

lemma valuesInv_running: "valuesInv ms n sr V b \<Longrightarrow> runningValues (runningEvalStats sr) n = V"
  by (auto simp: valuesInv_def runningValues_def split: if_splits)

lemma valuesInv_hit:
  assumes inv: "valuesInv ms n sr V b"
    and res: "segStatsResults sr = Some r"
    and ev1: "runningEvalStats sr1 = (runningEvalStats sr)(n \<mapsto>
        StrSetStat (runningValues (runningEvalStats sr) n |\<union>| X))"
    and res1: "segStatsResults sr1 = Some (r \<lparr> measureResults := (measureResults r)(n \<mapsto>
        valuesEnclosure (runningValues (runningEvalStats sr) n |\<union>| X)) \<rparr>)"
    and run1: "runningSegStat sr1 = runningSegStat sr"
  shows "valuesInv ms n sr1 (V |\<union>| X) True"
  using inv res ev1 res1 run1 valuesInv_running [OF inv]
  unfolding valuesInv_def by simp

lemma drop_ConsD:
  assumes "m' # rest' = drop idx ms"
  shows "idx < length ms" and "ms ! idx = m'" and "rest' = drop (Suc idx) ms" and "m' \<in> set ms"
proof -
  from assms have ne: "drop idx ms \<noteq> []" by auto
  then show lt: "idx < length ms" by simp
  from assms show nth: "ms ! idx = m'"
    by (metis nth_via_drop)
  from assms have "rest' = tl (drop idx ms)" by (metis list.sel(3))
  then show "rest' = drop (Suc idx) ms" by (simp add: drop_Suc tl_drop)
  from lt nth show "m' \<in> set ms" by (metis nth_mem)
qed

text \<open>One call that returns nil, from the measure at index \<open>idx\<close> on.\<close>

lemma updateMeasures_values:
  assumes supported: "\<forall>m' \<in> set ms. \<forall>k. MeasureFunc m' \<noteq> OtherFn k"
    and named: "\<forall>m' \<in> set ms. String_of st m' = n \<longrightarrow>
      MeasureFunc m' = Values \<and> ValueColRequest m' = None \<and> MeasureCol m' = c"
    and frame: "leavesEntry st n"
    and inv: "valuesInv ms n sr V b"
    and rest: "rest = drop idx ms"
    and run: "updateMeasures st s idx rest sr = Some (None, sr')"
  shows "valuesInv ms n sr'
    (if (\<exists>m' \<in> set rest. String_of st m' = n) \<and> map_of s c \<noteq> None then V |\<union>| segmentValues s c else V)
    ((\<exists>m' \<in> set rest. String_of st m' = n) \<and> map_of s c \<noteq> None \<or> b)"
  using inv rest run
proof (induction rest arbitrary: idx sr V b)
  case Nil
  then show ?case by simp
next
  case (Cons m' rest')
  note d = drop_ConsD [OF Cons.prems(2)]
  from supported d(4) have m'sup: "\<forall>k. MeasureFunc m' \<noteq> OtherFn k"
    by auto
  from Cons.prems(1) obtain r where r: "segStatsResults sr = Some r"
    by (auto simp: valuesInv_def)
  from Cons.prems(1) d(1,2)
  have slot: "MeasureFunc m' = Values \<longrightarrow>
      idx < length (runningSegStat sr) \<and> runningSegStat sr ! idx = None"
    by (auto simp: valuesInv_def)
  show ?case
  proof (cases "String_of st m' = n")
    case True
    with named d(4) have fn: "MeasureFunc m' = Values" and m'plain: "ValueColRequest m' = None"
      and col: "MeasureCol m' = c"
      by auto
    show ?thesis
    proof (cases "map_of s c")
      case None
      from updateMeasure_skip [OF m'plain fn None [folded col]]
      have "updateMeasure st s sr idx m' = Some (Continue sr)" .
      with Cons.prems(3) have "updateMeasures st s (Suc idx) rest' sr = Some (None, sr')"
        by simp
      from Cons.IH [OF Cons.prems(1) d(3) this] None show ?thesis by simp
    next
      case (Some p)
      from Cons.prems(1) True
      have ev: "\<forall>y. runningEvalStats sr (String_of st m') \<noteq> Some (OtherStat y)"
        by (auto simp: valuesInv_def split: if_splits)
      from slot fn have slot': "idx < length (runningSegStat sr)" "runningSegStat sr ! idx = None"
        by simp_all
      from updateMeasure_values [OF fn m'plain slot' r ev, where s = s] Some col
      obtain sr1 where step: "updateMeasure st s sr idx m' = Some (Continue sr1)"
        and run1: "runningSegStat sr1 = runningSegStat sr"
        and ev1: "runningEvalStats sr1 = (runningEvalStats sr)(String_of st m' \<mapsto>
             StrSetStat (runningValues (runningEvalStats sr) (String_of st m')
               |\<union>| segmentValues s (MeasureCol m')))"
        and res1: "segStatsResults sr1 = Some (r \<lparr> measureResults := (measureResults r)(String_of st m' \<mapsto>
             valuesEnclosure (runningValues (runningEvalStats sr) (String_of st m')
               |\<union>| segmentValues s (MeasureCol m'))) \<rparr>)"
        by auto
      from step Cons.prems(3) have next': "updateMeasures st s (Suc idx) rest' sr1 = Some (None, sr')"
        by simp
      from valuesInv_hit [OF Cons.prems(1) r ev1 [unfolded True col] res1 [unfolded True col] run1]
      have "valuesInv ms n sr1 (V |\<union>| segmentValues s c) True" .
      from Cons.IH [OF this d(3) next']
      have "valuesInv ms n sr' (V |\<union>| segmentValues s c) True"
        by (simp split: if_splits)
      with Some True show ?thesis by simp
    qed
  next
    case False
    from slot have slot': "MeasureFunc m' = Values \<longrightarrow> idx < length (runningSegStat sr)
      \<longrightarrow> runningSegStat sr ! idx = None"
      by simp
    note keeps = updateMeasure_keeps [OF False frame m'sup slot', where s = s]
    show ?thesis
    proof (cases "updateMeasure st s sr idx m'")
      case None
      with Cons.prems(3) show ?thesis by simp
    next
      case (Some outcome)
      show ?thesis
      proof (cases outcome)
        case (Return e sr1)
        with Some keeps have "e \<noteq> None" by (simp add: keepsEntry_def)
        with Some Return Cons.prems(3) show ?thesis by simp
      next
        case (Continue sr1)
        with Some keeps have
          ev1: "runningEvalStats sr1 n = runningEvalStats sr n"
          and len1: "length (runningSegStat sr1) = length (runningSegStat sr)"
          and slots1: "\<forall>i. i \<noteq> idx \<or> MeasureFunc m' = Values
            \<longrightarrow> runningSegStat sr1 ! i = runningSegStat sr ! i"
          and res1: "\<forall>r. segStatsResults sr = Some r \<longrightarrow>
            (\<exists>r'. segStatsResults sr1 = Some r' \<and> measureResults r' n = measureResults r n)"
          by (simp_all add: keepsEntry_def)
        have "valuesInv ms n sr1 V b"
        proof (rule valuesInv_frame [OF Cons.prems(1) ev1 res1 len1])
          show "\<forall>i < length ms. MeasureFunc (ms ! i) = Values \<longrightarrow>
            runningSegStat sr1 ! i = runningSegStat sr ! i"
            using slots1 d(2) by auto
        qed
        moreover from Some Continue Cons.prems(3)
        have "updateMeasures st s (Suc idx) rest' sr1 = Some (None, sr')" by simp
        ultimately have "valuesInv ms n sr'
          (if (\<exists>m' \<in> set rest'. String_of st m' = n) \<and> map_of s c \<noteq> None
           then V |\<union>| segmentValues s c else V)
          ((\<exists>m' \<in> set rest'. String_of st m' = n) \<and> map_of s c \<noteq> None \<or> b)"
          using Cons.IH d(3) by blast
        with False show ?thesis by simp
      qed
    qed
  qed
qed

text \<open>A sequence of calls that all return nil.\<close>

lemma updateSegments_values:
  assumes supported: "\<forall>m' \<in> set ms. \<forall>k. MeasureFunc m' \<noteq> OtherFn k"
    and named: "\<forall>m' \<in> set ms. String_of st m' = n \<longrightarrow>
      MeasureFunc m' = Values \<and> ValueColRequest m' = None \<and> MeasureCol m' = c"
    and frame: "leavesEntry st n"
    and m: "\<exists>m' \<in> set ms. String_of st m' = n"
    and inv: "valuesInv ms n sr V b"
    and run: "updateSegments st ms sr segs = Some (errs, sr')"
    and ok: "list_all (\<lambda>e. e = None) errs"
  shows "valuesInv ms n sr' (V |\<union>| allValues segs c) (b \<or> (\<exists>s \<in> set segs. map_of s c \<noteq> None))"
  using inv run ok
proof (induction segs arbitrary: sr V b errs)
  case Nil
  then show ?case by simp
next
  case (Cons s segs)
  from Cons.prems(2) obtain err sr1 errs' where
    first: "UpdateSegmentStats st sr s ms = Some (err, sr1)"
    and later: "updateSegments st ms sr1 segs = Some (errs', sr')"
    and errs: "errs = err # errs'"
    by (auto split: option.splits prod.splits)
  from errs Cons.prems(3) have nil: "err = None" and ok': "list_all (\<lambda>e. e = None) errs'"
    by simp_all
  from first nil have "updateMeasures st s 0 (drop 0 ms) sr = Some (None, sr1)"
    by (simp add: UpdateSegmentStats_def)
  from updateMeasures_values [OF supported named frame Cons.prems(1) refl this] m
  have "valuesInv ms n sr1 (if map_of s c \<noteq> None then V |\<union>| segmentValues s c else V)
      (map_of s c \<noteq> None \<or> b)"
    by simp
  moreover have "(if map_of s c \<noteq> None then V |\<union>| segmentValues s c else V)
      = V |\<union>| segmentValues s c"
    by (simp add: segmentValues_missing)
  ultimately have "valuesInv ms n sr1 (V |\<union>| segmentValues s c) (map_of s c \<noteq> None \<or> b)"
    by simp
  from Cons.IH [OF this later ok'] show ?case
    by (simp add: funion_assoc disj_ac)
qed

text \<open>When every measure is a plain Values measure, no call fails.\<close>

lemma updateMeasures_all_values:
  assumes all: "\<forall>m' \<in> set ms. MeasureFunc m' = Values \<and> ValueColRequest m' = None"
    and rest: "rest = drop idx ms"
    and res: "segStatsResults sr \<noteq> None"
    and slots: "runningSegStat sr = replicate (length ms) None"
    and sets: "stringSetsOnly st ms sr"
  shows "\<exists>sr'. updateMeasures st s idx rest sr = Some (None, sr')
    \<and> segStatsResults sr' \<noteq> None
    \<and> runningSegStat sr' = replicate (length ms) None
    \<and> stringSetsOnly st ms sr'"
  using rest res slots sets
proof (induction rest arbitrary: idx sr)
  case Nil
  then show ?case by simp
next
  case (Cons m' rest')
  note d = drop_ConsD [OF Cons.prems(1)]
  from all d(4) have fn: "MeasureFunc m' = Values" and plain: "ValueColRequest m' = None"
    by auto
  from Cons.prems(2) obtain r where r: "segStatsResults sr = Some r" by auto
  from Cons.prems(3) d(1) have slot: "idx < length (runningSegStat sr)" "runningSegStat sr ! idx = None"
    by simp_all
  from Cons.prems(4) d(4) have ev: "\<forall>y. runningEvalStats sr (String_of st m') \<noteq> Some (OtherStat y)"
    by (simp add: stringSetsOnly_def)
  from updateMeasure_values [OF fn plain slot r ev, where s = s]
  obtain sr1 where step: "updateMeasure st s sr idx m' = Some (Continue sr1)"
    and run1: "runningSegStat sr1 = runningSegStat sr"
    and eff: "sr1 = sr \<or> (\<exists>x y. runningEvalStats sr1 = (runningEvalStats sr)(String_of st m' \<mapsto> StrSetStat x)
        \<and> segStatsResults sr1 = Some y)"
    by (auto split: if_splits)
  from eff r have res1: "segStatsResults sr1 \<noteq> None" by auto
  from eff Cons.prems(4) have sets1: "stringSetsOnly st ms sr1"
    by (auto simp: stringSetsOnly_def split: if_splits)
  from Cons.IH [OF d(3) res1 _ sets1] run1 Cons.prems(3)
  obtain sr' where "updateMeasures st s (Suc idx) rest' sr1 = Some (None, sr')"
    "segStatsResults sr' \<noteq> None" "runningSegStat sr' = replicate (length ms) None"
    "stringSetsOnly st ms sr'"
    by auto
  with step show ?case by simp
qed

lemma updateSegments_all_values:
  assumes all: "\<forall>m' \<in> set ms. MeasureFunc m' = Values \<and> ValueColRequest m' = None"
    and res: "segStatsResults sr \<noteq> None"
    and slots: "runningSegStat sr = replicate (length ms) None"
    and sets: "stringSetsOnly st ms sr"
  shows "\<exists>sr'. updateSegments st ms sr segs = Some (replicate (length segs) None, sr')"
  using res slots sets
proof (induction segs arbitrary: sr)
  case Nil
  then show ?case by simp
next
  case (Cons s segs)
  from updateMeasures_all_values [OF all _ Cons.prems, where idx = 0 and rest = ms and s = s]
  obtain sr1 where first: "updateMeasures st s 0 ms sr = Some (None, sr1)"
    and "segStatsResults sr1 \<noteq> None" "runningSegStat sr1 = replicate (length ms) None"
    "stringSetsOnly st ms sr1"
    by auto
  from Cons.IH [OF this(2,3,4)] obtain sr' where
    "updateSegments st ms sr1 segs = Some (replicate (length segs) None, sr')" ..
  with first show ?case by (simp add: UpdateSegmentStats_def)
qed

lemma valuesInv_init:
  assumes "InitSearchResults br sizeLimit' (Some aggs) qType qid' = Inr sr1"
    and "MeasureOperations aggs = Some ms"
    and "sr0 = InitSegmentStatsResults st sr1 ms"
  shows "valuesInv ms n sr0 {||} False"
    and "segStatsResults sr0 \<noteq> None"
    and "runningSegStat sr0 = replicate (length ms) None"
    and "stringSetsOnly st ms sr0"
  using assms
  by (auto simp: InitSearchResults_def InitSegmentStatsResults_def valuesInv_def stringSetsOnly_def
      split: sum.splits)

lemma valuesEnclosure_sorted:
  "\<exists>xs. (valuesEnclosure x :: 'f CValueEnclosure)
      = \<lparr> Dtype = SS_DT_STRING_SLICE, CVal = VStringSlice xs \<rparr>
    \<and> sorted xs \<and> distinct xs \<and> set xs = fset x"
  by (simp add: valuesEnclosure_def sorted_list_of_fset.rep_eq)

text \<open>
  C9 (as stated): after any sequence of \<^verbatim>\<open>UpdateSegmentStats\<close> calls the entry of a plain
  Values measure is the union of the strings every segment so far has for the
  measure's column. The loop over the measure operations ends at the first
  \<^verbatim>\<open>return\<close>: when a measure operation before the Values measure is of a function
  outside the nine supported ones the call returns nil, and when it fails the call
  returns its error; either way the Values measure is not reached, and the segment's
  strings are not in its entry.
\<close>

theorem Values_entry_misses_segment:
  "map_option
      (\<lambda>(errs, sr).
        (errs, map_option (\<lambda>r. measureResults r (String_of exampleStatsfuns exampleValues))
          (segStatsResults sr)))
      (updateSegments exampleStatsfuns [exampleQuantile, exampleValues]
        (exampleStatsQuery [exampleQuantile, exampleValues]) [exampleLatencySegment])
     = Some ([None], Some None)
   \<and> map_option
      (\<lambda>(errs, sr).
        (errs, map_option (\<lambda>r. measureResults r (String_of exampleStatsfuns exampleValues))
          (segStatsResults sr)))
      (updateSegments exampleStatsfuns [exampleCount, exampleValues]
        (exampleStatsQuery [exampleCount, exampleValues]) [exampleLatencySegment])
     = Some ([Some (ErrExternal ''nil enclosure'')], Some None)
   \<and> allValues [exampleLatencySegment] (MeasureCol exampleValues) = {|''web-1''|}"
  by (simp add: exampleStatsQuery_def InitSegmentStatsResults_def InitSearchResults_def
      exampleBlockresults_def topk_blockresults_def topk_InitBlockResults_def
      exampleStatsfuns_def exampleQuantile_def exampleCount_def exampleValues_def
      exampleLatencySegment_def exampleStrings_def UpdateSegmentStats_def updateMeasure_def
      plainStat_def segmentValues_def Let_def)

text \<open>
  C9 (amended): for a plain Values measure of the query, starting from the state
  \<^verbatim>\<open>InitSearchResults\<close> and \<^verbatim>\<open>InitSegmentStatsResults\<close> build, after any sequence of
  \<^verbatim>\<open>UpdateSegmentStats\<close> calls that each returned nil, with measure operations that are
  all of the nine supported functions, the measure's entry in the merged results is
  the union of the strings of the measure's column over all segments so far, as a
  sorted sequence without duplicates; there is no entry before the first segment
  that has the column. The other measure operations of the query may be plain or with
  an expression; a measure operation of the same name is the same plain Values
  measure, and the expression functions leave the entries of other names as they
  are. When all measure operations are plain Values measures, every call returns
  nil.
\<close>

theorem Values_merged_by_union:
  assumes init: "InitSearchResults br sizeLimit' (Some aggs) qType qid' = Inr sr1"
    and ops: "MeasureOperations aggs = Some ms"
    and sr0: "sr0 = InitSegmentStatsResults st sr1 ms"
    and m: "m \<in> set ms" "MeasureFunc m = Values" "ValueColRequest m = None"
    and supported: "\<forall>m' \<in> set ms. \<forall>k. MeasureFunc m' \<noteq> OtherFn k"
    and named: "\<forall>m' \<in> set ms. String_of st m' = String_of st m \<longrightarrow>
      MeasureFunc m' = Values \<and> ValueColRequest m' = None \<and> MeasureCol m' = MeasureCol m"
    and frame: "leavesEntry st (String_of st m)"
  shows "(\<forall>errs sr. updateSegments st ms sr0 segs = Some (errs, sr) \<and> list_all (\<lambda>e. e = None) errs \<longrightarrow>
      (\<exists>r. segStatsResults sr = Some r
        \<and> (if \<exists>s \<in> set segs. map_of s (MeasureCol m) \<noteq> None
           then \<exists>xs. measureResults r (String_of st m)
                  = Some \<lparr> Dtype = SS_DT_STRING_SLICE, CVal = VStringSlice xs \<rparr>
                \<and> sorted xs \<and> distinct xs \<and> set xs = fset (allValues segs (MeasureCol m))
           else measureResults r (String_of st m) = None)))
    \<and> ((\<forall>m' \<in> set ms. MeasureFunc m' = Values \<and> ValueColRequest m' = None) \<longrightarrow>
        (\<exists>sr. updateSegments st ms sr0 segs = Some (replicate (length segs) None, sr)))"
proof (intro conjI allI impI)
  fix errs sr
  assume "updateSegments st ms sr0 segs = Some (errs, sr) \<and> list_all (\<lambda>e. e = None) errs"
  then have run: "updateSegments st ms sr0 segs = Some (errs, sr)"
    and ok: "list_all (\<lambda>e. e = None) errs"
    by simp_all
  from m(1) have ex: "\<exists>m' \<in> set ms. String_of st m' = String_of st m" by blast
  from updateSegments_values
    [OF supported named frame ex valuesInv_init(1) [OF init ops sr0] run ok]
  have inv: "valuesInv ms (String_of st m) sr ({||} |\<union>| allValues segs (MeasureCol m))
      (False \<or> (\<exists>s \<in> set segs. map_of s (MeasureCol m) \<noteq> None))" .
  then obtain r where r: "segStatsResults sr = Some r"
    and entry: "measureResults r (String_of st m)
      = (if \<exists>s \<in> set segs. map_of s (MeasureCol m) \<noteq> None
         then Some (valuesEnclosure (allValues segs (MeasureCol m))) else None)"
    by (auto simp: valuesInv_def)
  show "\<exists>r. segStatsResults sr = Some r
        \<and> (if \<exists>s \<in> set segs. map_of s (MeasureCol m) \<noteq> None
           then \<exists>xs. measureResults r (String_of st m)
                  = Some \<lparr> Dtype = SS_DT_STRING_SLICE, CVal = VStringSlice xs \<rparr>
                \<and> sorted xs \<and> distinct xs \<and> set xs = fset (allValues segs (MeasureCol m))
           else measureResults r (String_of st m) = None)"
  proof (cases "\<exists>s \<in> set segs. map_of s (MeasureCol m) \<noteq> None")
    case True
    with entry valuesEnclosure_sorted [of "allValues segs (MeasureCol m)"] r
    show ?thesis by auto
  next
    case False
    with entry r show ?thesis by auto
  qed
next
  assume all: "\<forall>m' \<in> set ms. MeasureFunc m' = Values \<and> ValueColRequest m' = None"
  from updateSegments_all_values [OF all valuesInv_init(2,3,4) [OF init ops sr0]]
  show "\<exists>sr. updateSegments st ms sr0 segs = Some (replicate (length segs) None, sr)" .
qed

lemma exampleSegments_values:
  "sorted_list_of_set (fset (allValues exampleSegments ''host'')) = [''db-1'', ''web-1'', ''web-2'']"
proof -
  have "allValues exampleSegments ''host'' = fset_of_list [''db-1'', ''web-1'', ''web-2'']"
    by (auto simp: exampleSegments_def exampleStrings_def segmentValues_def)
  moreover have "sorted_list_of_set (fset (fset_of_list [''db-1'', ''web-1'', ''web-2'']))
    = [''db-1'', ''web-1'', ''web-2'']"
    by code_simp
  ultimately show ?thesis by simp
qed

theorem Values_merged_by_union_witness:
  "InitSearchResults exampleBlockresults 0 (Some exampleValuesAggs) SegmentStatsCmd 0
     = Inr (projr (InitSearchResults exampleBlockresults 0 (Some exampleValuesAggs) SegmentStatsCmd 0))
   \<and> MeasureOperations exampleValuesAggs = Some [exampleStatus, exampleValues]
   \<and> list_all (\<lambda>m'. MeasureFunc m' = Values \<and> ValueColRequest m' = None) [exampleStatus, exampleValues]
   \<and> list_ex (\<lambda>s. map_of s (MeasureCol exampleValues) \<noteq> None) exampleSegments
   \<and> map_option
        (\<lambda>(errs, sr).
          (errs, map_option (\<lambda>r. measureResults r (String_of exampleStatsfuns exampleValues))
            (segStatsResults sr)))
        (updateSegments exampleStatsfuns [exampleStatus, exampleValues] exampleValuesInit exampleSegments)
     = Some ([None, None, None],
         Some (Some \<lparr> Dtype = SS_DT_STRING_SLICE,
                      CVal = VStringSlice [''db-1'', ''web-1'', ''web-2''] \<rparr>))"
proof -
  let ?m = exampleValues
  have init: "InitSearchResults exampleBlockresults 0 (Some exampleValuesAggs) SegmentStatsCmd 0
     = Inr (projr (InitSearchResults exampleBlockresults 0 (Some exampleValuesAggs) SegmentStatsCmd 0))"
    by (simp add: example_defs exampleValuesAggs_def)
  have ops: "MeasureOperations exampleValuesAggs = Some [exampleStatus, ?m]"
    by (simp add: exampleValuesAggs_def)
  have supported: "\<forall>m' \<in> set [exampleStatus, ?m]. \<forall>k. MeasureFunc m' \<noteq> OtherFn k"
    by (simp add: exampleValues_def exampleStatus_def)
  have m: "?m \<in> set [exampleStatus, ?m]" "MeasureFunc ?m = Values" "ValueColRequest ?m = None"
    by (simp_all add: exampleValues_def)
  have named: "\<forall>m' \<in> set [exampleStatus, ?m]. String_of exampleStatsfuns m' = String_of exampleStatsfuns ?m \<longrightarrow>
      MeasureFunc m' = Values \<and> ValueColRequest m' = None \<and> MeasureCol m' = MeasureCol ?m"
    by (simp add: exampleValues_def exampleStatus_def exampleStatsfuns_def)
  have frame: "leavesEntry exampleStatsfuns (String_of exampleStatsfuns ?m)"
    by (simp add: leavesEntry_def exampleStatsfuns_def)
  have all: "\<forall>m' \<in> set [exampleStatus, ?m]. MeasureFunc m' = Values \<and> ValueColRequest m' = None"
    by (simp add: exampleValues_def exampleStatus_def)
  have seen: "\<exists>s \<in> set exampleSegments. map_of s (MeasureCol ?m) \<noteq> None"
    by (simp add: exampleSegments_def exampleValues_def)
  note inst = Values_merged_by_union
    [OF init ops exampleValuesInit_def m supported named frame, where segs = exampleSegments]
  from inst all obtain sr where
    run: "updateSegments exampleStatsfuns [exampleStatus, ?m] exampleValuesInit exampleSegments
      = Some (replicate (length exampleSegments) None, sr)"
    by blast
  have "list_all (\<lambda>e. e = None) (replicate (length exampleSegments) (None :: error option))"
    by (simp add: list_all_iff)
  with inst run seen obtain r xs where r: "segStatsResults sr = Some r"
    and entry: "measureResults r (String_of exampleStatsfuns ?m)
      = Some \<lparr> Dtype = SS_DT_STRING_SLICE, CVal = VStringSlice xs \<rparr>"
    and xs: "sorted xs" "distinct xs" "set xs = fset (allValues exampleSegments (MeasureCol ?m))"
    by (auto split: if_splits)
  from xs have "xs = sorted_list_of_set (fset (allValues exampleSegments (MeasureCol ?m)))"
    by (metis sorted_list_of_set.idem_if_sorted_distinct)
  then have "xs = [''db-1'', ''web-1'', ''web-2'']"
    by (simp add: exampleSegments_values exampleValues_def)
  with run r entry init ops seen show ?thesis
    by (simp add: exampleValues_def exampleStatus_def exampleSegments_def list_ex_iff)
qed

section \<open>The raw-log cache\<close>

lemma worst_mem: "worst asc xs = Some w \<Longrightarrow> w \<in> set xs"
  by (induction xs arbitrary: w) (auto split: option.splits if_splits)

lemma remoteIds_append:
  "remoteIds (b \<lparr> tk_results := tk_results b @ [r] \<rparr>)
    = remoteIds b \<union> (if IsRemote r then {RecordId r} else {})"
  by (auto simp: remoteIds_def)

lemma filter_remote_remove1:
  "filter IsRemote (remove1 w xs) = (if IsRemote w then remove1 w (filter IsRemote xs) else filter IsRemote xs)"
  by (induction xs) auto

lemma distinct_ids_remove1:
  assumes "distinct (map RecordId xs)" and "w \<in> set xs"
  shows "RecordId ` set (remove1 w xs) = RecordId ` set xs - {RecordId w}"
proof -
  from assms(1) have d: "distinct xs" by (simp add: distinct_map)
  then have "set (remove1 w xs) = set xs - {w}" by simp
  moreover from assms have "\<And>x. x \<in> set xs \<Longrightarrow> x \<noteq> w \<Longrightarrow> RecordId x \<noteq> RecordId w"
    by (metis distinct_map inj_on_def)
  ultimately show ?thesis using assms(2) by auto
qed

text \<open>What an insertion does to the tagged records of the container.\<close>

lemma topk_Add_remote:
  assumes dist: "distinct (map RecordId (filter IsRemote (tk_results b)))"
    and nonempty: "[] \<notin> remoteIds b"
    and fresh: "IsRemote r \<longrightarrow> RecordId r \<notin> remoteIds b \<and> RecordId r \<noteq> []"
    and add: "topk_Add b r = ((added, removedID), b')"
  shows "remoteIds b' = (remoteIds b - (if removedID = [] then {} else {removedID}))
        \<union> (if added \<and> IsRemote r then {RecordId r} else {})"
    and "distinct (map RecordId (filter IsRemote (tk_results b')))"
    and "[] \<notin> remoteIds b'"
    and "removedID \<noteq> [] \<longrightarrow> removedID \<in> remoteIds b"
proof -
  let ?R = "filter IsRemote (tk_results b)"
  have ids: "remoteIds b = RecordId ` set ?R"
    by (auto simp: remoteIds_def)
  consider (room) "length (tk_results b) < unat (tk_sizeLimit b)"
    | (reject) "\<not> length (tk_results b) < unat (tk_sizeLimit b)" "added = False"
        "removedID = []" "b' = b"
    | (evict) w where "\<not> length (tk_results b) < unat (tk_sizeLimit b)"
        "worst (tk_ascending b) (tk_results b) = Some w" "added = True"
        "removedID = (if IsRemote w then RecordId w else [])"
        "b' = b \<lparr> tk_results := remove1 w (tk_results b) @ [r] \<rparr>"
    using add by (auto simp: topk_Add_def split: if_splits option.splits)
  then have "remoteIds b' = (remoteIds b - (if removedID = [] then {} else {removedID}))
        \<union> (if added \<and> IsRemote r then {RecordId r} else {})
    \<and> distinct (map RecordId (filter IsRemote (tk_results b')))
    \<and> [] \<notin> remoteIds b'
    \<and> (removedID \<noteq> [] \<longrightarrow> removedID \<in> remoteIds b)"
  proof cases
    case room
    with add have "added" "removedID = []" "b' = b \<lparr> tk_results := tk_results b @ [r] \<rparr>"
      by (auto simp: topk_Add_def)
    with dist nonempty fresh show ?thesis
      by (auto simp: remoteIds_def)
  next
    case reject
    with dist nonempty show ?thesis by simp
  next
    case (evict w)
    from evict(2) have w: "w \<in> set (tk_results b)" by (rule worst_mem)
    show ?thesis
    proof (cases "IsRemote w")
      case True
      with w have wR: "w \<in> set ?R" by simp
      with nonempty ids have wid: "RecordId w \<noteq> []" by force
      have R': "filter IsRemote (tk_results b')
        = remove1 w ?R @ (if IsRemote r then [r] else [])"
        using evict(5) True by (simp add: filter_remote_remove1)
      have rem: "RecordId ` set (remove1 w ?R) = remoteIds b - {RecordId w}"
        using distinct_ids_remove1 [OF dist wR] ids by simp
      have d1: "distinct (map RecordId (remove1 w ?R))"
        using dist by (metis distinct_map distinct_remove1 inj_on_subset set_remove1_subset)
      have "remoteIds b' = RecordId ` set (filter IsRemote (tk_results b'))"
        by (auto simp: remoteIds_def)
      also have "\<dots> = (remoteIds b - {RecordId w}) \<union> (if IsRemote r then {RecordId r} else {})"
        unfolding R' using rem by auto
      finally have 1: "remoteIds b' = (remoteIds b - {RecordId w})
          \<union> (if IsRemote r then {RecordId r} else {})" .
      have 2: "distinct (map RecordId (filter IsRemote (tk_results b')))"
        unfolding R' using d1 rem fresh by auto
      have 3: "[] \<notin> remoteIds b'"
        unfolding 1 using nonempty fresh by auto
      from 1 2 3 evict(3,4) True wid wR ids show ?thesis by auto
    next
      case False
      have R': "filter IsRemote (tk_results b') = ?R @ (if IsRemote r then [r] else [])"
        using evict(5) False by (simp add: filter_remote_remove1)
      have "remoteIds b' = RecordId ` set (filter IsRemote (tk_results b'))"
        by (auto simp: remoteIds_def)
      then have 1: "remoteIds b' = remoteIds b \<union> (if IsRemote r then {RecordId r} else {})"
        unfolding R' using ids by auto
      have 2: "distinct (map RecordId (filter IsRemote (tk_results b')))"
        unfolding R' using dist fresh ids by auto
      have 3: "[] \<notin> remoteIds b'"
        unfolding 1 using nonempty fresh by auto
      from 1 2 3 evict(3,4) False show ?thesis by auto
    qed
  qed
  then show "remoteIds b' = (remoteIds b - (if removedID = [] then {} else {removedID}))
        \<union> (if added \<and> IsRemote r then {RecordId r} else {})"
    and "distinct (map RecordId (filter IsRemote (tk_results b')))"
    and "[] \<notin> remoteIds b'"
    and "removedID \<noteq> [] \<longrightarrow> removedID \<in> remoteIds b"
    by blast+
qed

lemma restrict_map_delete: "(m |` A)(x := None) = m |` (A - {x})"
  by (auto simp: restrict_map_def fun_eq_iff)

lemma restrict_map_store: "m x = Some y \<Longrightarrow> (m |` A)(x \<mapsto> y) = m |` (insert x A)"
  by (auto simp: restrict_map_def fun_eq_iff)

lemma cacheInv_held: "cacheInv logs sr \<Longrightarrow> cacheKeys sr = heldRemoteIds sr"
  by (auto simp: cacheInv_def cacheKeys_def heldRemoteIds_def)

lemma cacheInv_logs:
  "cacheInv logs sr \<Longrightarrow> id' \<in> heldRemoteIds sr \<Longrightarrow> cachedLog sr id' = logs id'"
  by (auto simp: cacheInv_def cachedLog_def heldRemoteIds_def)

text \<open>One iteration of the loop of \<^verbatim>\<open>AddBlockResults\<close>.\<close>

lemma local_step:
  assumes inv: "cacheInv logs sr" and b: "BlockResults sr = Some b"
    and loc: "\<not> IsRemote r"
    and add: "topk_Add b r = ((added, removedID), b')"
  shows "\<exists>sr'. removeLog (sr \<lparr> BlockResults := Some b' \<rparr>) removedID = Some sr'
    \<and> cacheInv logs sr' \<and> heldRemoteIds sr' \<subseteq> heldRemoteIds sr"
proof -
  from inv b obtain ri where ri: "remoteInfo sr = Some ri"
    and cache: "remoteLogs ri = logs |` remoteIds b"
    and sub: "remoteIds b \<subseteq> dom logs" and ne: "[] \<notin> remoteIds b"
    and dist: "distinct (map RecordId (filter IsRemote (tk_results b)))"
    by (auto simp: cacheInv_def)
  from loc have fresh: "IsRemote r \<longrightarrow> RecordId r \<notin> remoteIds b \<and> RecordId r \<noteq> []" by simp
  note a = topk_Add_remote [OF dist ne fresh add]
  from a(1) loc have ids: "remoteIds b' = remoteIds b - (if removedID = [] then {} else {removedID})"
    by simp
  show ?thesis
  proof (cases "removedID = []")
    case True
    with ids ri cache sub a(2,3) b show ?thesis
      by (auto simp: removeLog_def cacheInv_def heldRemoteIds_def)
  next
    case False
    with ids ri cache sub a(2,3) b show ?thesis
      by (auto simp: removeLog_def cacheInv_def heldRemoteIds_def restrict_map_delete)
  qed
qed

text \<open>One iteration of the second loop of \<^verbatim>\<open>MergeRemoteRRCResults\<close>.\<close>

lemma remote_step:
  assumes inv: "cacheInv logs sr" and b: "BlockResults sr = Some b"
    and rem: "IsRemote r" "RecordId r \<noteq> []" "RecordId r \<notin> heldRemoteIds sr"
    and idx: "idx < length rawLogs" and log: "logs (RecordId r) = Some (rawLogs ! idx)"
    and add: "topk_Add b r = ((added, removedID), b')"
  shows "\<exists>sr2 sr'.
      (if added then addRawLog (sr \<lparr> BlockResults := Some b' \<rparr>) (RecordId r) (rawLogs ! idx)
       else Some (sr \<lparr> BlockResults := Some b' \<rparr>)) = Some sr2
    \<and> removeLog sr2 removedID = Some sr'
    \<and> cacheInv logs sr' \<and> heldRemoteIds sr' \<subseteq> insert (RecordId r) (heldRemoteIds sr)"
proof -
  from inv b obtain ri where ri: "remoteInfo sr = Some ri"
    and cache: "remoteLogs ri = logs |` remoteIds b"
    and sub: "remoteIds b \<subseteq> dom logs" and ne: "[] \<notin> remoteIds b"
    and dist: "distinct (map RecordId (filter IsRemote (tk_results b)))"
    by (auto simp: cacheInv_def)
  from rem b have fresh: "IsRemote r \<longrightarrow> RecordId r \<notin> remoteIds b \<and> RecordId r \<noteq> []"
    by (simp add: heldRemoteIds_def)
  note a = topk_Add_remote [OF dist ne fresh add]
  from a(1) rem(1) have ids: "remoteIds b' = (remoteIds b - (if removedID = [] then {} else {removedID}))
      \<union> (if added then {RecordId r} else {})"
    by simp
  from a(4) fresh rem(1) have other: "removedID \<noteq> RecordId r" by auto
  from log have indom: "RecordId r \<in> dom logs" by auto
  show ?thesis
  proof (cases added)
    case True
    have stored: "(logs |` remoteIds b)(RecordId r \<mapsto> rawLogs ! idx)
      = logs |` insert (RecordId r) (remoteIds b)"
      using log by (rule restrict_map_store [where m = logs and x = "RecordId r"])
    show ?thesis
    proof (cases "removedID = []")
      case e: True
      with True ids ri cache sub a(2,3) b indom stored show ?thesis
        by (auto simp: addRawLog_def removeLog_def cacheInv_def heldRemoteIds_def)
    next
      case e: False
      have "insert (RecordId r) (remoteIds b) - {removedID}
        = insert (RecordId r) (remoteIds b - {removedID})"
        using other by auto
      with e True ids ri cache sub a(2,3) b indom stored show ?thesis
        by (auto simp: addRawLog_def removeLog_def cacheInv_def heldRemoteIds_def
            restrict_map_delete)
    qed
  next
    case False
    show ?thesis
    proof (cases "removedID = []")
      case e: True
      with False ids ri cache sub a(2,3) b show ?thesis
        by (auto simp: removeLog_def cacheInv_def heldRemoteIds_def)
    next
      case e: False
      with False ids ri cache sub a(2,3) b show ?thesis
        by (auto simp: removeLog_def cacheInv_def heldRemoteIds_def restrict_map_delete)
    qed
  qed
qed

lemma cacheInv_same:
  assumes "cacheInv logs sr"
    and "map_option tk_results (BlockResults sr') = map_option tk_results (BlockResults sr)"
    and "map_option remoteLogs (remoteInfo sr') = map_option remoteLogs (remoteInfo sr)"
  shows "cacheInv logs sr'" and "heldRemoteIds sr' = heldRemoteIds sr"
  using assms
  by (auto simp: cacheInv_def heldRemoteIds_def remoteIds_def split: option.splits)

lemma addBlockRecords_cache:
  assumes "cacheInv logs sr" and "\<forall>r \<in> set recs. \<not> IsRemote r"
  shows "\<exists>sr'. addBlockRecords (topk_blockresults toFloat decode) recs sr = Some sr'
    \<and> cacheInv logs sr' \<and> heldRemoteIds sr' \<subseteq> heldRemoteIds sr"
  using assms
proof (induction recs arbitrary: sr)
  case Nil
  then show ?case by simp
next
  case (Cons r recs)
  from Cons.prems(1) obtain b where b: "BlockResults sr = Some b"
    by (auto simp: cacheInv_def)
  obtain added removedID b' where add: "topk_Add b r = ((added, removedID), b')"
    by (metis prod.exhaust)
  from Cons.prems(2) have loc: "\<not> IsRemote r" by simp
  from local_step [OF Cons.prems(1) b loc add] obtain sr1 where
    step: "removeLog (sr \<lparr> BlockResults := Some b' \<rparr>) removedID = Some sr1"
    and inv1: "cacheInv logs sr1" and sub1: "heldRemoteIds sr1 \<subseteq> heldRemoteIds sr"
    by blast
  from Cons.prems(2) have "\<forall>r \<in> set recs. \<not> IsRemote r" by simp
  from Cons.IH [OF inv1 this] obtain sr' where
    "addBlockRecords (topk_blockresults toFloat decode) recs sr1 = Some sr'"
    "cacheInv logs sr'" "heldRemoteIds sr' \<subseteq> heldRemoteIds sr1"
    by blast
  with b add step sub1 show ?case
    by (auto simp: topk_blockresults_def)
qed

lemma AddBlockResults_cache:
  assumes "cacheInv logs sr" and "\<forall>r \<in> set (tk_results blockRes). \<not> IsRemote r"
  shows "\<exists>sr'. AddBlockResults (topk_blockresults toFloat decode) sr blockRes = Some sr'
    \<and> cacheInv logs sr' \<and> heldRemoteIds sr' \<subseteq> heldRemoteIds sr"
proof -
  have "GetResults (topk_blockresults toFloat decode) blockRes = tk_results blockRes"
    by (simp add: topk_blockresults_def)
  with addBlockRecords_cache [OF assms, of toFloat decode] obtain sr1 where
    loop: "addBlockRecords (topk_blockresults toFloat decode)
      (GetResults (topk_blockresults toFloat decode) blockRes) sr = Some sr1"
    and inv1: "cacheInv logs sr1" and sub1: "heldRemoteIds sr1 \<subseteq> heldRemoteIds sr"
    by auto
  from inv1 obtain b where b: "BlockResults sr1 = Some b"
    by (auto simp: cacheInv_def)
  let ?sr' = "sr1 \<lparr> resultCount := resultCount sr1 + MatchedCount (topk_blockresults toFloat decode) blockRes,
    BlockResults := Some (MergeBuckets (topk_blockresults toFloat decode) b blockRes) \<rparr>"
  have run: "AddBlockResults (topk_blockresults toFloat decode) sr blockRes = Some ?sr'"
    using loop b by (simp add: AddBlockResults_def Let_def)
  have "map_option tk_results (BlockResults ?sr') = map_option tk_results (BlockResults sr1)"
    using b by (simp add: topk_blockresults_def)
  moreover have "map_option remoteLogs (remoteInfo ?sr') = map_option remoteLogs (remoteInfo sr1)"
    by simp
  ultimately have "cacheInv logs ?sr'" and "heldRemoteIds ?sr' = heldRemoteIds sr1"
    using cacheInv_same [OF inv1] by blast+
  with run sub1 show ?thesis by auto
qed

lemma mergeRemoteRecords_cache:
  assumes "cacheInv logs sr" and "heldRemoteIds sr \<subseteq> U"
    and "\<forall>r \<in> set rrcs. IsRemote r \<and> RecordId r \<noteq> [] \<and> RecordId r \<notin> U"
    and "distinct (map RecordId rrcs)"
    and "idx + length rrcs \<le> length rawLogs"
    and "\<forall>i < length rrcs. logs (RecordId (rrcs ! i)) = Some (rawLogs ! (idx + i))"
  shows "\<exists>sr'. mergeRemoteRecords (topk_blockresults toFloat decode) idx rrcs rawLogs sr = Some sr'
    \<and> cacheInv logs sr' \<and> heldRemoteIds sr' \<subseteq> U \<union> RecordId ` set rrcs"
  using assms
proof (induction rrcs arbitrary: sr idx U)
  case Nil
  then show ?case by simp
next
  case (Cons r rrcs)
  from Cons.prems(1) obtain b where b: "BlockResults sr = Some b"
    by (auto simp: cacheInv_def)
  obtain added removedID b' where add: "topk_Add b r = ((added, removedID), b')"
    by (metis prod.exhaust)
  from Cons.prems(2,3) have rem: "IsRemote r" "RecordId r \<noteq> []" "RecordId r \<notin> heldRemoteIds sr"
    by auto
  from Cons.prems(5) have idx: "idx < length rawLogs" by simp
  from Cons.prems(6) have log: "logs (RecordId r) = Some (rawLogs ! idx)" by force
  from remote_step [OF Cons.prems(1) b rem idx log add] obtain sr2 sr3 where
    store: "(if added then addRawLog (sr \<lparr> BlockResults := Some b' \<rparr>) (RecordId r) (rawLogs ! idx)
       else Some (sr \<lparr> BlockResults := Some b' \<rparr>)) = Some sr2"
    and del: "removeLog sr2 removedID = Some sr3"
    and inv3: "cacheInv logs sr3"
    and sub3: "heldRemoteIds sr3 \<subseteq> insert (RecordId r) (heldRemoteIds sr)"
    by blast
  from sub3 Cons.prems(2) have held: "heldRemoteIds sr3 \<subseteq> insert (RecordId r) U" by auto
  have "RecordId x \<noteq> RecordId r" if "x \<in> set rrcs" for x
    using that Cons.prems(4) by (force simp: image_iff)
  with Cons.prems(3) have fresh: "\<forall>x \<in> set rrcs. IsRemote x \<and> RecordId x \<noteq> []
      \<and> RecordId x \<notin> insert (RecordId r) U"
    by simp
  from Cons.prems(4) have dist: "distinct (map RecordId rrcs)" by simp
  from Cons.prems(5) have len: "Suc idx + length rrcs \<le> length rawLogs" by simp
  from Cons.prems(6) have logs': "\<forall>i < length rrcs. logs (RecordId (rrcs ! i)) = Some (rawLogs ! (Suc idx + i))"
    by force
  from Cons.IH [OF inv3 held fresh dist len logs'] obtain sr' where
    "mergeRemoteRecords (topk_blockresults toFloat decode) (Suc idx) rrcs rawLogs sr3 = Some sr'"
    "cacheInv logs sr'" "heldRemoteIds sr' \<subseteq> insert (RecordId r) U \<union> RecordId ` set rrcs"
    by blast
  with b add store del idx show ?case
    by (auto simp: topk_blockresults_def split: if_splits)
qed

lemma MergeRemoteRRCResults_cache:
  assumes "cacheInv logs sr" and "heldRemoteIds sr \<subseteq> U"
    and "\<forall>r \<in> set rrcs. IsRemote r \<and> RecordId r \<noteq> [] \<and> RecordId r \<notin> U"
    and "distinct (map RecordId rrcs)"
    and "length rrcs \<le> length rawLogs"
    and "\<forall>i < length rrcs. logs (RecordId (rrcs ! i)) = Some (rawLogs ! i)"
  shows "\<exists>err sr'. MergeRemoteRRCResults (topk_blockresults toFloat decode) sr rrcs g t allCols
        rawLogs remoteCount earlyExit = Some (err, sr')
    \<and> cacheInv logs sr' \<and> heldRemoteIds sr' \<subseteq> U \<union> RecordId ` set rrcs"
proof -
  from assms(1) obtain ri where ri: "remoteInfo sr = Some ri"
    by (auto simp: cacheInv_def)
  then have "\<exists>sr1. addRemoteColumns sr allCols = Some sr1
      \<and> BlockResults sr1 = BlockResults sr
      \<and> map_option remoteLogs (remoteInfo sr1) = map_option remoteLogs (remoteInfo sr)"
    by (cases "allCols = {}") (simp_all add: addRemoteColumns_def)
  then obtain sr1 where cols: "addRemoteColumns sr allCols = Some sr1"
    and same1: "BlockResults sr1 = BlockResults sr"
      "map_option remoteLogs (remoteInfo sr1) = map_option remoteLogs (remoteInfo sr)"
    by blast
  from cacheInv_same [OF assms(1), of sr1] same1
  have inv1: "cacheInv logs sr1" and held1: "heldRemoteIds sr1 = heldRemoteIds sr"
    by simp_all
  from held1 assms(2) have sub1: "heldRemoteIds sr1 \<subseteq> U" by simp
  from assms(5) have len: "0 + length rrcs \<le> length rawLogs" by simp
  from assms(6) have logs: "\<forall>i < length rrcs. logs (RecordId (rrcs ! i)) = Some (rawLogs ! (0 + i))"
    by simp
  from mergeRemoteRecords_cache [OF inv1 sub1 assms(3,4) len logs, of toFloat decode]
  obtain sr2 where loop: "mergeRemoteRecords (topk_blockresults toFloat decode) 0 rrcs rawLogs sr1 = Some sr2"
    and inv2: "cacheInv logs sr2" and sub2: "heldRemoteIds sr2 \<subseteq> U \<union> RecordId ` set rrcs"
    by blast
  let ?sr3 = "if earlyExit then sr2 \<lparr> EarlyExit := True \<rparr> else sr2"
  from inv2 obtain b where b: "BlockResults ?sr3 = Some b" "BlockResults sr2 = Some b"
    by (auto simp: cacheInv_def)
  obtain err b' where mrb: "MergeRemoteBuckets (topk_blockresults toFloat decode) b g t = (err, b')"
    by (metis prod.exhaust)
  then have res: "tk_results b' = tk_results b"
    by (auto simp: topk_blockresults_def split: sum.splits prod.splits)
  obtain sr' where run: "MergeRemoteRRCResults (topk_blockresults toFloat decode) sr rrcs g t allCols
        rawLogs remoteCount earlyExit = Some (err, sr')"
    and same': "BlockResults sr' = Some b'" "remoteInfo sr' = remoteInfo sr2"
    using cols loop b mrb
    by (cases err) (auto simp: MergeRemoteRRCResults_def Let_def)
  have "map_option tk_results (BlockResults sr') = map_option tk_results (BlockResults sr2)"
    using same'(1) b(2) res by simp
  moreover have "map_option remoteLogs (remoteInfo sr') = map_option remoteLogs (remoteInfo sr2)"
    using same'(2) by simp
  ultimately have "cacheInv logs sr'" and "heldRemoteIds sr' = heldRemoteIds sr2"
    using cacheInv_same [OF inv2] by blast+
  with run sub2 show ?thesis by auto
qed

lemma applyCall_cache:
  assumes inv: "cacheInv logs sr" and held: "heldRemoteIds sr \<subseteq> U"
    and loc: "\<forall>r \<in> set (localRecords c). \<not> IsRemote r"
    and rem: "\<forall>r \<in> set (remoteRecords c). IsRemote r \<and> RecordId r \<noteq> [] \<and> RecordId r \<notin> U"
    and dist: "distinct (map RecordId (remoteRecords c))"
    and len: "length (remoteRecords c) \<le> length (remoteRawLogs c)"
    and logs: "\<forall>i < length (remoteRecords c).
      logs (RecordId (remoteRecords c ! i)) = Some (remoteRawLogs c ! i)"
  shows "\<exists>sr'. applyCall (topk_blockresults toFloat decode) sr c = Some sr'
    \<and> cacheInv logs sr' \<and> heldRemoteIds sr' \<subseteq> U \<union> RecordId ` set (remoteRecords c)"
proof (cases c)
  case (CallSetEarlyExit exited)
  have "map_option tk_results (BlockResults (SetEarlyExit sr exited)) = map_option tk_results (BlockResults sr)"
    and "map_option remoteLogs (remoteInfo (SetEarlyExit sr exited)) = map_option remoteLogs (remoteInfo sr)"
    by (simp_all add: SetEarlyExit_def)
  from cacheInv_same [OF inv this] held CallSetEarlyExit show ?thesis by auto
next
  case (CallAddBlockResults blockRes)
  with loc have "\<forall>r \<in> set (tk_results blockRes). \<not> IsRemote r" by simp
  from AddBlockResults_cache [OF inv this, of toFloat decode] held CallAddBlockResults
  show ?thesis by auto
next
  case (CallMergeRemoteRRCResults rrcs g t allCols rawLogs remoteCount earlyExit)
  with rem dist len logs have
    "\<forall>r \<in> set rrcs. IsRemote r \<and> RecordId r \<noteq> [] \<and> RecordId r \<notin> U"
    "distinct (map RecordId rrcs)" "length rrcs \<le> length rawLogs"
    "\<forall>i < length rrcs. logs (RecordId (rrcs ! i)) = Some (rawLogs ! i)"
    by simp_all
  from MergeRemoteRRCResults_cache [OF inv held this,
      of toFloat decode g t allCols remoteCount earlyExit]
    CallMergeRemoteRRCResults
  show ?thesis by auto
qed

lemma applyCalls_cache:
  assumes "cacheInv logs sr" and "heldRemoteIds sr \<subseteq> U"
    and "\<forall>c \<in> set cs.
        (\<forall>r \<in> set (localRecords c). \<not> IsRemote r)
        \<and> (\<forall>r \<in> set (remoteRecords c). IsRemote r \<and> RecordId r \<noteq> [])
        \<and> length (remoteRecords c) \<le> length (remoteRawLogs c)"
    and "distinct (map RecordId (concat (map remoteRecords cs)))"
    and "RecordId ` set (concat (map remoteRecords cs)) \<inter> U = {}"
    and "\<forall>c \<in> set cs. \<forall>i < length (remoteRecords c).
        logs (RecordId (remoteRecords c ! i)) = Some (remoteRawLogs c ! i)"
  shows "\<exists>sr'. applyCalls (topk_blockresults toFloat decode) sr cs = Some sr' \<and> cacheInv logs sr'"
  using assms
proof (induction cs arbitrary: sr U)
  case Nil
  then show ?case by simp
next
  case (Cons c cs)
  let ?ids = "RecordId ` set (remoteRecords c)"
  from Cons.prems(3) have loc: "\<forall>r \<in> set (localRecords c). \<not> IsRemote r"
    and len: "length (remoteRecords c) \<le> length (remoteRawLogs c)"
    by simp_all
  from Cons.prems(3,5) have rem: "\<forall>r \<in> set (remoteRecords c).
      IsRemote r \<and> RecordId r \<noteq> [] \<and> RecordId r \<notin> U"
    by auto
  from Cons.prems(4) have dist: "distinct (map RecordId (remoteRecords c))"
    and dist': "distinct (map RecordId (concat (map remoteRecords cs)))"
    and disj: "?ids \<inter> RecordId ` set (concat (map remoteRecords cs)) = {}"
    by auto
  from Cons.prems(6) have logs: "\<forall>i < length (remoteRecords c).
      logs (RecordId (remoteRecords c ! i)) = Some (remoteRawLogs c ! i)"
    by simp
  from applyCall_cache [OF Cons.prems(1,2) loc rem dist len logs, of toFloat decode]
  obtain sr1 where step: "applyCall (topk_blockresults toFloat decode) sr c = Some sr1"
    and inv1: "cacheInv logs sr1" and held1: "heldRemoteIds sr1 \<subseteq> U \<union> ?ids"
    by blast
  from Cons.prems(3) have tags': "\<forall>c \<in> set cs.
        (\<forall>r \<in> set (localRecords c). \<not> IsRemote r)
        \<and> (\<forall>r \<in> set (remoteRecords c). IsRemote r \<and> RecordId r \<noteq> [])
        \<and> length (remoteRecords c) \<le> length (remoteRawLogs c)"
    by simp
  from Cons.prems(5) disj have fresh': "RecordId ` set (concat (map remoteRecords cs)) \<inter> (U \<union> ?ids) = {}"
    by auto
  from Cons.prems(6) have logs': "\<forall>c \<in> set cs. \<forall>i < length (remoteRecords c).
        logs (RecordId (remoteRecords c ! i)) = Some (remoteRawLogs c ! i)"
    by simp
  from Cons.IH [OF inv1 held1 tags' dist' fresh' logs'] step show ?case by simp
qed

lemma suppliedLogs_nth:
  assumes tags: "wellTagged cs" and c: "c \<in> set cs" and i: "i < length (remoteRecords c)"
  shows "suppliedLogs cs (RecordId (remoteRecords c ! i)) = Some (remoteRawLogs c ! i)"
proof -
  let ?pairs = "\<lambda>c. zip (map RecordId (remoteRecords c)) (remoteRawLogs c)"
  from tags have len: "\<And>c. c \<in> set cs \<Longrightarrow> length (remoteRecords c) \<le> length (remoteRawLogs c)"
    and dist: "distinct (map RecordId (concat (map remoteRecords cs)))"
    by (auto simp: wellTagged_def)
  have keys: "map fst (?pairs c) = map RecordId (remoteRecords c)" if "c \<in> set cs" for c
    using len [OF that] by (simp add: map_fst_zip_take)
  have "map fst (concat (map ?pairs cs)) = concat (map (\<lambda>c. map fst (?pairs c)) cs)"
    by (simp add: map_concat comp_def)
  also have "\<dots> = concat (map (\<lambda>c. map RecordId (remoteRecords c)) cs)"
    using keys by (metis (no_types, lifting) map_eq_conv)
  also have "\<dots> = map RecordId (concat (map remoteRecords cs))"
    by (simp add: map_concat comp_def)
  finally have d: "distinct (map fst (concat (map ?pairs cs)))"
    using dist by simp
  from i len [OF c] have "(RecordId (remoteRecords c ! i), remoteRawLogs c ! i) \<in> set (?pairs c)"
    by (force simp: set_zip)
  with c have "(RecordId (remoteRecords c ! i), remoteRawLogs c ! i) \<in> set (concat (map ?pairs cs))"
    by auto
  from map_of_is_SomeI [OF d this] show ?thesis
    by (simp add: suppliedLogs_def)
qed

lemma remoteIds_list: "remoteIds b = set (map RecordId (filter IsRemote (tk_results b)))"
  by (auto simp: remoteIds_def)

lemma cacheInv_init:
  "InitSearchResults (topk_blockresults toFloat decode) sizeLimit' aggs qType qid' = Inr sr0
    \<Longrightarrow> cacheInv logs sr0 \<and> heldRemoteIds sr0 = {}"
  by (auto simp: InitSearchResults_def topk_blockresults_def topk_InitBlockResults_def
      cacheInv_def heldRemoteIds_def remoteIds_def)

text \<open>
  C5 (as stated): after any sequence of \<^verbatim>\<open>AddBlockResults\<close> and \<^verbatim>\<open>MergeRemoteRRCResults\<close>
  calls the keys of the cache are the ids of the remote records in the top-K. A
  remote record with the empty id is cached under the empty key, and \<^verbatim>\<open>removeLog\<close>
  returns at once for the empty id: the entry stays after the record is evicted.
  When two remote records share an id, the eviction of one removes the entry the
  other still needs.
\<close>

theorem remoteLogs_out_of_step:
  "map_option (\<lambda>sr. (cacheKeys sr, heldRemoteIds sr))
      (applyCalls exampleBlockresults exampleInit
        [CallMergeRemoteRRCResults [exampleRecord [] True 1] None None {} [Map.empty] 1 False,
         CallAddBlockResults
           (exampleRecordsBlock [exampleRecord [] False 5, exampleRecord [] False 6])])
     = Some ({[]}, {})
   \<and> map_option (\<lambda>sr. (cacheKeys sr, heldRemoteIds sr))
      (applyCalls exampleBlockresults exampleInit
        [CallMergeRemoteRRCResults
           [exampleRecord ''a'' True 5, exampleRecord ''a'' True 6, exampleRecord ''b'' True 7]
           None None {} [Map.empty, Map.empty, Map.empty] 3 False])
     = Some ({''b''}, {''a'', ''b''})"
  by (simp add: example_defs exampleRecordsBlock_def call_defs cacheKeys_def heldRemoteIds_def
      remoteIds_list)

text \<open>
  C5 (amended): provided every record that comes from a peer carries the remote tag
  and an id that is not empty, no two such records share an id, each peer call
  brings a raw log for each of its records, and no record of a local block carries
  the remote tag, every sequence of \<^verbatim>\<open>AddBlockResults\<close>, \<^verbatim>\<open>MergeRemoteRRCResults\<close> and
  \<^verbatim>\<open>SetEarlyExit\<close> calls runs without a panic, and after it the keys of the cache are
  the ids of the remote records held by the top-K, each with the raw log its peer
  sent.
\<close>

theorem remoteLogs_follow_top_k:
  assumes init: "InitSearchResults (topk_blockresults toFloat decode) sizeLimit' aggs qType qid'
      = Inr sr0"
    and tags: "wellTagged cs"
  shows "\<exists>sr. applyCalls (topk_blockresults toFloat decode) sr0 cs = Some sr
    \<and> cacheKeys sr = heldRemoteIds sr
    \<and> (\<forall>id' \<in> heldRemoteIds sr. cachedLog sr id' = suppliedLogs cs id')"
proof -
  from cacheInv_init [OF init]
  have inv0: "cacheInv (suppliedLogs cs) sr0" and held0: "heldRemoteIds sr0 \<subseteq> {}"
    by simp_all
  from tags have each: "\<forall>c \<in> set cs.
        (\<forall>r \<in> set (localRecords c). \<not> IsRemote r)
        \<and> (\<forall>r \<in> set (remoteRecords c). IsRemote r \<and> RecordId r \<noteq> [])
        \<and> length (remoteRecords c) \<le> length (remoteRawLogs c)"
    and dist: "distinct (map RecordId (concat (map remoteRecords cs)))"
    by (simp_all add: wellTagged_def)
  have fresh: "RecordId ` set (concat (map remoteRecords cs)) \<inter> {} = {}"
    by simp
  have logs: "\<forall>c \<in> set cs. \<forall>i < length (remoteRecords c).
        suppliedLogs cs (RecordId (remoteRecords c ! i)) = Some (remoteRawLogs c ! i)"
    using suppliedLogs_nth [OF tags] by blast
  from applyCalls_cache [OF inv0 held0 each dist fresh logs, of toFloat decode]
  obtain sr where run: "applyCalls (topk_blockresults toFloat decode) sr0 cs = Some sr"
    and inv: "cacheInv (suppliedLogs cs) sr"
    by blast
  from cacheInv_held [OF inv] cacheInv_logs [OF inv] run show ?thesis
    by blast
qed

text \<open>Two remote records, then a local block whose record displaces one of them.\<close>

theorem remoteLogs_follow_top_k_witness:
  "InitSearchResults (topk_blockresults uint (\<lambda>g t. Inr (None, None))) 2 None RRCCmd 0
     = Inr exampleInit
   \<and> wellTagged
       [CallMergeRemoteRRCResults [exampleRecord ''n1-1'' True 5, exampleRecord ''n1-2'' True 1]
          None None {''host''} [[''host'' \<mapsto> VString ''web-1''], [''host'' \<mapsto> VString ''web-2'']]
          2 False,
        CallAddBlockResults (exampleRecordsBlock [exampleRecord [] False 3])]
   \<and> map_option (\<lambda>sr. (cacheKeys sr, heldRemoteIds sr, cachedLog sr ''n1-1''))
      (applyCalls (topk_blockresults uint (\<lambda>g t. Inr (None, None))) exampleInit
        [CallMergeRemoteRRCResults [exampleRecord ''n1-1'' True 5, exampleRecord ''n1-2'' True 1]
           None None {''host''} [[''host'' \<mapsto> VString ''web-1''], [''host'' \<mapsto> VString ''web-2'']]
           2 False,
         CallAddBlockResults (exampleRecordsBlock [exampleRecord [] False 3])])
     = Some ({''n1-1''}, {''n1-1''}, Some [''host'' \<mapsto> VString ''web-1''])"
proof -
  let ?br = "topk_blockresults uint (\<lambda>g t. Inr (None, None)) :: (int TopK, int) blockresults"
  let ?cs = "[CallMergeRemoteRRCResults [exampleRecord ''n1-1'' True 5, exampleRecord ''n1-2'' True 1]
          None None {''host''} [[''host'' \<mapsto> VString ''web-1''], [''host'' \<mapsto> VString ''web-2'']]
          2 False,
        CallAddBlockResults (exampleRecordsBlock [exampleRecord [] False 3])]
      :: (int TopK, int) call list"
  have init: "InitSearchResults ?br 2 None RRCCmd 0 = Inr exampleInit"
    using exampleInit_eq by (simp add: exampleBlockresults_def)
  have tags: "wellTagged ?cs"
    by (simp add: wellTagged_def exampleRecord_def exampleRecordsBlock_def)
  from remoteLogs_follow_top_k [OF init tags]
  obtain sr where run: "applyCalls ?br exampleInit ?cs = Some sr"
    and keys: "cacheKeys sr = heldRemoteIds sr"
    and logs: "\<forall>id' \<in> heldRemoteIds sr. cachedLog sr id' = suppliedLogs ?cs id'"
    by blast
  have "map_option heldRemoteIds (applyCalls ?br exampleInit ?cs) = Some {''n1-1''}"
    by (simp add: example_defs exampleRecordsBlock_def call_defs heldRemoteIds_def
        remoteIds_list)
  with run have held: "heldRemoteIds sr = {''n1-1''}" by simp
  with logs have "cachedLog sr ''n1-1'' = suppliedLogs ?cs ''n1-1''" by simp
  then have "cachedLog sr ''n1-1'' = Some [''host'' \<mapsto> VString ''web-1'']"
    by (simp add: suppliedLogs_def exampleRecord_def)
  with init tags run keys held show ?thesis by simp
qed

end
